(* ===== verification/Hub_Prelude.thy ===== *)
theory Hub_Prelude
  imports Main "HOL-Library.Word"
begin

text \<open>
  What every component of the model shares: the machine integers of the Rust code, the
  computations with a state and an early return (the \<open>?\<close> operator), the predicate
  \<open>keeps\<close> that states that a computation preserves a property of its state whatever it
  returns, and the collections of rules the component proofs draw on.
\<close>

section \<open>Integers\<close>

text \<open>
  \<open>i64\<close> values (database integers, timestamps) are \<open>int\<close>, with the conversions to and from
  the other widths written out; \<open>u32\<close> and \<open>u64\<close> are words.
\<close>

type_synonym i64 = int
type_synonym u16 = "16 word"
type_synonym u32 = "32 word"
type_synonym u64 = "64 word"
type_synonym bytes = "8 word list"

text \<open>The casts \<open>x as i64\<close> of a \<open>u64\<close> and of a \<open>u32\<close>, \<open>x as u32\<close> of an \<open>i64\<close>, and the sum of
  two \<open>i64\<close> in a release build.\<close>

definition u64_as_i64 :: "u64 \<Rightarrow> i64" where
  "u64_as_i64 w = sint w"

definition u32_as_i64 :: "u32 \<Rightarrow> i64" where
  "u32_as_i64 w = uint w"

definition i64_as_u32 :: "i64 \<Rightarrow> u32" where
  "i64_as_u32 v = word_of_int v"

definition i64_add :: "i64 \<Rightarrow> i64 \<Rightarrow> i64" where
  "i64_add a b = sint (word_of_int (a + b) :: u64)"

definition is_i64 :: "int \<Rightarrow> bool" where
  "is_i64 v \<longleftrightarrow> - (2 ^ 63) \<le> v \<and> v < 2 ^ 63"

lemma sint_u64_eq: "sint (w :: u64) = (uint w + 2 ^ 63) mod 2 ^ 64 - 2 ^ 63"
  by (simp add: sint_uint signed_take_bit_eq_take_bit_shift take_bit_eq_mod)

lemma u64_as_i64_small: "uint w < 2 ^ 63 \<Longrightarrow> u64_as_i64 w = uint w"
  by (simp add: u64_as_i64_def sint_u64_eq)

lemma u64_as_i64_big:
  assumes "2 ^ 63 \<le> uint w"
  shows "u64_as_i64 w = uint w - 2 ^ 64"
proof -
  have "uint w < 2 ^ 64"
    using uint_lt2p [of w] by simp
  have "uint w + 2 ^ 63 = (uint w - 2 ^ 63) + 2 ^ 64"
    by simp
  then have "(uint w + 2 ^ 63) mod 2 ^ 64 = (uint w - 2 ^ 63) mod 2 ^ 64"
    by (metis mod_add_self2)
  also have "\<dots> = uint w - 2 ^ 63"
    using assms \<open>uint w < 2 ^ 64\<close> by (intro mod_pos_pos_trivial) simp_all
  finally show ?thesis
    by (simp add: u64_as_i64_def sint_u64_eq)
qed

lemma i64_add_eq: "i64_add a b = (a + b + 2 ^ 63) mod 2 ^ 64 - 2 ^ 63"
proof -
  have "sint (word_of_int x :: u64) = (x + 2 ^ 63) mod 2 ^ 64 - 2 ^ 63" for x
    by (simp add: sint_u64_eq uint_word_of_int mod_add_left_eq)
  then show ?thesis
    by (simp only: i64_add_def)
qed

lemma i64_add_in_range: "is_i64 (a + b) \<Longrightarrow> i64_add a b = a + b"
  by (simp add: i64_add_eq is_i64_def mod_pos_pos_trivial)

lemma is_i64_i64_add: "is_i64 (i64_add a b)"
  using pos_mod_bound [of "2 ^ 64" "a + b + 2 ^ 63"] pos_mod_sign [of "2 ^ 64" "a + b + 2 ^ 63"]
  by (simp add: i64_add_eq is_i64_def)

lemma i64_as_u32_u32_as_i64 [simp]: "i64_as_u32 (u32_as_i64 w) = w"
  by (simp add: i64_as_u32_def u32_as_i64_def)

lemma u32_as_i64_i64_as_u32: "u32_as_i64 (i64_as_u32 v) = v mod 2 ^ 32"
  by (simp add: i64_as_u32_def u32_as_i64_def uint_word_of_int)

lemma u32_as_i64_range: "0 \<le> u32_as_i64 w" "u32_as_i64 w < 2 ^ 32"
  using uint_lt2p [of w] by (simp_all add: u32_as_i64_def)

section \<open>Results\<close>

text \<open>\<open>Result::and_then\<close> (and \<open>?\<close> outside any state), \<open>Option::ok_or\<close>, and
  \<open>Option::map(f)\<close> followed by \<open>transpose\<close>, and \<open>Option::or\<close> (SQL's \<open>COALESCE\<close>).\<close>

definition result_then :: "'e + 'a \<Rightarrow> ('a \<Rightarrow> 'e + 'b) \<Rightarrow> 'e + 'b" where
  "result_then r k = (case r of Inl e \<Rightarrow> Inl e | Inr x \<Rightarrow> k x)"

definition ok_or :: "'e \<Rightarrow> 'a option \<Rightarrow> 'e + 'a" where
  "ok_or e x = (case x of None \<Rightarrow> Inl e | Some v \<Rightarrow> Inr v)"

definition map_transpose :: "('a \<Rightarrow> 'e + 'b) \<Rightarrow> 'a option \<Rightarrow> 'e + 'b option" where
  "map_transpose f x =
     (case x of None \<Rightarrow> Inr None | Some v \<Rightarrow> result_then (f v) (\<lambda>w. Inr (Some w)))"

lemma result_then_simps [simp]:
  "result_then (Inl e) k = Inl e" "result_then (Inr x) k = k x"
  by (simp_all add: result_then_def)

lemma result_then_Inr: "result_then r k = Inr y \<longleftrightarrow> (\<exists>x. r = Inr x \<and> k x = Inr y)"
  by (simp add: result_then_def split: sum.splits)

definition coalesce :: "'a option \<Rightarrow> 'a option \<Rightarrow> 'a option" where
  "coalesce x y = (case x of None \<Rightarrow> y | Some v \<Rightarrow> Some v)"

lemma coalesce_simps [simp]: "coalesce None y = y" "coalesce (Some v) y = Some v"
  by (simp_all add: coalesce_def)

lemma ok_or_simps [simp]: "ok_or e None = Inl e" "ok_or e (Some v) = Inr v"
  by (simp_all add: ok_or_def)

lemma ok_or_Inr [simp]: "ok_or e x = Inr v \<longleftrightarrow> x = Some v"
  by (simp add: ok_or_def split: option.splits)

lemma map_transpose_simps [simp]:
  "map_transpose f None = Inr None"
  "map_transpose f (Some v) = result_then (f v) (\<lambda>w. Inr (Some w))"
  by (simp_all add: map_transpose_def)

section \<open>Computations with a state and an early return\<close>

text \<open>
  A Rust function that returns \<open>Result\<close> and reads and writes some state is a computation:
  it maps a state to a result (\<open>Inl\<close> the error, \<open>Inr\<close> the value) and the state it leaves
  behind, also when it fails. \<open>andthen m k\<close> is \<open>let x = m?; k(x)\<close>.
\<close>

type_synonym ('s, 'e, 'a) comp = "'s \<Rightarrow> ('e + 'a) \<times> 's"

definition ret :: "'a \<Rightarrow> ('s, 'e, 'a) comp" where
  "ret x s = (Inr x, s)"

definition fail :: "'e \<Rightarrow> ('s, 'e, 'a) comp" where
  "fail e s = (Inl e, s)"

definition andthen :: "('s, 'e, 'a) comp \<Rightarrow> ('a \<Rightarrow> ('s, 'e, 'b) comp) \<Rightarrow> ('s, 'e, 'b) comp" where
  "andthen m k s = (case m s of (Inl e, s') \<Rightarrow> (Inl e, s') | (Inr x, s') \<Rightarrow> k x s')"

definition reading :: "('s \<Rightarrow> 'a) \<Rightarrow> ('s, 'e, 'a) comp" where
  "reading f s = (Inr (f s), s)"

definition writing :: "('s \<Rightarrow> 's) \<Rightarrow> ('s, 'e, unit) comp" where
  "writing f s = (Inr (), f s)"

definition of_result :: "'e + 'a \<Rightarrow> ('s, 'e, 'a) comp" where
  "of_result r s = (r, s)"

text \<open>\<open>map_err m f\<close> is \<open>m.map_err(f)\<close>; \<open>transaction m\<close> runs \<open>m\<close> between
  \<open>pool.begin()\<close> and \<open>tx.commit()\<close>: an early return drops the transaction, which rolls
  every write back.\<close>

definition map_err :: "('s, 'e, 'a) comp \<Rightarrow> ('e \<Rightarrow> 'f) \<Rightarrow> ('s, 'f, 'a) comp" where
  "map_err m f s = (case m s of (Inl e, s') \<Rightarrow> (Inl (f e), s') | (Inr x, s') \<Rightarrow> (Inr x, s'))"

definition transaction :: "('s, 'e, 'a) comp \<Rightarrow> ('s, 'e, 'a) comp" where
  "transaction m s = (case m s of (Inl e, s') \<Rightarrow> (Inl e, s) | (Inr x, s') \<Rightarrow> (Inr x, s'))"

lemma comp_simps [simp]:
  "ret x s = (Inr x, s)" "fail e s = (Inl e, s)" "reading f s = (Inr (f s), s)"
  "writing g s = (Inr (), g s)" "of_result r s = (r, s)"
  by (simp_all add: ret_def fail_def reading_def writing_def of_result_def)

lemma andthen_simps:
  "m s = (Inl e, s') \<Longrightarrow> andthen m k s = (Inl e, s')"
  "m s = (Inr x, s') \<Longrightarrow> andthen m k s = k x s'"
  by (simp_all add: andthen_def)

lemma andthen_basic [simp]:
  "andthen (ret x) k s = k x s" "andthen (fail e) k s = (Inl e, s)"
  "andthen (reading f) k s = k (f s) s" "andthen (writing g) h s = h () (g s)"
  "andthen (of_result r) k s = (case r of Inl e \<Rightarrow> (Inl e, s) | Inr x \<Rightarrow> k x s)"
  by (simp_all add: andthen_def split: sum.splits)

lemma andthen_assoc [simp]: "andthen (andthen m f) k s = andthen m (\<lambda>x. andthen (f x) k) s"
  by (simp add: andthen_def split: prod.splits sum.splits)

lemma transaction_error: "transaction m s = (Inl e, s') \<Longrightarrow> s' = s"
  by (auto simp: transaction_def split: prod.splits sum.splits)

lemma transaction_ok: "transaction m s = (Inr x, s') \<longleftrightarrow> m s = (Inr x, s')"
  by (auto simp: transaction_def split: prod.splits sum.splits)

section \<open>Preservation\<close>

text \<open>
  \<open>keeps P m\<close>: whatever \<open>m\<close> returns, it leaves a state with \<open>P\<close> if it started in one. The
  rules below reduce it to the statements \<open>m\<close> is built from, so that an invariant of an
  operation needs one fact per kind of statement.
\<close>

named_theorems keeps_intro "rules that show that a computation preserves a property"

definition keeps :: "('s \<Rightarrow> bool) \<Rightarrow> ('s, 'e, 'a) comp \<Rightarrow> bool" where
  "keeps P m \<longleftrightarrow> (\<forall>s. P s \<longrightarrow> P (snd (m s)))"

lemma keepsI: "(\<And>s. P s \<Longrightarrow> P (snd (m s))) \<Longrightarrow> keeps P m"
  by (simp add: keeps_def)

lemma keepsD: "keeps P m \<Longrightarrow> m s = (r, s') \<Longrightarrow> P s \<Longrightarrow> P s'"
  by (metis keeps_def snd_conv)

lemma keeps_snd: "keeps P m \<Longrightarrow> P s \<Longrightarrow> P (snd (m s))"
  by (simp add: keeps_def)

lemma keeps_basic [keeps_intro]:
  "keeps P (ret x)" "keeps P (fail e)" "keeps P (reading f)" "keeps P (of_result r)"
  by (simp_all add: keeps_def)

lemma keeps_writing: "(\<And>s. P s \<Longrightarrow> P (f s)) \<Longrightarrow> keeps P (writing f)"
  by (simp add: keeps_def)

lemma keeps_andthen [keeps_intro]:
  assumes "keeps P m" and "\<And>x. keeps P (k x)"
  shows "keeps P (andthen m k)"
  using assms by (auto simp: keeps_def andthen_def split: prod.splits sum.splits)

lemma keeps_map_err [keeps_intro]: "keeps P m \<Longrightarrow> keeps P (map_err m f)"
  by (auto simp: keeps_def map_err_def split: prod.splits sum.splits)

lemma keeps_transaction [keeps_intro]: "keeps P m \<Longrightarrow> keeps P (transaction m)"
  by (auto simp: keeps_def transaction_def split: prod.splits sum.splits)

lemma keeps_if [keeps_intro]: "keeps P m \<Longrightarrow> keeps P n \<Longrightarrow> keeps P (if b then m else n)"
  by simp

lemma keeps_option [keeps_intro]:
  "keeps P m \<Longrightarrow> (\<And>x. keeps P (k x)) \<Longrightarrow>
     keeps P (case z of None \<Rightarrow> m | Some x \<Rightarrow> k x)"
  by (simp split: option.splits)

lemma keeps_prod [keeps_intro]:
  "(\<And>x y. keeps P (k x y)) \<Longrightarrow> keeps P (case z of (x, y) \<Rightarrow> k x y)"
  by (simp split: prod.splits)

end
