(* ===== verification/Sql_Table.thy ===== *)
theory Sql_Table
  imports Hub_Prelude
begin

text \<open>
  The SQL statements of the program, on one table: a table is the list of its rows in
  insertion order, a \<open>WHERE\<close> clause a predicate. The interface \<open>sql_table\<close> states what the
  operations that read rows by primary key rely on; every table of the schema provides it.
\<close>

section \<open>Statements on a table\<close>

definition select_where :: "('r \<Rightarrow> bool) \<Rightarrow> 'r list \<Rightarrow> 'r list" where
  "select_where P t = filter P t"

text \<open>\<open>fetch_optional\<close> of a \<open>SELECT\<close>, and \<open>SELECT COUNT(*)\<close>.\<close>

definition fetch_optional :: "('r \<Rightarrow> bool) \<Rightarrow> 'r list \<Rightarrow> 'r option" where
  "fetch_optional P t = find P t"

definition count_where :: "('r \<Rightarrow> bool) \<Rightarrow> 'r list \<Rightarrow> nat" where
  "count_where P t = length (filter P t)"

definition update_where :: "('r \<Rightarrow> bool) \<Rightarrow> ('r \<Rightarrow> 'r) \<Rightarrow> 'r list \<Rightarrow> 'r list" where
  "update_where P f t = map (\<lambda>r. if P r then f r else r) t"

definition delete_where :: "('r \<Rightarrow> bool) \<Rightarrow> 'r list \<Rightarrow> 'r list" where
  "delete_where P t = filter (\<lambda>r. \<not> P r) t"

text \<open>\<open>ORDER BY k DESC\<close>, with ties in insertion order (SQL leaves them open), and \<open>LIMIT n\<close>,
  where a negative limit is none.\<close>

definition order_desc :: "('r \<Rightarrow> i64) \<Rightarrow> 'r list \<Rightarrow> 'r list" where
  "order_desc k t = sort_key (\<lambda>r. - k r) t"

definition sql_limit :: "i64 \<Rightarrow> 'r list \<Rightarrow> 'r list" where
  "sql_limit n t = (if n < 0 then t else take (nat n) t)"

definition row_by :: "('r \<Rightarrow> string) \<Rightarrow> string \<Rightarrow> 'r list \<Rightarrow> 'r option" where
  "row_by key k t = find (\<lambda>r. key r = k) t"

section \<open>Lemmas on the statements\<close>

lemma count_where_pos: "0 < count_where P t \<longleftrightarrow> (\<exists>r \<in> set t. P r)"
  by (auto simp: count_where_def filter_empty_conv)

lemma count_where_0: "count_where P t = 0 \<longleftrightarrow> (\<forall>r \<in> set t. \<not> P r)"
  by (auto simp: count_where_def filter_empty_conv)

lemma fetch_optional_None: "fetch_optional P t = None \<longleftrightarrow> (\<forall>r \<in> set t. \<not> P r)"
  by (auto simp: fetch_optional_def find_None_iff)

lemma fetch_optional_Some: "fetch_optional P t = Some r \<Longrightarrow> r \<in> set t \<and> P r"
  by (auto simp: fetch_optional_def find_Some_iff)

lemma set_update_where:
  "set (update_where P f t) = (\<lambda>r. if P r then f r else r) ` set t"
  by (simp add: update_where_def)

lemma set_delete_where [simp]: "set (delete_where P t) = {r \<in> set t. \<not> P r}"
  by (auto simp: delete_where_def)

lemma set_select_where [simp]: "set (select_where P t) = {r \<in> set t. P r}"
  by (auto simp: select_where_def)

lemma map_key_update_where:
  "(\<And>r. key (f r) = key r) \<Longrightarrow> map key (update_where P f t) = map key t"
  by (simp add: update_where_def)

lemma image_key_update_where:
  "(\<And>r. key (f r) = key r) \<Longrightarrow> key ` set (update_where P f t) = key ` set t"
  by (metis list.set_map map_key_update_where)

lemma ball_update_where:
  "(\<forall>r \<in> set (update_where P f t). Q r) \<longleftrightarrow> (\<forall>r \<in> set t. Q (if P r then f r else r))"
  by (auto simp: update_where_def)

lemma bex_update_where:
  "(\<exists>r \<in> set (update_where P f t). Q r) \<longleftrightarrow> (\<exists>r \<in> set t. Q (if P r then f r else r))"
  by (auto simp: update_where_def)

lemma key_not_deleted:
  "k \<in> key ` set t \<Longrightarrow> k \<notin> key ` {r \<in> set t. P r} \<Longrightarrow> k \<in> key ` {r \<in> set t. \<not> P r}"
  by auto

lemma distinct_map_delete_where:
  "distinct (map key t) \<Longrightarrow> distinct (map key (delete_where P t))"
  by (simp add: delete_where_def distinct_map_filter)

lemma update_where_none: "(\<forall>r \<in> set t. \<not> P r) \<Longrightarrow> update_where P f t = t"
  by (simp add: update_where_def map_idI)

lemma delete_where_none: "(\<forall>r \<in> set t. \<not> P r) \<Longrightarrow> delete_where P t = t"
  by (simp add: delete_where_def)

lemma set_order_desc [simp]: "set (order_desc k t) = set t"
  by (simp add: order_desc_def)

lemma sorted_order_desc: "sorted (map (\<lambda>r. - k r) (order_desc k t))"
  by (simp add: order_desc_def)

lemma length_order_desc [simp]: "length (order_desc k t) = length t"
  by (simp add: order_desc_def)

lemma length_sql_limit: "0 \<le> n \<Longrightarrow> length (sql_limit n t) = min (length t) (nat n)"
  by (simp add: sql_limit_def)

lemma set_sql_limit: "set (sql_limit n t) \<subseteq> set t"
  by (auto simp: sql_limit_def dest: in_set_takeD)

lemma sorted_sql_limit: "sorted (map k t) \<Longrightarrow> sorted (map k (sql_limit n t))"
  by (simp add: sql_limit_def sorted_wrt_take flip: take_map)

lemma row_by_Nil [simp]: "row_by key k [] = None"
  by (simp add: row_by_def)

lemma row_by_Cons [simp]:
  "row_by key k (r # t) = (if key r = k then Some r else row_by key k t)"
  by (simp add: row_by_def)

lemma row_by_append:
  "row_by key k (t @ u) = (case row_by key k t of None \<Rightarrow> row_by key k u | Some r \<Rightarrow> Some r)"
  by (induction t) auto

lemma row_by_None: "row_by key k t = None \<longleftrightarrow> k \<notin> key ` set t"
  by (induction t) auto

lemma row_by_Some: "row_by key k t = Some r \<Longrightarrow> r \<in> set t \<and> key r = k"
  by (auto simp: row_by_def find_Some_iff)

lemma row_by_in_set:
  "distinct (map key t) \<Longrightarrow> row_by key k t = Some r \<longleftrightarrow> r \<in> set t \<and> key r = k"
  by (induction t) (auto simp: image_iff)

lemma fetch_optional_row_by:
  assumes "distinct (map key t)"
  shows "fetch_optional (\<lambda>r. key r = k \<and> Q r) t =
    (case row_by key k t of None \<Rightarrow> None | Some r \<Rightarrow> if Q r then Some r else None)"
  using assms
proof (induction t)
  case Nil
  then show ?case by (simp add: fetch_optional_def)
next
  case (Cons a t)
  have "row_by key k t = None" if "key a = k"
    using that Cons.prems by (auto simp: row_by_None)
  with Cons show ?case
    by (auto simp: fetch_optional_def)
qed

lemma fetch_optional_key: "fetch_optional (\<lambda>r. key r = k) t = row_by key k t"
  by (simp add: fetch_optional_def row_by_def)

lemma row_by_update_where:
  assumes "\<And>r. key (f r) = key r"
  shows "row_by key k (update_where P f t) =
    map_option (\<lambda>r. if P r then f r else r) (row_by key k t)"
  by (induction t) (auto simp: update_where_def assms)

lemma map_row_by_other:
  "k \<noteq> k' \<Longrightarrow>
     map_option (\<lambda>r. if key r = k' \<and> Q r then f r else r) (row_by key k t) = row_by key k t"
  by (cases "row_by key k t") (auto dest: row_by_Some)

lemma row_by_delete_where:
  assumes "distinct (map key t)"
  shows "row_by key k (delete_where P t) =
    (case row_by key k t of None \<Rightarrow> None | Some r \<Rightarrow> if P r then None else Some r)"
  using assms
proof (induction t)
  case Nil
  then show ?case by (simp add: delete_where_def)
next
  case (Cons a t)
  have "row_by key k t = None" if "key a = k"
    using that Cons.prems by (auto simp: row_by_None)
  with Cons show ?case
    by (auto simp: delete_where_def)
qed

section \<open>The interface of a table with a primary key\<close>

text \<open>
  \<open>rows\<close> and \<open>put\<close> read and replace the rows of one table of a database \<open>'d\<close>, \<open>key\<close> is its
  primary key and \<open>wf\<close> the well-formedness of the database.
\<close>

locale sql_table =
  fixes rows :: "'d \<Rightarrow> 'r list"
    and put :: "'r list \<Rightarrow> 'd \<Rightarrow> 'd"
    and key :: "'r \<Rightarrow> string"
    and wf :: "'d \<Rightarrow> bool"
  assumes rows_put [simp]: "rows (put t d) = t"
    and wf_distinct: "wf d \<Longrightarrow> distinct (map key (rows d))"
begin

lemma lookup_insert:
  "key r \<notin> key ` set (rows d) \<Longrightarrow>
     row_by key k (rows (put (rows d @ [r]) d)) =
       (if k = key r then Some r else row_by key k (rows d))"
  by (auto simp: row_by_append row_by_None [symmetric] split: option.splits)

lemma lookup_update:
  "(\<And>r. key (f r) = key r) \<Longrightarrow>
     row_by key k (rows (put (update_where P f (rows d)) d)) =
       map_option (\<lambda>r. if P r then f r else r) (row_by key k (rows d))"
  by (simp add: row_by_update_where)

lemma lookup_delete:
  "wf d \<Longrightarrow>
     row_by key k (rows (put (delete_where P (rows d)) d)) =
       (case row_by key k (rows d) of None \<Rightarrow> None | Some r \<Rightarrow> if P r then None else Some r)"
  by (simp add: row_by_delete_where wf_distinct)

lemma lookup_iff: "wf d \<Longrightarrow> row_by key k (rows d) = Some r \<longleftrightarrow> r \<in> set (rows d) \<and> key r = k"
  by (rule row_by_in_set [OF wf_distinct])

lemma fetch_by_key:
  "wf d \<Longrightarrow> fetch_optional (\<lambda>r. key r = k \<and> Q r) (rows d) =
     (case row_by key k (rows d) of None \<Rightarrow> None | Some r \<Rightarrow> if Q r then Some r else None)"
  by (rule fetch_optional_row_by [OF wf_distinct])

lemma row_unique: "wf d \<Longrightarrow> r \<in> set (rows d) \<Longrightarrow> r' \<in> set (rows d) \<Longrightarrow> key r = key r' \<Longrightarrow> r = r'"
  using lookup_iff [of d "key r" r] lookup_iff [of d "key r" r'] by simp

end

end
