(* ===== verification/Rust_Std.thy ===== *)
theory Rust_Std
  imports Hub_Prelude
begin

text \<open>
  The operations of Rust's standard library that the hub calls on strings and bytes:
  \<open>str::split\<close>, \<open>split_once\<close>, \<open>strip_prefix\<close>, \<open>trim\<close>, \<open>parse::<u64>()\<close>, the decimal output of
  integers, and \<open>String::from_utf8\<close>. A Rust string is a UTF-8 byte sequence, and a HOL
  \<open>string\<close> holds its bytes, so that \<open>len()\<close> is \<open>length\<close>.
\<close>

section \<open>Bytes\<close>

definition byte_of_char :: "char \<Rightarrow> 8 word" where
  "byte_of_char c = word_of_nat (of_char c)"

definition char_of_byte :: "8 word \<Rightarrow> char" where
  "char_of_byte b = char_of (unat b)"

abbreviation as_bytes :: "string \<Rightarrow> bytes" where
  "as_bytes s \<equiv> map byte_of_char s"

lemma char_of_byte_of_char [simp]: "char_of_byte (byte_of_char c) = c"
proof -
  have "(of_char c :: nat) < 256"
    by (rule nat_of_char_less_256)
  then show ?thesis
    by (simp add: char_of_byte_def byte_of_char_def unat_of_nat)
qed

lemma char_of_byte_comp [simp]: "char_of_byte \<circ> byte_of_char = id"
  by (simp add: fun_eq_iff)

lemma map_char_of_byte: "map char_of_byte (as_bytes s) = s"
  by simp

lemma as_bytes_inject [simp]: "as_bytes s = as_bytes t \<longleftrightarrow> s = t"
  by (metis map_char_of_byte)

text \<open>Well-formed UTF-8, by the lead byte and the ranges of its continuation bytes.\<close>

definition cont_byte :: "nat \<Rightarrow> nat \<Rightarrow> 8 word \<Rightarrow> bool" where
  "cont_byte lo hi b \<longleftrightarrow> lo \<le> unat b \<and> unat b \<le> hi"

fun valid_utf8 :: "bytes \<Rightarrow> bool" where
  "valid_utf8 [] = True"
| "valid_utf8 (a # r) =
     (if unat a < 0x80 then valid_utf8 r
      else if 0xC2 \<le> unat a \<and> unat a \<le> 0xDF then
        (case r of b # r1 \<Rightarrow> cont_byte 0x80 0xBF b \<and> valid_utf8 r1 | _ \<Rightarrow> False)
      else if 0xE0 \<le> unat a \<and> unat a \<le> 0xEF then
        (case r of b # c # r2 \<Rightarrow>
           cont_byte (if unat a = 0xE0 then 0xA0 else 0x80) (if unat a = 0xED then 0x9F else 0xBF) b \<and>
           cont_byte 0x80 0xBF c \<and> valid_utf8 r2 | _ \<Rightarrow> False)
      else if 0xF0 \<le> unat a \<and> unat a \<le> 0xF4 then
        (case r of b # c # d # r3 \<Rightarrow>
           cont_byte (if unat a = 0xF0 then 0x90 else 0x80) (if unat a = 0xF4 then 0x8F else 0xBF) b \<and>
           cont_byte 0x80 0xBF c \<and> cont_byte 0x80 0xBF d \<and> valid_utf8 r3 | _ \<Rightarrow> False)
      else False)"

declare valid_utf8.simps(2) [simp del]

text \<open>\<open>String::from_utf8\<close>, and the strings that can be values of the type \<open>String\<close>.\<close>

definition from_utf8 :: "bytes \<Rightarrow> string option" where
  "from_utf8 bs = (if valid_utf8 bs then Some (map char_of_byte bs) else None)"

abbreviation utf8_string :: "string \<Rightarrow> bool" where
  "utf8_string s \<equiv> valid_utf8 (as_bytes s)"

lemma from_utf8_as_bytes [simp]: "utf8_string s \<Longrightarrow> from_utf8 (as_bytes s) = Some s"
  by (simp add: from_utf8_def)

section \<open>Splitting\<close>

text \<open>\<open>s.split(c)\<close> yields one piece more than there are separators.\<close>

fun split_on :: "char \<Rightarrow> string \<Rightarrow> string list" where
  "split_on c [] = [[]]"
| "split_on c (x # xs) =
     (if x = c then [] # split_on c xs
      else (case split_on c xs of p # ps \<Rightarrow> (x # p) # ps | [] \<Rightarrow> [[x]]))"

fun split_once :: "char \<Rightarrow> string \<Rightarrow> (string \<times> string) option" where
  "split_once c [] = None"
| "split_once c (x # xs) =
     (if x = c then Some ([], xs)
      else map_option (\<lambda>(a, b). (x # a, b)) (split_once c xs))"

definition strip_prefix :: "string \<Rightarrow> string \<Rightarrow> string option" where
  "strip_prefix p s = (if take (length p) s = p then Some (drop (length p) s) else None)"

lemma split_on_nonempty [simp]: "split_on c s \<noteq> []"
  by (induction s) (auto split: list.splits)

lemma split_on_absent: "c \<notin> set s \<Longrightarrow> split_on c s = [s]"
  by (induction s) auto

lemma split_on_pieces: "p \<in> set (split_on c s) \<Longrightarrow> c \<notin> set p"
proof (induction s arbitrary: p)
  case (Cons x s)
  then show ?case
    by (cases "split_on c s") (auto split: if_splits)
qed simp

lemma split_on_append_sep: "c \<notin> set a \<Longrightarrow> split_on c (a @ c # b) = a # split_on c b"
  by (induction a) auto

lemma split_once_append_sep [simp]: "c \<notin> set a \<Longrightarrow> split_once c (a @ c # b) = Some (a, b)"
  by (induction a) auto

lemma split_once_Some: "split_once c s = Some (a, b) \<Longrightarrow> s = a @ c # b \<and> c \<notin> set a"
  by (induction s arbitrary: a) (auto split: if_splits)

lemma strip_prefix_append [simp]: "strip_prefix p (p @ s) = Some s"
  by (simp add: strip_prefix_def)

lemma strip_prefix_iff: "strip_prefix p s = Some r \<longleftrightarrow> s = p @ r"
  by (auto simp: strip_prefix_def) (metis append_take_drop_id)

text \<open>Joining the pieces with the separator gives the string back.\<close>

fun join_with :: "char \<Rightarrow> string list \<Rightarrow> string" where
  "join_with c [] = []"
| "join_with c [p] = p"
| "join_with c (p # q # r) = p @ c # join_with c (q # r)"

lemma join_with_Cons: "ps \<noteq> [] \<Longrightarrow> join_with c ((x # p) # ps) = x # join_with c (p # ps)"
  by (cases ps) simp_all

lemma join_split_on: "join_with c (split_on c s) = s"
proof (induction s)
  case (Cons x s)
  obtain p ps where "split_on c s = p # ps"
    by (cases "split_on c s") auto
  with Cons show ?case
    by (cases ps) auto
qed simp

section \<open>Trimming\<close>

text \<open>
  \<open>str::trim\<close> drops the characters with the Unicode property White\_Space from both ends.
  \<open>ws_head s\<close> is the number of bytes of such a character at the start of \<open>s\<close> (0 when there is
  none), \<open>ws_last r\<close> the same for the reversed string.
\<close>

definition ascii_ws :: "nat \<Rightarrow> bool" where
  "ascii_ws n \<longleftrightarrow> 9 \<le> n \<and> n \<le> 13 \<or> n = 32"

definition ws2 :: "nat \<Rightarrow> nat \<Rightarrow> bool" where
  "ws2 a b \<longleftrightarrow> a = 0xC2 \<and> (b = 0x85 \<or> b = 0xA0)"

definition ws3 :: "nat \<Rightarrow> nat \<Rightarrow> nat \<Rightarrow> bool" where
  "ws3 a b c \<longleftrightarrow>
     a = 0xE1 \<and> b = 0x9A \<and> c = 0x80 \<or>
     a = 0xE2 \<and> b = 0x80 \<and> (0x80 \<le> c \<and> c \<le> 0x8A \<or> c = 0xA8 \<or> c = 0xA9 \<or> c = 0xAF) \<or>
     a = 0xE2 \<and> b = 0x81 \<and> c = 0x9F \<or>
     a = 0xE3 \<and> b = 0x80 \<and> c = 0x80"

definition ws_head :: "string \<Rightarrow> nat" where
  "ws_head s =
     (case map of_char s of
        [] \<Rightarrow> 0
      | a # r \<Rightarrow> if ascii_ws a then 1
         else (case r of
            [] \<Rightarrow> 0
          | b # q \<Rightarrow> if ws2 a b then 2
             else (case q of [] \<Rightarrow> 0 | c # _ \<Rightarrow> if ws3 a b c then 3 else 0)))"

definition ws_last :: "string \<Rightarrow> nat" where
  "ws_last s =
     (case map of_char s of
        [] \<Rightarrow> 0
      | a # r \<Rightarrow> if ascii_ws a then 1
         else (case r of
            [] \<Rightarrow> 0
          | b # q \<Rightarrow> if ws2 b a then 2
             else (case q of [] \<Rightarrow> 0 | c # _ \<Rightarrow> if ws3 c b a then 3 else 0)))"

function drop_ws :: "(string \<Rightarrow> nat) \<Rightarrow> string \<Rightarrow> string" where
  "drop_ws w s = (if s = [] \<or> w s = 0 then s else drop_ws w (drop (w s) s))"
  by pat_completeness auto
termination
  by (relation "measure (\<lambda>(w, s). length s)") auto

declare drop_ws.simps [simp del]

definition trim :: "string \<Rightarrow> string" where
  "trim s = rev (drop_ws ws_last (rev (drop_ws ws_head s)))"

lemma drop_ws_0: "s = [] \<or> w s = 0 \<Longrightarrow> drop_ws w s = s"
  by (subst drop_ws.simps) simp

lemma drop_ws_stops: "drop_ws w s = [] \<or> w (drop_ws w s) = 0"
proof (induction w s rule: drop_ws.induct)
  case (1 w s)
  then show ?case
    by (cases "s = [] \<or> w s = 0") (simp_all add: drop_ws_0 drop_ws.simps [of w s])
qed

lemma trim_Nil [simp]: "trim [] = []"
  by (simp add: trim_def drop_ws_0)

section \<open>Integers as text\<close>

text \<open>The decimal output of an unsigned integer (\<open>format!("{}", n)\<close>) and of an \<open>i64\<close>.\<close>

definition digit_char :: "nat \<Rightarrow> char" where
  "digit_char d = char_of (48 + d)"

fun show_nat :: "nat \<Rightarrow> string" where
  "show_nat n = (if n < 10 then [digit_char n] else show_nat (n div 10) @ [digit_char (n mod 10)])"

declare show_nat.simps [simp del]

definition show_int :: "int \<Rightarrow> string" where
  "show_int i = (if i < 0 then ''-'' @ show_nat (nat (- i)) else show_nat (nat i))"

definition show_u32 :: "u32 \<Rightarrow> string" where
  "show_u32 w = show_nat (unat w)"

text \<open>\<open>u64::from_str\<close>: an optional plus sign, then at least one digit, without overflow.\<close>

definition digit_val :: "char \<Rightarrow> nat option" where
  "digit_val c = (let n = of_char c in if 48 \<le> n \<and> n \<le> 57 then Some (n - 48) else None)"

fun digits_val :: "nat \<Rightarrow> string \<Rightarrow> nat option" where
  "digits_val acc [] = Some acc"
| "digits_val acc (c # cs) =
     (case digit_val c of None \<Rightarrow> None | Some d \<Rightarrow> digits_val (10 * acc + d) cs)"

definition parse_u64 :: "string \<Rightarrow> u64 option" where
  "parse_u64 s =
     (let ds = (case s of c # r \<Rightarrow> if c = CHR ''+'' then r else s | [] \<Rightarrow> s)
      in if ds = [] then None
         else case digits_val 0 ds of
                None \<Rightarrow> None
              | Some n \<Rightarrow> if n < 2 ^ 64 then Some (word_of_nat n) else None)"

lemma digit_val_digit_char [simp]: "d < 10 \<Longrightarrow> digit_val (digit_char d) = Some d"
  by (simp add: digit_val_def digit_char_def)

lemma digits_val_append:
  "digits_val acc (xs @ ys) =
     (case digits_val acc xs of None \<Rightarrow> None | Some a \<Rightarrow> digits_val a ys)"
  by (induction xs arbitrary: acc) (auto split: option.splits)

lemma digits_val_show_nat: "digits_val 0 (show_nat n) = Some n"
proof (induction n rule: show_nat.induct)
  case (1 n)
  then show ?case
    by (cases "n < 10") (simp_all add: show_nat.simps [of n] digits_val_append)
qed

lemma show_nat_inject [simp]: "show_nat m = show_nat n \<longleftrightarrow> m = n"
  by (metis digits_val_show_nat option.inject)

lemma show_u32_inject [simp]: "show_u32 v = show_u32 w \<longleftrightarrow> v = w"
  by (simp add: show_u32_def word_unat_eq_iff)

lemma show_nat_Cons: "\<exists>c r. show_nat n = c # r \<and> digit_val c \<noteq> None"
proof (induction n rule: show_nat.induct)
  case (1 n)
  then show ?case
    by (cases "n < 10") (auto simp: show_nat.simps [of n])
qed

lemma parse_u64_show_nat:
  "parse_u64 (show_nat n) = (if n < 2 ^ 64 then Some (word_of_nat n) else None)"
proof -
  obtain c r where cr: "show_nat n = c # r" "digit_val c \<noteq> None"
    using show_nat_Cons by blast
  then have "c \<noteq> CHR ''+''"
    by (auto simp: digit_val_def Let_def)
  with cr(1) digits_val_show_nat [of n] show ?thesis
    by (simp add: parse_u64_def)
qed

end
