(* ===== verification/Models.thy ===== *)
theory Models
  imports Rust_Std
begin

text \<open>
  The data of \<open>src/models.rs\<close> and \<open>src/state.rs\<close>: JSON values as serde\_json has them, the
  client configuration, the messages of the client protocol, the request and response
  bodies of the web API, the outcome types of the code (\<open>anyhow::Error\<close>, HTTP status codes),
  and the record \<open>host\<close> of everything the program takes from third-party crates and from its
  process environment.
\<close>

section \<open>JSON values\<close>

text \<open>
  \<open>serde_json::Value\<close>. A number is a \<open>u64\<close>, a negative \<open>i64\<close> or a float; floats are kept as
  their text. The entries of an object have distinct keys.
\<close>

datatype json =
    JNull
  | JBool bool
  | JPos u64
  | JNeg i64
  | JFloat string
  | JStr string
  | JArr "json list"
  | JObj "(string \<times> json) list"

fun json_get :: "string \<Rightarrow> json \<Rightarrow> json option" where
  "json_get k (JObj es) = map_of es k"
| "json_get k _ = None"

fun as_u64 :: "json \<Rightarrow> u64 option" where
  "as_u64 (JPos w) = Some w"
| "as_u64 _ = None"

fun as_i64 :: "json \<Rightarrow> i64 option" where
  "as_i64 (JPos w) = (if uint w < 2 ^ 63 then Some (uint w) else None)"
| "as_i64 (JNeg v) = Some v"
| "as_i64 _ = None"

fun as_str :: "json \<Rightarrow> string option" where
  "as_str (JStr s) = Some s"
| "as_str _ = None"

fun as_object :: "json \<Rightarrow> (string \<times> json) list option" where
  "as_object (JObj es) = Some es"
| "as_object _ = None"

text \<open>\<open>serde_json::Value::from\<close> of an \<open>i64\<close> and of an optional string.\<close>

definition json_of_i64 :: "i64 \<Rightarrow> json" where
  "json_of_i64 v = (if 0 \<le> v then JPos (word_of_int v) else JNeg v)"

definition json_of_opt :: "string option \<Rightarrow> json" where
  "json_of_opt x = (case x of None \<Rightarrow> JNull | Some s \<Rightarrow> JStr s)"

lemma as_i64_json_of_i64: "is_i64 v \<Longrightarrow> as_i64 (json_of_i64 v) = Some v"
  by (simp add: json_of_i64_def is_i64_def uint_word_of_int mod_pos_pos_trivial)

section \<open>The client configuration\<close>

record vnt_client_config =
  vc_tap :: bool
  vc_token :: string
  vc_device_id :: string
  vc_name :: string
  vc_server_address :: string
  vc_stun_server :: "string list"
  vc_dns :: "string list"
  vc_in_ips :: "string list"
  vc_out_ips :: "string list"
  vc_password :: "string option"
  vc_mtu :: "u32 option"
  vc_tcp :: bool
  vc_ip :: "string option"
  vc_use_channel :: string
  vc_no_proxy :: bool
  vc_server_encrypt :: bool
  vc_cipher_model :: "string option"
  vc_finger :: bool
  vc_punch_model :: string
  vc_ports :: "u16 list option"
  vc_cmd :: bool
  vc_first_latency :: bool
  vc_device_name :: "string option"
  vc_packet_loss :: "u64 option" \<comment> \<open>an \<open>f64\<close>, as its bits\<close>
  vc_packet_delay :: u32
  vc_mapping :: "string list"
  vc_compressor :: "string option"
  vc_vnt_mapping :: "string list"
  vc_disable_stats :: bool
  vc_allow_wire_guard :: bool
  vc_local_dev :: "string option"
  vc_disable_relay :: bool
  vc_hook :: "string option"

definition default_config :: vnt_client_config where
  "default_config = \<lparr>
     vc_tap = False,
     vc_token = [],
     vc_device_id = [],
     vc_name = [],
     vc_server_address = ''vnt.wherewego.top:29872'',
     vc_stun_server =
       [''stun.miwifi.com:3478'', ''stun.chat.bilibili.com:3478'',
        ''stun.hitv.com:3478'', ''stun.cdnbye.com:3478''],
     vc_dns = [], vc_in_ips = [], vc_out_ips = [],
     vc_password = None, vc_mtu = None, vc_tcp = False, vc_ip = None,
     vc_use_channel = ''all'',
     vc_no_proxy = False, vc_server_encrypt = False, vc_cipher_model = None, vc_finger = False,
     vc_punch_model = ''all'',
     vc_ports = None, vc_cmd = False, vc_first_latency = False, vc_device_name = None,
     vc_packet_loss = None, vc_packet_delay = 0, vc_mapping = [], vc_compressor = None,
     vc_vnt_mapping = [], vc_disable_stats = False, vc_allow_wire_guard = False,
     vc_local_dev = None, vc_disable_relay = False, vc_hook = None \<rparr>"

section \<open>The messages of the client protocol\<close>

datatype client_message =
    Hello (hello_room: string) (hello_device: "string option") (hello_token: "string option")
      (hello_name: string) (hello_protocol: u32) (hello_version: "string option")
  | ConfigState u32 "string option" "string option" vnt_client_config bool
  | EventReport string json u64
  | ConfigAck u32
  | Heartbeat u64
  | Disconnect u64
  | TrafficStats u64 u64 u64

datatype server_message =
    HelloAck string "string option" string string
  | ConfigPush u32 string string
  | Kick string
  | ServerHeartbeat u64

section \<open>Request and response bodies\<close>

record login_request =
  lr_username :: string
  lr_password :: string

record change_password_request =
  cp_old_password :: string
  cp_new_password :: string

record update_device_request =
  ud_display_name :: "string option"
  ud_group_id :: "string option"
  ud_network_ip :: "string option"
  ud_network_node_id :: "string option"

record update_group_request =
  ug_name :: "string option"
  ug_config :: "vnt_client_config option"

record room =
  rm_id :: string
  rm_name :: string
  rm_owner_id :: string
  rm_created_at :: i64

record group =
  grp_id :: string
  grp_room_id :: string
  grp_name :: string
  grp_config_version :: i64
  grp_created_at :: i64
  grp_updated_at :: i64
  grp_config :: "vnt_client_config option"

record device =
  dev_id :: string
  dev_room_id :: string
  dev_group_id :: "string option"
  dev_display_name :: string
  dev_client_version :: "string option"
  dev_console_public_ip :: "string option"
  dev_network_ip :: "string option"
  dev_network_node_id :: "string option"
  dev_last_seen :: "i64 option"
  dev_status :: string
  dev_vnts_status :: "string option"
  dev_vnts_error :: "string option"
  dev_vnts_updated_at :: "i64 option"
  dev_config_version :: i64
  dev_up_stream :: i64
  dev_down_stream :: i64
  dev_traffic_updated_at :: "i64 option"
  dev_created_at :: i64

record event_item =
  ei_id :: string
  ei_device_id :: string
  ei_event_type :: string
  ei_payload :: "string option"
  ei_created_at :: i64

record backup_data =
  bd_users :: "json list"
  bd_rooms :: "json list"
  bd_groups :: "json list"
  bd_devices :: "json list"
  bd_events :: "json list"
  bd_config_pushes :: "json list"
  bd_system_config :: "json list"

record backup_envelope =
  be_format_version :: u32
  be_exported_at :: i64
  be_source_mode :: string
  be_scope :: string
  be_data :: backup_data

record backup_table_report =
  tr_table :: string
  tr_attempted :: nat
  tr_imported :: nat
  tr_skipped :: nat

record backup_import_report =
  ir_ok :: bool
  ir_mode :: string
  ir_source_mode :: string
  ir_scope :: string
  ir_tables :: "backup_table_report list"

section \<open>Users, claims and errors\<close>

record claims =
  cl_sub :: string
  cl_username :: string
  cl_role :: string
  cl_exp :: u64

record auth_user =
  au_id :: string
  au_username :: string
  au_role :: string

text \<open>
  \<open>SqlError\<close> is an error of a statement (a constraint it violates), \<open>Bail\<close> an error the code
  itself returns, \<open>LibError\<close> one that a crate returns; \<open>Panic\<close> is the panic of \<open>row.get\<close> on a column
  that holds a value of another type. \<open>OutsideModel\<close> stands for a backup row whose storage by SQLite
  is not modelled (a NULL primary key, a text in an INTEGER column that is \<open>NOT NULL\<close> or looks like a
  number); an export holds no such row.
\<close>

datatype sql_error = UniqueViolation | NotNullViolation | ForeignKeyViolation

datatype error = SqlError sql_error | Bail string | LibError string | Panic | OutsideModel

datatype status_code =
    BAD_REQUEST
  | UNAUTHORIZED
  | FORBIDDEN
  | NOT_FOUND
  | CONFLICT
  | TOO_MANY_REQUESTS
  | INTERNAL_SERVER_ERROR
  | NO_RESPONSE

text \<open>The numeric code of a status, and its order. \<open>NO_RESPONSE\<close> is no status of the protocol: the
  handler panicked, and the server closes the connection without an answer.\<close>

fun status_number :: "status_code \<Rightarrow> nat" where
  "status_number BAD_REQUEST = 400"
| "status_number UNAUTHORIZED = 401"
| "status_number FORBIDDEN = 403"
| "status_number NOT_FOUND = 404"
| "status_number CONFLICT = 409"
| "status_number TOO_MANY_REQUESTS = 429"
| "status_number INTERNAL_SERVER_ERROR = 500"
| "status_number NO_RESPONSE = 0"

lemma status_number_inject: "status_number a = status_number b \<Longrightarrow> a = b"
  by (cases a; cases b) simp_all

instantiation status_code :: linorder
begin

definition less_eq_status_code :: "status_code \<Rightarrow> status_code \<Rightarrow> bool" where
  "less_eq_status_code a b \<longleftrightarrow> status_number a \<le> status_number b"

definition less_status_code :: "status_code \<Rightarrow> status_code \<Rightarrow> bool" where
  "less_status_code a b \<longleftrightarrow> status_number a < status_number b"

instance
  by standard (auto simp: less_eq_status_code_def less_status_code_def intro: status_number_inject)

end

definition is_client_error :: "status_code \<Rightarrow> bool" where
  "is_client_error s \<longleftrightarrow> s < INTERNAL_SERVER_ERROR"

section \<open>The host: crates and process environment\<close>

text \<open>
  Functions of crates that are not part of the repository: SHA-256 (sha2), ChaCha20-Poly1305
  (chacha20poly1305), the base64 engines STANDARD, STANDARD\_NO\_PAD and URL\_SAFE\_NO\_PAD
  (base64), hexadecimal (hex), Argon2 and the PHC string parser (argon2), serde\_json on the
  types that are serialised; and the two environment variables the code reads.
\<close>

record host =
  h_sha256 :: "bytes \<Rightarrow> bytes"
  h_seal :: "bytes \<Rightarrow> bytes \<Rightarrow> bytes \<Rightarrow> bytes option" \<comment> \<open>key, nonce, plaintext\<close>
  h_open :: "bytes \<Rightarrow> bytes \<Rightarrow> bytes \<Rightarrow> bytes option" \<comment> \<open>key, nonce, ciphertext\<close>
  h_b64 :: "bytes \<Rightarrow> string"
  h_unb64 :: "string \<Rightarrow> bytes option"
  h_b64_nopad :: "bytes \<Rightarrow> string"
  h_b64url :: "bytes \<Rightarrow> string"
  h_unb64url :: "string \<Rightarrow> bytes option"
  h_hex :: "bytes \<Rightarrow> string"
  h_argon2_hash :: "string \<Rightarrow> string \<Rightarrow> string option" \<comment> \<open>salt, password\<close>
  h_phc_parse :: "string \<Rightarrow> string option"
  h_argon2_verify :: "string \<Rightarrow> string \<Rightarrow> bool" \<comment> \<open>password, parsed hash\<close>
  h_config_json :: "vnt_client_config \<Rightarrow> string option"
  h_config_of_json :: "string \<Rightarrow> vnt_client_config option"
  h_config_value :: "vnt_client_config \<Rightarrow> json"
  h_json_text :: "json \<Rightarrow> string"
  h_json_of_bytes :: "bytes \<Rightarrow> json option"
  h_claims_json :: "claims \<Rightarrow> bytes option"
  h_claims_of_json :: "bytes \<Rightarrow> claims option"
  h_client_message :: "string \<Rightarrow> client_message option"
  h_console_master_key :: "string option"
  h_jwt_secret_var :: "string option"

text \<open>Where the code uses \<open>?\<close> on a value a crate returns.\<close>

definition lib :: "string \<Rightarrow> 'a option \<Rightarrow> error + 'a" where
  "lib what x = ok_or (LibError what) x"

lemma lib_simps [simp]: "lib w (Some x) = Inr x" "lib w None = Inl (LibError w)"
  by (simp_all add: lib_def)

lemma lib_Inr [simp]: "lib w x = Inr v \<longleftrightarrow> x = Some v"
  by (simp add: lib_def)

end
