(* ===== verification/Schema.thy ===== *)
theory Schema
  imports Sql_Table Models
begin

text \<open>
  The tables of \<open>SCHEMA\<close> in \<open>src/db.rs\<close>: one record per kind of row, the database as the record
  of its tables, the statements that write it with the constraints SQLite checks (primary keys,
  \<open>UNIQUE\<close>, foreign keys), and the invariant \<open>db_ok\<close> that the constraints maintain. Foreign keys
  are enforced where the connection enables them (\<open>db_foreign_keys\<close>, which sqlx does by
  default).
\<close>

section \<open>Rows and tables\<close>

text \<open>
  A value of SQLite. A nullable INTEGER column of the table of devices may hold any: a text that is
  bound to it and does not look like a number stays a text.
\<close>

datatype sql_value = SNull | SInt i64 | SText string

record user_row =
  us_id :: string
  us_username :: string
  us_password :: string
  us_role :: string
  us_created_at :: i64

record group_row =
  gr_id :: string
  gr_room_id :: string
  gr_name :: string
  gr_encrypted_token :: "string option"
  gr_encrypted_server :: "string option"
  gr_encrypted_password :: "string option"
  gr_extra_config :: "string option"
  gr_config_version :: i64
  gr_created_at :: i64
  gr_updated_at :: i64

record device_row =
  dv_id :: string
  dv_room_id :: string
  dv_group_id :: "string option"
  dv_display_name :: string
  dv_client_version :: "string option"
  dv_console_public_ip :: "string option"
  dv_network_ip :: "string option"
  dv_network_node_id :: "string option"
  dv_device_token :: string
  dv_last_seen :: sql_value
  dv_status :: string
  dv_vnts_status :: "string option"
  dv_vnts_error :: "string option"
  dv_vnts_updated_at :: sql_value
  dv_config_version :: i64
  dv_up_stream :: sql_value
  dv_down_stream :: sql_value
  dv_traffic_updated_at :: sql_value
  dv_created_at :: i64

record push_row =
  pu_id :: string
  pu_device_id :: string
  pu_group_id :: "string option"
  pu_config_snapshot :: string
  pu_pushed_at :: i64
  pu_acked :: i64

record session_row =
  ss_token :: string
  ss_user_id :: string
  ss_created_at :: i64
  ss_expires_at :: i64

record system_row =
  sy_key :: string
  sy_value :: string
  sy_updated_at :: i64

text \<open>The rows of \<open>rooms\<close> and \<open>events\<close> have the columns of the structs \<open>Room\<close> and \<open>EventItem\<close>.\<close>

record database =
  db_users :: "user_row list"
  db_rooms :: "room list"
  db_groups :: "group_row list"
  db_devices :: "device_row list"
  db_events :: "event_item list"
  db_pushes :: "push_row list"
  db_sessions :: "session_row list"
  db_system :: "system_row list"
  db_foreign_keys :: bool

definition empty_database :: database where
  "empty_database = \<lparr> db_users = [], db_rooms = [], db_groups = [], db_devices = [],
     db_events = [], db_pushes = [], db_sessions = [], db_system = [], db_foreign_keys = True \<rparr>"

type_synonym 'a db_op = "(database, error, 'a) comp"

abbreviation user_ids :: "database \<Rightarrow> string set" where
  "user_ids d \<equiv> us_id ` set (db_users d)"

abbreviation room_ids :: "database \<Rightarrow> string set" where
  "room_ids d \<equiv> rm_id ` set (db_rooms d)"

abbreviation group_ids :: "database \<Rightarrow> string set" where
  "group_ids d \<equiv> gr_id ` set (db_groups d)"

abbreviation device_ids :: "database \<Rightarrow> string set" where
  "device_ids d \<equiv> dv_id ` set (db_devices d)"

section \<open>Statements\<close>

text \<open>A reference that a foreign key of the connection forbids.\<close>

definition dangling :: "database \<Rightarrow> string set \<Rightarrow> string \<Rightarrow> bool" where
  "dangling d ids k \<longleftrightarrow> db_foreign_keys d \<and> k \<notin> ids"

definition dangling_opt :: "database \<Rightarrow> string set \<Rightarrow> string option \<Rightarrow> bool" where
  "dangling_opt d ids k \<longleftrightarrow> (case k of None \<Rightarrow> False | Some x \<Rightarrow> dangling d ids x)"

abbreviation unique_violation :: "'a db_op" where
  "unique_violation \<equiv> fail (SqlError UniqueViolation)"

abbreviation fk_violation :: "'a db_op" where
  "fk_violation \<equiv> fail (SqlError ForeignKeyViolation)"

definition insert_user :: "user_row \<Rightarrow> unit db_op" where
  "insert_user u d =
     (if us_id u \<in> user_ids d \<or> us_username u \<in> us_username ` set (db_users d)
      then unique_violation d
      else (Inr (), d\<lparr>db_users := db_users d @ [u]\<rparr>))"

definition insert_room :: "room \<Rightarrow> unit db_op" where
  "insert_room r d =
     (if rm_id r \<in> room_ids d then unique_violation d
      else if dangling d (user_ids d) (rm_owner_id r) then fk_violation d
      else (Inr (), d\<lparr>db_rooms := db_rooms d @ [r]\<rparr>))"

definition insert_group :: "group_row \<Rightarrow> unit db_op" where
  "insert_group g d =
     (if gr_id g \<in> group_ids d then unique_violation d
      else if dangling d (room_ids d) (gr_room_id g) then fk_violation d
      else (Inr (), d\<lparr>db_groups := db_groups d @ [g]\<rparr>))"

definition insert_device :: "device_row \<Rightarrow> unit db_op" where
  "insert_device r d =
     (if dv_id r \<in> device_ids d then unique_violation d
      else if dangling d (room_ids d) (dv_room_id r) \<or> dangling_opt d (group_ids d) (dv_group_id r)
      then fk_violation d
      else (Inr (), d\<lparr>db_devices := db_devices d @ [r]\<rparr>))"

definition insert_event :: "event_item \<Rightarrow> unit db_op" where
  "insert_event e d =
     (if ei_id e \<in> ei_id ` set (db_events d) then unique_violation d
      else if dangling d (device_ids d) (ei_device_id e) then fk_violation d
      else (Inr (), d\<lparr>db_events := db_events d @ [e]\<rparr>))"

definition insert_push :: "push_row \<Rightarrow> unit db_op" where
  "insert_push p d =
     (if pu_id p \<in> pu_id ` set (db_pushes d) then unique_violation d
      else if dangling d (device_ids d) (pu_device_id p) then fk_violation d
      else (Inr (), d\<lparr>db_pushes := db_pushes d @ [p]\<rparr>))"

text \<open>
  \<open>UPDATE\<close> returns the number of rows it matched. \<open>update_devices_group\<close> is the form that sets
  the column \<open>group_id\<close>, whose new values are checked.
\<close>

definition update_users :: "(user_row \<Rightarrow> bool) \<Rightarrow> (user_row \<Rightarrow> user_row) \<Rightarrow> nat db_op" where
  "update_users P f d =
     (Inr (count_where P (db_users d)), d\<lparr>db_users := update_where P f (db_users d)\<rparr>)"

definition update_groups :: "(group_row \<Rightarrow> bool) \<Rightarrow> (group_row \<Rightarrow> group_row) \<Rightarrow> nat db_op" where
  "update_groups P f d =
     (Inr (count_where P (db_groups d)), d\<lparr>db_groups := update_where P f (db_groups d)\<rparr>)"

definition update_devices :: "(device_row \<Rightarrow> bool) \<Rightarrow> (device_row \<Rightarrow> device_row) \<Rightarrow> nat db_op" where
  "update_devices P f d =
     (Inr (count_where P (db_devices d)), d\<lparr>db_devices := update_where P f (db_devices d)\<rparr>)"

definition update_devices_group ::
    "(device_row \<Rightarrow> bool) \<Rightarrow> (device_row \<Rightarrow> device_row) \<Rightarrow> nat db_op" where
  "update_devices_group P f d =
     (if \<exists>r \<in> set (select_where P (db_devices d)). dangling_opt d (group_ids d) (dv_group_id (f r))
      then fk_violation d
      else update_devices P f d)"

definition update_pushes :: "(push_row \<Rightarrow> bool) \<Rightarrow> (push_row \<Rightarrow> push_row) \<Rightarrow> nat db_op" where
  "update_pushes P f d =
     (Inr (count_where P (db_pushes d)), d\<lparr>db_pushes := update_where P f (db_pushes d)\<rparr>)"

text \<open>\<open>DELETE\<close> of a row that another row refers to fails.\<close>

definition delete_users :: "(user_row \<Rightarrow> bool) \<Rightarrow> unit db_op" where
  "delete_users P d =
     (let dels = us_id ` set (select_where P (db_users d)) in
      if db_foreign_keys d \<and>
         ((\<exists>r \<in> set (db_rooms d). rm_owner_id r \<in> dels) \<or>
          (\<exists>s \<in> set (db_sessions d). ss_user_id s \<in> dels))
      then fk_violation d
      else (Inr (), d\<lparr>db_users := delete_where P (db_users d)\<rparr>))"

definition delete_rooms :: "(room \<Rightarrow> bool) \<Rightarrow> unit db_op" where
  "delete_rooms P d =
     (let dels = rm_id ` set (select_where P (db_rooms d)) in
      if db_foreign_keys d \<and>
         ((\<exists>g \<in> set (db_groups d). gr_room_id g \<in> dels) \<or>
          (\<exists>r \<in> set (db_devices d). dv_room_id r \<in> dels))
      then fk_violation d
      else (Inr (), d\<lparr>db_rooms := delete_where P (db_rooms d)\<rparr>))"

definition delete_groups :: "(group_row \<Rightarrow> bool) \<Rightarrow> unit db_op" where
  "delete_groups P d =
     (let dels = gr_id ` set (select_where P (db_groups d)) in
      if db_foreign_keys d \<and> (\<exists>r \<in> set (db_devices d). \<exists>k \<in> dels. dv_group_id r = Some k)
      then fk_violation d
      else (Inr (), d\<lparr>db_groups := delete_where P (db_groups d)\<rparr>))"

definition delete_devices :: "(device_row \<Rightarrow> bool) \<Rightarrow> unit db_op" where
  "delete_devices P d =
     (let dels = dv_id ` set (select_where P (db_devices d)) in
      if db_foreign_keys d \<and>
         ((\<exists>e \<in> set (db_events d). ei_device_id e \<in> dels) \<or>
          (\<exists>p \<in> set (db_pushes d). pu_device_id p \<in> dels))
      then fk_violation d
      else (Inr (), d\<lparr>db_devices := delete_where P (db_devices d)\<rparr>))"

definition delete_events :: "(event_item \<Rightarrow> bool) \<Rightarrow> unit db_op" where
  "delete_events P d = (Inr (), d\<lparr>db_events := delete_where P (db_events d)\<rparr>)"

definition delete_pushes :: "(push_row \<Rightarrow> bool) \<Rightarrow> unit db_op" where
  "delete_pushes P d = (Inr (), d\<lparr>db_pushes := delete_where P (db_pushes d)\<rparr>)"

definition delete_sessions :: "(session_row \<Rightarrow> bool) \<Rightarrow> unit db_op" where
  "delete_sessions P d = (Inr (), d\<lparr>db_sessions := delete_where P (db_sessions d)\<rparr>)"

definition delete_system :: "(system_row \<Rightarrow> bool) \<Rightarrow> unit db_op" where
  "delete_system P d = (Inr (), d\<lparr>db_system := delete_where P (db_system d)\<rparr>)"

section \<open>The invariant of the constraints\<close>

definition keys_ok :: "database \<Rightarrow> bool" where
  "keys_ok d \<longleftrightarrow>
     distinct (map us_id (db_users d)) \<and> distinct (map us_username (db_users d)) \<and>
     distinct (map rm_id (db_rooms d)) \<and> distinct (map gr_id (db_groups d)) \<and>
     distinct (map dv_id (db_devices d)) \<and> distinct (map ei_id (db_events d)) \<and>
     distinct (map pu_id (db_pushes d)) \<and> distinct (map ss_token (db_sessions d)) \<and>
     distinct (map sy_key (db_system d))"

definition fk_ok :: "database \<Rightarrow> bool" where
  "fk_ok d \<longleftrightarrow>
     (\<forall>r \<in> set (db_rooms d). rm_owner_id r \<in> user_ids d) \<and>
     (\<forall>g \<in> set (db_groups d). gr_room_id g \<in> room_ids d) \<and>
     (\<forall>r \<in> set (db_devices d). dv_room_id r \<in> room_ids d) \<and>
     (\<forall>r \<in> set (db_devices d). \<forall>k. dv_group_id r = Some k \<longrightarrow> k \<in> group_ids d) \<and>
     (\<forall>e \<in> set (db_events d). ei_device_id e \<in> device_ids d) \<and>
     (\<forall>p \<in> set (db_pushes d). pu_device_id p \<in> device_ids d) \<and>
     (\<forall>s \<in> set (db_sessions d). ss_user_id s \<in> user_ids d)"

definition db_ok :: "database \<Rightarrow> bool" where
  "db_ok d \<longleftrightarrow> keys_ok d \<and> (db_foreign_keys d \<longrightarrow> fk_ok d)"

lemma db_ok_empty: "db_ok empty_database"
  by (simp add: db_ok_def keys_ok_def fk_ok_def empty_database_def)

text \<open>Every table of the schema provides the interface of a keyed table.\<close>

interpretation users_t: sql_table db_users "\<lambda>t d. d\<lparr>db_users := t\<rparr>" us_id db_ok
  by unfold_locales (simp_all add: db_ok_def keys_ok_def)

interpretation rooms_t: sql_table db_rooms "\<lambda>t d. d\<lparr>db_rooms := t\<rparr>" rm_id db_ok
  by unfold_locales (simp_all add: db_ok_def keys_ok_def)

interpretation groups_t: sql_table db_groups "\<lambda>t d. d\<lparr>db_groups := t\<rparr>" gr_id db_ok
  by unfold_locales (simp_all add: db_ok_def keys_ok_def)

interpretation devices_t: sql_table db_devices "\<lambda>t d. d\<lparr>db_devices := t\<rparr>" dv_id db_ok
  by unfold_locales (simp_all add: db_ok_def keys_ok_def)

interpretation events_t: sql_table db_events "\<lambda>t d. d\<lparr>db_events := t\<rparr>" ei_id db_ok
  by unfold_locales (simp_all add: db_ok_def keys_ok_def)

interpretation pushes_t: sql_table db_pushes "\<lambda>t d. d\<lparr>db_pushes := t\<rparr>" pu_id db_ok
  by unfold_locales (simp_all add: db_ok_def keys_ok_def)

interpretation sessions_t: sql_table db_sessions "\<lambda>t d. d\<lparr>db_sessions := t\<rparr>" ss_token db_ok
  by unfold_locales (simp_all add: db_ok_def keys_ok_def)

interpretation system_t: sql_table db_system "\<lambda>t d. d\<lparr>db_system := t\<rparr>" sy_key db_ok
  by unfold_locales (simp_all add: db_ok_def keys_ok_def)

section \<open>Every statement maintains the constraints\<close>

lemmas db_ok_defs = db_ok_def keys_ok_def fk_ok_def

lemma insert_user_ok [keeps_intro]: "keeps db_ok (insert_user u)"
  by (rule keepsI) (auto simp: insert_user_def db_ok_defs)

lemma insert_room_ok [keeps_intro]: "keeps db_ok (insert_room r)"
  by (rule keepsI) (auto simp: insert_room_def db_ok_defs dangling_def)

lemma insert_group_ok [keeps_intro]: "keeps db_ok (insert_group g)"
  by (rule keepsI) (auto simp: insert_group_def db_ok_defs dangling_def)

lemma insert_device_ok [keeps_intro]: "keeps db_ok (insert_device r)"
  by (rule keepsI)
    (auto simp: insert_device_def db_ok_defs dangling_def dangling_opt_def split: option.splits)

lemma insert_event_ok [keeps_intro]: "keeps db_ok (insert_event e)"
  by (rule keepsI) (auto simp: insert_event_def db_ok_defs dangling_def)

lemma insert_push_ok [keeps_intro]: "keeps db_ok (insert_push p)"
  by (rule keepsI) (auto simp: insert_push_def db_ok_defs dangling_def)

lemma update_users_ok:
  assumes "\<And>r. us_id (f r) = us_id r" "\<And>r. us_username (f r) = us_username r"
  shows "keeps db_ok (update_users P f)"
  by (rule keepsI)
    (simp add: update_users_def db_ok_defs map_key_update_where image_key_update_where assms)

lemma update_groups_ok:
  assumes "\<And>r. gr_id (f r) = gr_id r" "\<And>r. gr_room_id (f r) = gr_room_id r"
  shows "keeps db_ok (update_groups P f)"
  by (rule keepsI)
    (auto simp: update_groups_def db_ok_defs map_key_update_where image_key_update_where
       ball_update_where assms)

lemma update_devices_ok:
  assumes "\<And>r. dv_id (f r) = dv_id r" "\<And>r. dv_room_id (f r) = dv_room_id r"
    and "\<And>r. dv_group_id (f r) = dv_group_id r"
  shows "keeps db_ok (update_devices P f)"
  by (rule keepsI)
    (auto simp: update_devices_def db_ok_defs map_key_update_where image_key_update_where
       ball_update_where assms)

lemma update_devices_group_ok:
  assumes "\<And>r. dv_id (f r) = dv_id r" "\<And>r. dv_room_id (f r) = dv_room_id r"
  shows "keeps db_ok (update_devices_group P f)"
proof (rule keepsI)
  fix d assume ok: "db_ok d"
  show "db_ok (snd (update_devices_group P f d))"
  proof (cases "\<exists>r \<in> set (select_where P (db_devices d)).
      dangling_opt d (group_ids d) (dv_group_id (f r))")
    case True
    then show ?thesis using ok by (simp add: update_devices_group_def)
  next
    case False
    then have "db_foreign_keys d \<Longrightarrow> r \<in> set (db_devices d) \<Longrightarrow> P r \<Longrightarrow>
        dv_group_id (f r) = Some k \<Longrightarrow> k \<in> group_ids d" for r k
      by (auto simp: dangling_opt_def dangling_def split: option.splits)
    with False ok show ?thesis
      by (auto simp: update_devices_group_def update_devices_def db_ok_defs map_key_update_where
          image_key_update_where ball_update_where assms split: if_splits)
  qed
qed

lemma update_pushes_ok:
  assumes "\<And>r. pu_id (f r) = pu_id r" "\<And>r. pu_device_id (f r) = pu_device_id r"
  shows "keeps db_ok (update_pushes P f)"
  by (rule keepsI)
    (auto simp: update_pushes_def db_ok_defs map_key_update_where ball_update_where assms)

lemmas update_ok [keeps_intro] =
  update_users_ok update_groups_ok update_devices_ok update_devices_group_ok update_pushes_ok

lemma delete_users_ok [keeps_intro]: "keeps db_ok (delete_users P)"
  by (rule keepsI)
    (auto simp: delete_users_def db_ok_defs distinct_map_delete_where Let_def
      intro!: key_not_deleted)

lemma delete_rooms_ok [keeps_intro]: "keeps db_ok (delete_rooms P)"
  by (rule keepsI)
    (auto simp: delete_rooms_def db_ok_defs distinct_map_delete_where Let_def
      intro!: key_not_deleted)

lemma delete_groups_ok [keeps_intro]: "keeps db_ok (delete_groups P)"
  by (rule keepsI)
    (auto simp: delete_groups_def db_ok_defs distinct_map_delete_where Let_def
      intro!: key_not_deleted)

lemma delete_devices_ok [keeps_intro]: "keeps db_ok (delete_devices P)"
  by (rule keepsI)
    (auto simp: delete_devices_def db_ok_defs distinct_map_delete_where Let_def
      intro!: key_not_deleted)

lemma delete_leaf_ok [keeps_intro]:
  "keeps db_ok (delete_events E)" "keeps db_ok (delete_pushes Q)"
  "keeps db_ok (delete_sessions S)" "keeps db_ok (delete_system Y)"
  by (auto intro!: keepsI simp: delete_events_def delete_pushes_def delete_sessions_def
      delete_system_def db_ok_defs distinct_map_delete_where)

section \<open>Frames\<close>

text \<open>A statement on one table keeps every property of the others; a property of all rows of a
  table is kept by an update that keeps it row by row, and by every deletion.\<close>

named_theorems frame_intro "statements that keep a property of the rows of another table"

lemma keeps_devices_frame [frame_intro]:
  "keeps (\<lambda>d. A (db_devices d)) (insert_user u)" "keeps (\<lambda>d. A (db_devices d)) (insert_room r)"
  "keeps (\<lambda>d. A (db_devices d)) (insert_group g)" "keeps (\<lambda>d. A (db_devices d)) (insert_event e)"
  "keeps (\<lambda>d. A (db_devices d)) (insert_push p)" "keeps (\<lambda>d. A (db_devices d)) (update_users Pu fu)"
  "keeps (\<lambda>d. A (db_devices d)) (update_groups Pg fg)"
  "keeps (\<lambda>d. A (db_devices d)) (update_pushes Pp fp)"
  "keeps (\<lambda>d. A (db_devices d)) (delete_users Pu)" "keeps (\<lambda>d. A (db_devices d)) (delete_rooms Pr)"
  "keeps (\<lambda>d. A (db_devices d)) (delete_groups Pg)"
  "keeps (\<lambda>d. A (db_devices d)) (delete_events Pe)"
  "keeps (\<lambda>d. A (db_devices d)) (delete_pushes Pp)"
  by (simp_all add: keeps_def insert_user_def insert_room_def insert_group_def insert_event_def
      insert_push_def update_users_def update_groups_def update_pushes_def delete_users_def
      delete_rooms_def delete_groups_def delete_events_def delete_pushes_def Let_def)

lemma keeps_groups_frame [frame_intro]:
  "keeps (\<lambda>d. A (db_groups d)) (insert_user u)" "keeps (\<lambda>d. A (db_groups d)) (insert_room r)"
  "keeps (\<lambda>d. A (db_groups d)) (insert_device v)" "keeps (\<lambda>d. A (db_groups d)) (insert_event e)"
  "keeps (\<lambda>d. A (db_groups d)) (insert_push p)" "keeps (\<lambda>d. A (db_groups d)) (update_users Pu fu)"
  "keeps (\<lambda>d. A (db_groups d)) (update_devices Pd fd)"
  "keeps (\<lambda>d. A (db_groups d)) (update_devices_group Pd fd)"
  "keeps (\<lambda>d. A (db_groups d)) (update_pushes Pp fp)"
  "keeps (\<lambda>d. A (db_groups d)) (delete_users Pu)" "keeps (\<lambda>d. A (db_groups d)) (delete_rooms Pr)"
  "keeps (\<lambda>d. A (db_groups d)) (delete_devices Pd)"
  "keeps (\<lambda>d. A (db_groups d)) (delete_events Pe)"
  "keeps (\<lambda>d. A (db_groups d)) (delete_pushes Pp)"
  by (simp_all add: keeps_def insert_user_def insert_room_def insert_device_def insert_event_def
      insert_push_def update_users_def update_devices_def update_devices_group_def
      update_pushes_def delete_users_def
      delete_rooms_def delete_devices_def delete_events_def delete_pushes_def Let_def)

lemma keeps_some_device:
  "keeps (\<lambda>d. \<exists>r \<in> set (db_devices d). Q r) (insert_device v)"
  "(\<And>r. Q r \<Longrightarrow> Q (f r)) \<Longrightarrow> keeps (\<lambda>d. \<exists>r \<in> set (db_devices d). Q r) (update_devices P f)"
  "(\<And>r. Q r \<Longrightarrow> Q (f r)) \<Longrightarrow> keeps (\<lambda>d. \<exists>r \<in> set (db_devices d). Q r) (update_devices_group P f)"
  by (auto simp: keeps_def insert_device_def update_devices_def update_devices_group_def
      bex_update_where)

end
