(* ===== verification/Crypto.thy ===== *)
theory Crypto
  imports Models
begin

text \<open>
  \<open>src/crypto.rs\<close>: random identifiers, key derivation, and the authenticated encryption of
  strings, over the crates of the record \<open>host\<close>. The bytes that \<open>OsRng\<close> fills are arguments.
  The interface \<open>text_cipher\<close> states what the components that store or send encrypted text
  rely on; both encryption formats of the file provide it.
\<close>

section \<open>Identifiers and keys\<close>

definition random_hex :: "host \<Rightarrow> bytes \<Rightarrow> string" where
  "random_hex h buf = h_hex h buf"

definition random_base64 :: "host \<Rightarrow> bytes \<Rightarrow> string" where
  "random_base64 h buf = h_b64_nopad h buf"

text \<open>\<open>room_id()\<close> draws 8 bytes.\<close>

definition room_id :: "host \<Rightarrow> bytes \<Rightarrow> string" where
  "room_id h buf = random_hex h (take 8 buf)"

definition derive_key :: "host \<Rightarrow> string \<Rightarrow> string \<Rightarrow> bytes" where
  "derive_key h master context = h_sha256 h (as_bytes master @ as_bytes '':'' @ as_bytes context)"

definition master_key :: "host \<Rightarrow> string" where
  "master_key h =
     (case h_console_master_key h of Some k \<Rightarrow> k | None \<Rightarrow> ''vnt-hub-default-dev-master-key'')"

definition device_push_key_material :: "string \<Rightarrow> string \<Rightarrow> string" where
  "device_push_key_material device_id device_token = device_id @ '':'' @ device_token"

definition device_push_context :: "string \<Rightarrow> u32 \<Rightarrow> string" where
  "device_push_context device_id version = ''push:'' @ device_id @ '':'' @ show_u32 version"

section \<open>Encryption\<close>

definition encrypt_parts ::
    "host \<Rightarrow> bytes \<Rightarrow> string \<Rightarrow> string \<Rightarrow> string \<Rightarrow> error + string \<times> string" where
  "encrypt_parts h nonce master context plaintext =
     (let key = derive_key h master context
      in result_then (ok_or (Bail ''encrypt failed'') (h_seal h key nonce (as_bytes plaintext)))
           (\<lambda>ciphertext. Inr (h_b64 h ciphertext, h_b64 h nonce)))"

definition encrypt_to_base64 ::
    "host \<Rightarrow> bytes \<Rightarrow> string \<Rightarrow> string \<Rightarrow> string \<Rightarrow> error + string" where
  "encrypt_to_base64 h nonce master context plaintext =
     result_then (encrypt_parts h nonce master context plaintext)
       (\<lambda>(ciphertext, nonce). Inr (nonce @ '':'' @ ciphertext))"

definition decrypt_parts ::
    "host \<Rightarrow> string \<Rightarrow> string \<Rightarrow> string \<Rightarrow> string \<Rightarrow> error + string" where
  "decrypt_parts h master context ciphertext nonce =
     result_then (lib ''invalid ciphertext base64'' (h_unb64 h ciphertext)) (\<lambda>ct.
     result_then (lib ''invalid nonce base64'' (h_unb64 h nonce)) (\<lambda>n.
     if length n \<noteq> 12 then Inl (Bail ''invalid nonce length'')
     else result_then (ok_or (Bail ''decrypt failed'') (h_open h (derive_key h master context) n ct))
       (\<lambda>plaintext. lib ''invalid utf-8'' (from_utf8 plaintext))))"

definition decrypt_from_base64 ::
    "host \<Rightarrow> string \<Rightarrow> string \<Rightarrow> string \<Rightarrow> error + string" where
  "decrypt_from_base64 h master context value =
     (case split_once (CHR '':'') value of
        Some (nonce, ciphertext) \<Rightarrow> decrypt_parts h master context ciphertext nonce
      | None \<Rightarrow> Inl (Bail ''invalid encrypted value format''))"

section \<open>The interface of an encryption of strings\<close>

text \<open>
  What the crates promise: opening undoes sealing under the same key and nonce, the base64
  decoder undoes the encoder, and the alphabet of base64 has no colon.
\<close>

definition cipher_laws :: "host \<Rightarrow> bool" where
  "cipher_laws h \<longleftrightarrow>
     (\<forall>k n p c. h_seal h k n p = Some c \<longrightarrow> h_open h k n c = Some p) \<and>
     (\<forall>b. h_unb64 h (h_b64 h b) = Some b) \<and>
     (\<forall>b. CHR '':'' \<notin> set (h_b64 h b))"

text \<open>
  A string encryption, for a key material, a context and a nonce: what it produces decrypts
  to the plaintext, under the law of the crates it is built on and for nonces of the right
  size.
\<close>

locale text_cipher =
  fixes enc :: "bytes \<Rightarrow> string \<Rightarrow> string \<Rightarrow> string \<Rightarrow> error + 'ct"
    and dec :: "string \<Rightarrow> string \<Rightarrow> 'ct \<Rightarrow> error + string"
    and lawful :: bool
  assumes dec_enc:
    "\<lbrakk>lawful; length n = 12; utf8_string p; enc n k c p = Inr x\<rbrakk> \<Longrightarrow> dec k c x = Inr p"
begin

lemma enc_inject:
  assumes "lawful" "length n = 12" "length n' = 12" "utf8_string p" "utf8_string p'"
    and "enc n k c p = Inr x" "enc n' k c p' = Inr x"
  shows "p = p'"
  using dec_enc [OF assms(1,2,4,6)] dec_enc [OF assms(1,3,5,7)] by simp

lemma dec_enc_optional:
  assumes "lawful" "length n = 12" "\<And>v. p = Some v \<Longrightarrow> utf8_string v"
    and "map_transpose (enc n k c) p = Inr x"
  shows "map_transpose (dec k c) x = Inr p"
  using assms by (cases p) (auto simp: result_then_Inr dest: dec_enc)

end

lemma decrypt_encrypt_parts:
  assumes "cipher_laws h" "length n = 12" "utf8_string p"
    and "encrypt_parts h n k c p = Inr (ct, b)"
  shows "decrypt_parts h k c ct b = Inr p"
proof -
  obtain x where x: "h_seal h (derive_key h k c) n (as_bytes p) = Some x"
      and "ct = h_b64 h x" "b = h_b64 h n"
    using assms(4) by (auto simp: encrypt_parts_def Let_def result_then_Inr)
  moreover have "h_open h (derive_key h k c) n x = Some (as_bytes p)"
    using assms(1) x by (auto simp: cipher_laws_def)
  ultimately show ?thesis
    using assms(1-3) by (simp add: decrypt_parts_def cipher_laws_def)
qed

interpretation parts: text_cipher
    "encrypt_parts h" "\<lambda>k c x. decrypt_parts h k c (fst x) (snd x)" "cipher_laws h" for h
  by unfold_locales (metis decrypt_encrypt_parts prod.collapse)

interpretation stored: text_cipher
    "encrypt_to_base64 h" "decrypt_from_base64 h" "cipher_laws h" for h
proof unfold_locales
  fix n k c p x
  assume *: "cipher_laws h" "length n = 12" "utf8_string p" "encrypt_to_base64 h n k c p = Inr x"
  then obtain ct b where
    parts: "encrypt_parts h n k c p = Inr (ct, b)" and x: "x = b @ '':'' @ ct"
    by (auto simp: encrypt_to_base64_def result_then_Inr)
  have "b = h_b64 h n"
    using parts by (auto simp: encrypt_parts_def result_then_Inr)
  then have "CHR '':'' \<notin> set b"
    using *(1) by (simp add: cipher_laws_def)
  then show "decrypt_from_base64 h k c x = Inr p"
    using decrypt_encrypt_parts [OF *(1,2,3) parts] x
    by (simp add: decrypt_from_base64_def)
qed

section \<open>Separation of the key derivation inputs\<close>

text \<open>
  A context ends with a colon and a colon-free field name (or version), so that it determines
  both the identifier and the field.
\<close>

lemma append_colon_inject:
  assumes "CHR '':'' \<notin> set f" "CHR '':'' \<notin> set g"
    and "a @ CHR '':'' # f = b @ CHR '':'' # g"
  shows "a = b \<and> f = g"
proof -
  have "rev f @ CHR '':'' # rev a = rev g @ CHR '':'' # rev b"
    using assms(3) by (metis append_assoc append_Cons append_Nil rev.simps(2) rev_append)
  then have "rev f = rev g \<and> rev a = rev b"
    using assms(1,2)
    by (metis option.inject prod.inject set_rev split_once_append_sep)
  then show ?thesis by simp
qed

lemma digit_char_not_colon: "d < 10 \<Longrightarrow> digit_char d \<noteq> CHR '':''"
  using digit_val_digit_char [of d] by (auto simp: digit_val_def)

lemma show_nat_no_colon: "CHR '':'' \<notin> set (show_nat n)"
proof (induction n rule: show_nat.induct)
  case (1 n)
  then show ?case
    using digit_char_not_colon [of n] digit_char_not_colon [of "n mod 10"]
    by (cases "n < 10") (auto simp: show_nat.simps [of n])
qed

lemma device_push_context_inject:
  "device_push_context d v = device_push_context d' v' \<longleftrightarrow> d = d' \<and> v = v'"
proof
  assume "device_push_context d v = device_push_context d' v'"
  then have "d @ CHR '':'' # show_u32 v = d' @ CHR '':'' # show_u32 v'"
    by (simp add: device_push_context_def)
  then have "d = d' \<and> show_u32 v = show_u32 v'"
    by (intro append_colon_inject) (simp_all add: show_u32_def show_nat_no_colon)
  then show "d = d' \<and> v = v'" by simp
qed simp

end
