(* ===== verification/Auth.thy ===== *)
theory Auth
  imports Crypto
begin

unbundle bit_operations_syntax

text \<open>
  \<open>src/auth.rs\<close>: password hashing, HMAC-SHA256 over the byte loop of the code, the
  constant-time comparison, and the signing and verification of the JSON web tokens that
  identify the caller of the web API. The clock is an argument.
\<close>

section \<open>Passwords\<close>

definition hash_password :: "host \<Rightarrow> string \<Rightarrow> string \<Rightarrow> error + string" where
  "hash_password h salt password = lib ''argon2'' (h_argon2_hash h salt password)"

definition verify_password :: "host \<Rightarrow> string \<Rightarrow> string \<Rightarrow> bool" where
  "verify_password h hash password =
     (case h_phc_parse h hash of
        None \<Rightarrow> False
      | Some parsed \<Rightarrow> h_argon2_verify h password parsed)"

text \<open>What Argon2 promises: a hash it produced parses and accepts its password.\<close>

definition argon2_laws :: "host \<Rightarrow> bool" where
  "argon2_laws h \<longleftrightarrow>
     (\<forall>salt p x. h_argon2_hash h salt p = Some x \<longrightarrow>
        (\<exists>y. h_phc_parse h x = Some y \<and> h_argon2_verify h p y))"

lemma verify_hash_password:
  "argon2_laws h \<Longrightarrow> hash_password h salt p = Inr x \<Longrightarrow> verify_password h x p"
  by (fastforce simp: argon2_laws_def hash_password_def verify_password_def)

definition jwt_secret :: "host \<Rightarrow> string" where
  "jwt_secret h =
     (case h_jwt_secret_var h of Some k \<Rightarrow> k | None \<Rightarrow> ''vnt-hub-dev-jwt-secret'')"

section \<open>HMAC\<close>

text \<open>\<open>dst[..src.len()].copy_from_slice(src)\<close> on a fixed array.\<close>

definition copy_to_front :: "bytes \<Rightarrow> bytes \<Rightarrow> bytes" where
  "copy_to_front src dst = src @ drop (length src) dst"

definition normalized_key :: "host \<Rightarrow> bytes \<Rightarrow> bytes" where
  "normalized_key h key =
     (if 64 < length key then copy_to_front (h_sha256 h key) (replicate 64 0)
      else copy_to_front key (replicate 64 0))"

definition xor_at :: "bytes \<Rightarrow> nat \<Rightarrow> bytes \<Rightarrow> bytes" where
  "xor_at k i xs = xs[i := (xs ! i) XOR (k ! i)]"

definition hmac_sha256 :: "host \<Rightarrow> bytes \<Rightarrow> bytes \<Rightarrow> bytes" where
  "hmac_sha256 h key data =
     (let nk = normalized_key h key;
          (ipad, opad) = fold (\<lambda>i (ip, op). (xor_at nk i ip, xor_at nk i op)) [0..<64]
                           (replicate 64 0x36, replicate 64 0x5c);
          inner_hash = h_sha256 h (ipad @ data)
      in h_sha256 h (opad @ inner_hash))"

text \<open>The definition of the standard (RFC 2104), for a block of 64 bytes.\<close>

definition rfc2104_key :: "host \<Rightarrow> bytes \<Rightarrow> bytes" where
  "rfc2104_key h key =
     (let k = (if 64 < length key then h_sha256 h key else key)
      in k @ replicate (64 - length k) 0)"

definition rfc2104 :: "host \<Rightarrow> bytes \<Rightarrow> bytes \<Rightarrow> bytes" where
  "rfc2104 h key data =
     (let k = rfc2104_key h key
      in h_sha256 h (map (\<lambda>b. b XOR 0x5c) k @ h_sha256 h (map (\<lambda>b. b XOR 0x36) k @ data)))"

lemma length_xor_at [simp]: "length (xor_at k i xs) = length xs"
  by (simp add: xor_at_def)

lemma fold_xor_at_pair:
  "fold (\<lambda>i (a, b). (xor_at k i a, xor_at k i b)) is (a, b) =
     (fold (xor_at k) is a, fold (xor_at k) is b)"
  by (induction "is" arbitrary: a b) simp_all

lemma length_fold_xor_at [simp]: "length (fold (xor_at k) is xs) = length xs"
  by (induction "is" arbitrary: xs) simp_all

lemma fold_xor_at_nth:
  assumes "i < length xs"
  shows "fold (xor_at k) [0..<n] xs ! i = (if i < n then (xs ! i) XOR (k ! i) else xs ! i)"
  using assms by (induction n) (auto simp: xor_at_def nth_list_update less_Suc_eq)

lemma fold_xor_at_replicate:
  assumes "length k = n"
  shows "fold (xor_at k) [0..<n] (replicate n c) = map (\<lambda>b. b XOR c) k"
  using assms by (intro nth_equalityI) (simp_all add: fold_xor_at_nth xor.commute)

lemma normalized_key_eq:
  "length key \<le> 64 \<or> length (h_sha256 h key) = 32 \<Longrightarrow> normalized_key h key = rfc2104_key h key"
  by (auto simp: normalized_key_def rfc2104_key_def copy_to_front_def)

lemma length_rfc2104_key:
  "length key \<le> 64 \<or> length (h_sha256 h key) = 32 \<Longrightarrow> length (rfc2104_key h key) = 64"
  by (auto simp: rfc2104_key_def Let_def)

section \<open>The comparison\<close>

definition constant_time_eq :: "bytes \<Rightarrow> bytes \<Rightarrow> bool" where
  "constant_time_eq a b =
     (if length a \<noteq> length b then False
      else fold (\<lambda>(left, right) diff. diff OR (left XOR right)) (zip a b) 0 = 0)"

lemma word_or_eq_0: "(a :: 8 word) OR b = 0 \<longleftrightarrow> a = 0 \<and> b = 0"
  by (simp add: bit_eq_iff bit_or_iff) blast

lemma word_xor_eq_0: "(a :: 8 word) XOR b = 0 \<longleftrightarrow> a = b"
  by (simp add: bit_eq_iff bit_xor_iff)

lemma fold_diff_eq_0:
  "fold (\<lambda>(l, r) d. d OR (l XOR r)) ps (d :: 8 word) = 0 \<longleftrightarrow> d = 0 \<and> (\<forall>(l, r) \<in> set ps. l = r)"
  by (induction ps arbitrary: d) (auto simp: word_or_eq_0 word_xor_eq_0)

lemma constant_time_eq_correct: "constant_time_eq a b \<longleftrightarrow> a = b"
proof
  assume *: "constant_time_eq a b"
  then have len: "length a = length b"
    by (simp add: constant_time_eq_def split: if_splits)
  with * have "\<forall>(l, r) \<in> set (zip a b). l = r"
    by (simp add: constant_time_eq_def fold_diff_eq_0)
  with len show "a = b"
    by (induction a b rule: list_induct2) auto
qed (auto simp: constant_time_eq_def fold_diff_eq_0 zip_same)

section \<open>Tokens\<close>

definition dquote :: string where
  "dquote = [CHR 0x22]"

definition jwt_header :: string where
  "jwt_header =
     ''{'' @ dquote @ ''alg'' @ dquote @ '':'' @ dquote @ ''HS256'' @ dquote @ '','' @
     dquote @ ''typ'' @ dquote @ '':'' @ dquote @ ''JWT'' @ dquote @ ''}''"

text \<open>\<open>x as usize\<close> of a timestamp, on a 64-bit target.\<close>

definition as_usize :: "i64 \<Rightarrow> u64" where
  "as_usize v = word_of_int v"

definition sign :: "host \<Rightarrow> i64 \<Rightarrow> string \<Rightarrow> string \<Rightarrow> string \<Rightarrow> error + string" where
  "sign h now user_id username role =
     (let exp = as_usize (i64_add now (24 * 3600));
          claims = \<lparr> cl_sub = user_id, cl_username = username, cl_role = role, cl_exp = exp \<rparr>;
          header = h_b64url h (as_bytes jwt_header)
      in result_then (lib ''serde_json'' (h_claims_json h claims)) (\<lambda>json.
         let payload = h_b64url h json;
             signing_input = header @ ''.'' @ payload;
             signature = h_b64url h (hmac_sha256 h (as_bytes (jwt_secret h)) (as_bytes signing_input))
         in Inr (signing_input @ ''.'' @ signature)))"

definition verify_parts :: "host \<Rightarrow> i64 \<Rightarrow> string \<Rightarrow> string \<Rightarrow> string \<Rightarrow> error + claims" where
  "verify_parts h now header payload signature =
     result_then (lib ''base64'' (h_unb64url h header)) (\<lambda>header_bytes.
     result_then (lib ''serde_json'' (h_json_of_bytes h header_bytes)) (\<lambda>header_value.
     if Option.bind (json_get ''alg'' header_value) as_str \<noteq> Some ''HS256''
     then Inl (Bail ''unsupported jwt alg'')
     else
       let signing_input = header @ ''.'' @ payload;
           expected = hmac_sha256 h (as_bytes (jwt_secret h)) (as_bytes signing_input)
       in result_then (lib ''base64'' (h_unb64url h signature)) (\<lambda>actual.
          if \<not> constant_time_eq expected actual then Inl (Bail ''invalid jwt signature'')
          else
            result_then (lib ''base64'' (h_unb64url h payload)) (\<lambda>payload_bytes.
            result_then (lib ''serde_json'' (h_claims_of_json h payload_bytes)) (\<lambda>claims.
            if cl_exp claims < as_usize now then Inl (Bail ''jwt expired'') else Inr claims)))))"

fun verify_pieces :: "host \<Rightarrow> i64 \<Rightarrow> string list \<Rightarrow> error + claims" where
  "verify_pieces h now [] = Inl (Bail ''jwt header missing'')"
| "verify_pieces h now [_] = Inl (Bail ''jwt payload missing'')"
| "verify_pieces h now [_, _] = Inl (Bail ''jwt signature missing'')"
| "verify_pieces h now [header, payload, signature] = verify_parts h now header payload signature"
| "verify_pieces h now (_ # _ # _ # _ # _) = Inl (Bail ''invalid jwt parts'')"

definition verify_token :: "host \<Rightarrow> i64 \<Rightarrow> string \<Rightarrow> error + claims" where
  "verify_token h now token = verify_pieces h now (split_on (CHR ''.'') token)"

text \<open>The extractor of \<open>AuthUser\<close>: \<open>authorization\<close> is the header's value, when it is present and
  visible ASCII.\<close>

definition from_request_parts :: "host \<Rightarrow> i64 \<Rightarrow> string option \<Rightarrow> status_code + auth_user" where
  "from_request_parts h now authorization =
     result_then (ok_or UNAUTHORIZED authorization) (\<lambda>auth.
     result_then (ok_or UNAUTHORIZED (strip_prefix ''Bearer '' auth)) (\<lambda>token.
       case verify_token h now token of
         Inl e \<Rightarrow> Inl UNAUTHORIZED
       | Inr c \<Rightarrow> Inr \<lparr> au_id = cl_sub c, au_username = cl_username c, au_role = cl_role c \<rparr>))"

lemma from_request_parts_Inl: "from_request_parts h t a = Inl e \<Longrightarrow> e = UNAUTHORIZED"
  by (auto simp: from_request_parts_def result_then_def ok_or_def split: sum.splits option.splits)

lemma from_request_parts_Inr:
  "from_request_parts h t a = Inr user \<Longrightarrow> \<exists>token c. a = Some (''Bearer '' @ token) \<and>
     verify_token h t token = Inr c \<and>
     user = \<lparr> au_id = cl_sub c, au_username = cl_username c, au_role = cl_role c \<rparr>"
proof -
  assume ok: "from_request_parts h t a = Inr user"
  then obtain token where token: "a = Some (''Bearer '' @ token)"
    by (cases a) (auto simp: from_request_parts_def result_then_Inr strip_prefix_iff)
  then have "(case verify_token h t token of Inl e \<Rightarrow> Inl UNAUTHORIZED
      | Inr c \<Rightarrow> Inr \<lparr> au_id = cl_sub c, au_username = cl_username c, au_role = cl_role c \<rparr>) = Inr user"
    using ok strip_prefix_append [of "''Bearer ''" token] by (simp add: from_request_parts_def)
  with token show ?thesis
    by (cases "verify_token h t token") simp_all
qed

section \<open>The interface of a token scheme\<close>

definition jwt_laws :: "host \<Rightarrow> bool" where
  "jwt_laws h \<longleftrightarrow>
     (\<forall>b. h_unb64url h (h_b64url h b) = Some b) \<and>
     (\<forall>b. CHR ''.'' \<notin> set (h_b64url h b)) \<and>
     (\<exists>v. h_json_of_bytes h (as_bytes jwt_header) = Some v \<and>
          json_get ''alg'' v = Some (JStr ''HS256'')) \<and>
     (\<forall>c b. h_claims_json h c = Some b \<longrightarrow> h_claims_of_json h b = Some c)"

text \<open>
  What the web API relies on: a token that was issued for an identity authenticates that
  identity until it expires, and only tokens that the secret signed authenticate anyone.
\<close>

locale token_scheme =
  fixes issue :: "i64 \<Rightarrow> string \<Rightarrow> string \<Rightarrow> string \<Rightarrow> error + string"
    and check :: "i64 \<Rightarrow> string \<Rightarrow> error + claims"
    and lawful :: bool
    and expiry :: "i64 \<Rightarrow> u64"
  assumes check_issue:
      "\<lbrakk>lawful; issue t u n r = Inr tok; as_usize t' \<le> expiry t\<rbrakk> \<Longrightarrow>
         check t' tok = Inr \<lparr> cl_sub = u, cl_username = n, cl_role = r, cl_exp = expiry t \<rparr>"
    and check_not_expired: "check t tok = Inr c \<Longrightarrow> as_usize t \<le> cl_exp c"
begin

lemma issue_inject:
  assumes "lawful" "issue t u n r = Inr tok" "issue t u' n' r' = Inr tok"
    and "as_usize t \<le> expiry t"
  shows "u = u' \<and> n = n' \<and> r = r'"
  using check_issue [OF assms(1,2,4)] check_issue [OF assms(1,3,4)] by simp

lemma expired_rejected: "cl_exp c < as_usize t \<Longrightarrow> check t tok \<noteq> Inr c"
  using check_not_expired by fastforce

end

lemma verify_token_sign:
  assumes laws: "jwt_laws h" and tok: "sign h t u n r = Inr tok"
    and exp: "as_usize t' \<le> as_usize (i64_add t (24 * 3600))"
  shows "verify_token h t' tok =
    Inr \<lparr> cl_sub = u, cl_username = n, cl_role = r, cl_exp = as_usize (i64_add t (24 * 3600)) \<rparr>"
proof -
  define c where
    "c = \<lparr> cl_sub = u, cl_username = n, cl_role = r, cl_exp = as_usize (i64_add t (24 * 3600)) \<rparr>"
  define hr where "hr = h_b64url h (as_bytes jwt_header)"
  obtain j where j: "h_claims_json h c = Some j"
    using tok by (auto simp: sign_def c_def Let_def result_then_Inr)
  define pl where "pl = h_b64url h j"
  define mac where "mac = hmac_sha256 h (as_bytes (jwt_secret h)) (as_bytes (hr @ ''.'' @ pl))"
  have "tok = hr @ CHR ''.'' # pl @ CHR ''.'' # h_b64url h mac"
    using tok j by (simp add: sign_def c_def hr_def pl_def mac_def Let_def)
  moreover have "CHR ''.'' \<notin> set (h_b64url h b)" for b
    using laws by (simp add: jwt_laws_def)
  ultimately have "split_on (CHR ''.'') tok = [hr, pl, h_b64url h mac]"
    by (simp add: split_on_append_sep split_on_absent hr_def pl_def)
  moreover have "verify_parts h t' hr pl (h_b64url h mac) = Inr c"
  proof -
    obtain v where v: "h_json_of_bytes h (as_bytes jwt_header) = Some v"
        "json_get ''alg'' v = Some (JStr ''HS256'')"
      using laws by (auto simp: jwt_laws_def)
    have "h_unb64url h (h_b64url h b) = Some b" for b
      using laws by (simp add: jwt_laws_def)
    moreover have "h_claims_of_json h j = Some c"
      using laws j by (simp add: jwt_laws_def)
    moreover have "constant_time_eq mac mac"
      by (simp add: constant_time_eq_correct)
    moreover have "\<not> cl_exp c < as_usize t'"
      using exp by (simp add: c_def not_less)
    ultimately show ?thesis
      using v by (simp add: verify_parts_def hr_def pl_def mac_def Let_def)
  qed
  ultimately show ?thesis
    by (simp add: verify_token_def c_def)
qed

lemma verify_pieces_Inr:
  "verify_pieces h t ps = Inr c \<longleftrightarrow>
     (\<exists>hr pl sg. ps = [hr, pl, sg] \<and> verify_parts h t hr pl sg = Inr c)"
  by (cases "(h, t, ps)" rule: verify_pieces.cases) auto

lemma verify_parts_Inr:
  assumes "verify_parts h t hr pl sg = Inr c"
  shows "as_usize t \<le> cl_exp c"
    and "\<exists>mac. h_unb64url h sg = Some mac \<and>
      constant_time_eq (hmac_sha256 h (as_bytes (jwt_secret h)) (as_bytes (hr @ ''.'' @ pl))) mac"
  using assms
  by (auto simp: verify_parts_def Let_def result_then_Inr split: if_splits)

lemma verify_token_Inr:
  "verify_token h t tok = Inr c \<longleftrightarrow>
     (\<exists>hr pl sg. split_on (CHR ''.'') tok = [hr, pl, sg] \<and> verify_parts h t hr pl sg = Inr c)"
  by (simp add: verify_token_def verify_pieces_Inr)

text \<open>Exactly the tokens that check.\<close>

lemma verify_parts_iff:
  "verify_parts h t hr pl sg = Inr c \<longleftrightarrow>
     (\<exists>hb hv bytes. h_unb64url h hr = Some hb \<and> h_json_of_bytes h hb = Some hv \<and>
        Option.bind (json_get ''alg'' hv) as_str = Some ''HS256'' \<and>
        h_unb64url h sg = Some (hmac_sha256 h (as_bytes (jwt_secret h)) (as_bytes (hr @ ''.'' @ pl))) \<and>
        h_unb64url h pl = Some bytes \<and> h_claims_of_json h bytes = Some c \<and> as_usize t \<le> cl_exp c)"
  by (auto simp: verify_parts_def Let_def result_then_Inr constant_time_eq_correct lib_def ok_or_def
      not_less split: option.splits if_splits)

lemma from_request_parts_iff:
  "from_request_parts h t a = Inr user \<longleftrightarrow>
     (\<exists>hr pl sg c. a = Some (''Bearer '' @ hr @ ''.'' @ pl @ ''.'' @ sg) \<and>
        CHR ''.'' \<notin> set hr \<and> CHR ''.'' \<notin> set pl \<and> CHR ''.'' \<notin> set sg \<and>
        verify_parts h t hr pl sg = Inr c \<and>
        user = \<lparr> au_id = cl_sub c, au_username = cl_username c, au_role = cl_role c \<rparr>)"
proof
  assume "from_request_parts h t a = Inr user"
  then obtain token c where auth: "a = Some (''Bearer '' @ token)" and c: "verify_token h t token = Inr c"
      and user: "user = \<lparr> au_id = cl_sub c, au_username = cl_username c, au_role = cl_role c \<rparr>"
    using from_request_parts_Inr by blast
  obtain hr pl sg where parts: "split_on (CHR ''.'') token = [hr, pl, sg]"
      and check: "verify_parts h t hr pl sg = Inr c"
    using c by (auto simp: verify_token_Inr)
  have "CHR ''.'' \<notin> set hr \<and> CHR ''.'' \<notin> set pl \<and> CHR ''.'' \<notin> set sg"
    using split_on_pieces [of _ "CHR ''.''" token] unfolding parts by simp
  moreover have "token = hr @ ''.'' @ pl @ ''.'' @ sg"
    using join_split_on [of "CHR ''.''" token] unfolding parts by simp
  ultimately show "\<exists>hr pl sg c. a = Some (''Bearer '' @ hr @ ''.'' @ pl @ ''.'' @ sg) \<and>
        CHR ''.'' \<notin> set hr \<and> CHR ''.'' \<notin> set pl \<and> CHR ''.'' \<notin> set sg \<and>
        verify_parts h t hr pl sg = Inr c \<and>
        user = \<lparr> au_id = cl_sub c, au_username = cl_username c, au_role = cl_role c \<rparr>"
    using auth check user by blast
next
  assume "\<exists>hr pl sg c. a = Some (''Bearer '' @ hr @ ''.'' @ pl @ ''.'' @ sg) \<and>
        CHR ''.'' \<notin> set hr \<and> CHR ''.'' \<notin> set pl \<and> CHR ''.'' \<notin> set sg \<and>
        verify_parts h t hr pl sg = Inr c \<and>
        user = \<lparr> au_id = cl_sub c, au_username = cl_username c, au_role = cl_role c \<rparr>"
  then obtain hr pl sg c where a: "a = Some (''Bearer '' @ hr @ CHR ''.'' # pl @ CHR ''.'' # sg)"
      and free: "CHR ''.'' \<notin> set hr" "CHR ''.'' \<notin> set pl" "CHR ''.'' \<notin> set sg"
      and check: "verify_parts h t hr pl sg = Inr c"
      and user: "user = \<lparr> au_id = cl_sub c, au_username = cl_username c, au_role = cl_role c \<rparr>"
    by auto
  have "verify_token h t (hr @ CHR ''.'' # pl @ CHR ''.'' # sg) = Inr c"
    using check free by (simp add: verify_token_def split_on_append_sep split_on_absent)
  moreover have "strip_prefix ''Bearer '' (''Bearer '' @ hr @ CHR ''.'' # pl @ CHR ''.'' # sg) =
      Some (hr @ CHR ''.'' # pl @ CHR ''.'' # sg)"
    by (rule strip_prefix_append)
  ultimately show "from_request_parts h t a = Inr user"
    by (simp add: a user from_request_parts_def)
qed

interpretation jwt: token_scheme
    "sign h" "verify_token h" "jwt_laws h" "\<lambda>t. as_usize (i64_add t (24 * 3600))" for h
proof unfold_locales
  show "jwt_laws h \<Longrightarrow> sign h t u n r = Inr tok \<Longrightarrow>
      as_usize t' \<le> as_usize (i64_add t (24 * 3600)) \<Longrightarrow>
      verify_token h t' tok = Inr \<lparr> cl_sub = u, cl_username = n, cl_role = r,
        cl_exp = as_usize (i64_add t (24 * 3600)) \<rparr>" for t u n r tok t'
    by (rule verify_token_sign)
  show "verify_token h t tok = Inr c \<Longrightarrow> as_usize t \<le> cl_exp c" for t tok c
    by (auto simp: verify_token_Inr dest: verify_parts_Inr(1))
qed

end
