(* ===== verification/Db_Rooms.thy ===== *)
theory Db_Rooms
  imports Schema Auth
begin

text \<open>
  The part of \<open>src/db.rs\<close> on users, rooms and the system configuration: the migration of the
  device columns, the creation of the admin account and of the TLS certificate, the lookup of
  users, and the creation, listing and deletion of rooms. Clock values, random bytes and fresh
  identifiers are arguments.
\<close>

section \<open>Start-up\<close>

definition runtime_columns :: "string list" where
  "runtime_columns = [''up_stream'', ''down_stream'', ''traffic_updated_at'', ''client_version'',
     ''console_public_ip'', ''vnts_status'', ''vnts_error'', ''vnts_updated_at'']"

text \<open>The columns of the table \<open>devices\<close> after the loop over \<open>ALTER TABLE\<close>; \<open>names\<close> is the set
  that \<open>PRAGMA table_info\<close> returned before it.\<close>

definition ensure_device_runtime_columns :: "string list \<Rightarrow> string list" where
  "ensure_device_runtime_columns names =
     fold (\<lambda>name cols. if name \<in> set names then cols else cols @ [name]) runtime_columns names"

definition ensure_admin :: "host \<Rightarrow> string \<Rightarrow> string \<Rightarrow> i64 \<Rightarrow> unit db_op" where
  "ensure_admin h uuid salt now =
     andthen (reading (\<lambda>d. count_where (\<lambda>u. us_username u = ''admin'') (db_users d))) (\<lambda>count.
     if count = 0 then
       andthen (of_result (hash_password h salt ''admin'')) (\<lambda>password.
       insert_user \<lparr> us_id = uuid, us_username = ''admin'', us_password = password,
         us_role = ''admin'', us_created_at = now \<rparr>)
     else ret ())"

definition system_get :: "string \<Rightarrow> string option db_op" where
  "system_get key =
     reading (\<lambda>d. map_option sy_value (fetch_optional (\<lambda>r. sy_key r = key) (db_system d)))"

definition system_set :: "string \<Rightarrow> string \<Rightarrow> i64 \<Rightarrow> unit db_op" where
  "system_set key value now =
     writing (\<lambda>d. d\<lparr>db_system :=
       (if key \<in> sy_key ` set (db_system d)
        then update_where (\<lambda>r. sy_key r = key)
               (\<lambda>r. r\<lparr>sy_value := value, sy_updated_at := now\<rparr>) (db_system d)
        else db_system d @ [\<lparr> sy_key = key, sy_value = value, sy_updated_at = now \<rparr>])\<rparr>)"

text \<open>\<open>generated\<close> is the certificate and key that rcgen returns, \<open>None\<close> when it fails.\<close>

definition ensure_tls_cert :: "host \<Rightarrow> (string \<times> string) option \<Rightarrow> i64 \<Rightarrow> i64 \<Rightarrow> unit db_op" where
  "ensure_tls_cert h generated now1 now2 =
     andthen (system_get ''tls_cert'') (\<lambda>cert.
     andthen (if cert \<noteq> None then system_get ''tls_key'' else ret None) (\<lambda>key.
     if cert \<noteq> None \<and> key \<noteq> None then ret ()
     else
       andthen (of_result (lib ''rcgen'' generated)) (\<lambda>(cert_pem, key_pem).
       andthen (system_set ''tls_cert'' (h_b64 h (as_bytes cert_pem)) now1) (\<lambda>_.
       system_set ''tls_key'' (h_b64 h (as_bytes key_pem)) now2))))"

definition tls_pem :: "host \<Rightarrow> (bytes \<times> bytes) db_op" where
  "tls_pem h =
     andthen (system_get ''tls_cert'') (\<lambda>c.
     andthen (of_result (ok_or (Bail ''tls_cert missing'') c)) (\<lambda>cert.
     andthen (system_get ''tls_key'') (\<lambda>k.
     andthen (of_result (ok_or (Bail ''tls_key missing'') k)) (\<lambda>key.
     andthen (of_result (lib ''base64'' (h_unb64 h cert))) (\<lambda>cert_bytes.
     andthen (of_result (lib ''base64'' (h_unb64 h key))) (\<lambda>key_bytes.
     ret (cert_bytes, key_bytes)))))))"

section \<open>Users\<close>

definition find_user :: "string \<Rightarrow> (string \<times> string \<times> string) option db_op" where
  "find_user username =
     reading (\<lambda>d. map_option (\<lambda>u. (us_id u, us_password u, us_role u))
       (fetch_optional (\<lambda>u. us_username u = username) (db_users d)))"

section \<open>Rooms\<close>

text \<open>The loop of \<open>create_room\<close>: \<open>draw i\<close> is what \<open>OsRng\<close> returns in the iteration \<open>i\<close>.\<close>

fun create_room_loop ::
    "host \<Rightarrow> (nat \<Rightarrow> bytes) \<Rightarrow> i64 \<Rightarrow> string \<Rightarrow> string \<Rightarrow> nat list \<Rightarrow> room db_op" where
  "create_room_loop h draw now owner_id name [] = fail (Bail ''room id conflict'')"
| "create_room_loop h draw now owner_id name (i # is) =
     (let id = room_id h (draw i) in
      andthen (reading (\<lambda>d. count_where (\<lambda>r. rm_id r = id) (db_rooms d))) (\<lambda>exists.
      if exists \<noteq> 0 then create_room_loop h draw now owner_id name is
      else
        let r = \<lparr> rm_id = id, rm_name = name, rm_owner_id = owner_id, rm_created_at = now \<rparr>
        in andthen (insert_room r) (\<lambda>_. ret r)))"

definition create_room ::
    "host \<Rightarrow> (nat \<Rightarrow> bytes) \<Rightarrow> i64 \<Rightarrow> string \<Rightarrow> string \<Rightarrow> room db_op" where
  "create_room h draw now owner_id name = create_room_loop h draw now owner_id name [0..<5]"

definition list_rooms :: "string \<Rightarrow> room list db_op" where
  "list_rooms owner_id =
     reading (\<lambda>d. order_desc rm_created_at (select_where (\<lambda>r. rm_owner_id r = owner_id) (db_rooms d)))"

definition room_exists :: "string \<Rightarrow> bool db_op" where
  "room_exists rid = reading (\<lambda>d. 0 < count_where (\<lambda>r. rm_id r = rid) (db_rooms d))"

definition room_belongs_to :: "string \<Rightarrow> string \<Rightarrow> bool db_op" where
  "room_belongs_to rid user_id =
     reading (\<lambda>d. 0 < count_where (\<lambda>r. rm_id r = rid \<and> rm_owner_id r = user_id) (db_rooms d))"

definition devices_of_room :: "string \<Rightarrow> database \<Rightarrow> string set" where
  "devices_of_room rid d = dv_id ` set (select_where (\<lambda>r. dv_room_id r = rid) (db_devices d))"

definition delete_room :: "string \<Rightarrow> unit db_op" where
  "delete_room rid = transaction (
     andthen (reading (devices_of_room rid)) (\<lambda>ids.
     andthen (delete_pushes (\<lambda>p. pu_device_id p \<in> ids)) (\<lambda>_.
     andthen (reading (devices_of_room rid)) (\<lambda>ids.
     andthen (delete_events (\<lambda>e. ei_device_id e \<in> ids)) (\<lambda>_.
     andthen (delete_devices (\<lambda>r. dv_room_id r = rid)) (\<lambda>_.
     andthen (delete_groups (\<lambda>g. gr_room_id g = rid)) (\<lambda>_.
     delete_rooms (\<lambda>r. rm_id r = rid))))))))"

section \<open>Preservation of the constraints\<close>

lemma system_set_ok [keeps_intro]: "keeps db_ok (system_set k v t)"
  unfolding system_set_def
  by (rule keeps_writing)
    (auto simp: db_ok_defs map_key_update_where)

lemma start_up_ok [keeps_intro]:
  "keeps db_ok (ensure_admin h uuid salt now)" "keeps db_ok (ensure_tls_cert h g t1 t2)"
  by (auto simp: ensure_admin_def ensure_tls_cert_def system_get_def intro!: keeps_intro)

lemma reads_ok [keeps_intro]:
  "keeps P (system_get k)" "keeps P (find_user n)" "keeps P (list_rooms o')"
  "keeps P (room_exists r)" "keeps P (room_belongs_to r u)"
  by (simp_all add: system_get_def find_user_def list_rooms_def room_exists_def
      room_belongs_to_def keeps_intro)

lemma create_room_loop_ok: "keeps db_ok (create_room_loop h draw now o' n is)"
  by (induction "is") (simp_all only: create_room_loop.simps Let_def keeps_intro)

lemma room_ops_ok [keeps_intro]:
  "keeps db_ok (create_room h draw now o' n)" "keeps db_ok (delete_room r)"
  by (auto simp: create_room_def delete_room_def intro!: keeps_intro create_room_loop_ok)

section \<open>Behaviour of the operations\<close>

lemma find_user_row: "db_ok d \<Longrightarrow> find_user n d =
    (Inr (map_option (\<lambda>u. (us_id u, us_password u, us_role u)) (row_by us_username n (db_users d))), d)"
  by (simp add: find_user_def fetch_optional_key)

lemma create_room_loop_eq:
  "create_room_loop h draw now o' n is d =
     (case find (\<lambda>i. room_id h (draw i) \<notin> room_ids d) is of
        None \<Rightarrow> (Inl (Bail ''room id conflict''), d)
      | Some i \<Rightarrow>
          if dangling d (user_ids d) o' then (Inl (SqlError ForeignKeyViolation), d)
          else
            let r = \<lparr> rm_id = room_id h (draw i), rm_name = n, rm_owner_id = o', rm_created_at = now \<rparr>
            in (Inr r, d\<lparr>db_rooms := db_rooms d @ [r]\<rparr>))"
proof (induction "is")
  case (Cons i "is")
  show ?case
  proof (cases "room_id h (draw i) \<in> room_ids d")
    case True
    then have "count_where (\<lambda>r. rm_id r = room_id h (draw i)) (db_rooms d) \<noteq> 0"
      by (auto simp: count_where_0)
    with True Cons show ?thesis
      by (simp add: Let_def)
  next
    case False
    then have "count_where (\<lambda>r. rm_id r = room_id h (draw i)) (db_rooms d) = 0"
      unfolding count_where_0 by (metis image_eqI)
    with False show ?thesis
      by (simp add: Let_def insert_room_def andthen_def)
  qed
qed simp

lemma room_exists_eq: "room_exists r d = (Inr (r \<in> room_ids d), d)"
  by (auto simp: room_exists_def count_where_pos)

lemma room_belongs_to_eq:
  "room_belongs_to r u d = (Inr (\<exists>x \<in> set (db_rooms d). rm_id x = r \<and> rm_owner_id x = u), d)"
  by (auto simp: room_belongs_to_def count_where_pos)

text \<open>Every device is in the room of its group: what the operations that set a group check,
  \<open>update_device\<close> excepted.\<close>

definition groups_local :: "database \<Rightarrow> bool" where
  "groups_local d \<longleftrightarrow>
     (\<forall>r \<in> set (db_devices d). \<forall>g \<in> set (db_groups d).
        dv_group_id r = Some (gr_id g) \<longrightarrow> gr_room_id g = dv_room_id r)"

text \<open>The database without a room and everything that belongs to it.\<close>

definition without_room :: "string \<Rightarrow> database \<Rightarrow> database" where
  "without_room rid d = d\<lparr>
     db_pushes := delete_where (\<lambda>p. pu_device_id p \<in> devices_of_room rid d) (db_pushes d),
     db_events := delete_where (\<lambda>e. ei_device_id e \<in> devices_of_room rid d) (db_events d),
     db_devices := delete_where (\<lambda>r. dv_room_id r = rid) (db_devices d),
     db_groups := delete_where (\<lambda>g. gr_room_id g = rid) (db_groups d),
     db_rooms := delete_where (\<lambda>r. rm_id r = rid) (db_rooms d) \<rparr>"

lemma delete_room_eq:
  "delete_room rid d =
     (if db_foreign_keys d \<and>
         (\<exists>r \<in> set (db_devices d). \<exists>g \<in> set (db_groups d).
            dv_room_id r \<noteq> rid \<and> gr_room_id g = rid \<and> dv_group_id r = Some (gr_id g))
      then (Inl (SqlError ForeignKeyViolation), d)
      else (Inr (), without_room rid d))"
  by (auto simp: delete_room_def transaction_def andthen_def delete_pushes_def delete_events_def
      delete_devices_def delete_groups_def delete_rooms_def without_room_def devices_of_room_def
      Let_def)

end
