(* ===== verification/Db_Devices.thy ===== *)
theory Db_Devices
  imports Db_Rooms
begin

text \<open>
  The operations of \<open>src/db.rs\<close> on devices: the registration and authentication of a device
  that connects (\<open>upsert_device_hello\<close>), listing, editing and deleting devices, renewing the
  device token, the assignment to a group, and the state a device reports. Fresh identifiers,
  random bytes and the clock are arguments.
\<close>

section \<open>The status column\<close>

text \<open>\<open>CASE WHEN status = 'kicked' THEN status ELSE ... END\<close>, in its two forms.\<close>

definition online_unless_kicked :: "string \<Rightarrow> string" where
  "online_unless_kicked status = (if status = ''kicked'' then status else ''online'')"

definition offline_unless_kicked :: "string \<Rightarrow> string" where
  "offline_unless_kicked status = (if status = ''kicked'' then status else ''offline'')"

lemma unless_kicked [simp]:
  "online_unless_kicked ''kicked'' = ''kicked''" "offline_unless_kicked ''kicked'' = ''kicked''"
  by (simp_all add: online_unless_kicked_def offline_unless_kicked_def)

section \<open>Registration\<close>

text \<open>The \<open>UPDATE\<close> of a device that authenticated, and the row of a device that is new.\<close>

definition public_ip_case :: "string option \<Rightarrow> string option \<Rightarrow> string option" where
  "public_ip_case new old =
     (case new of
        None \<Rightarrow> old
      | Some ip \<Rightarrow> if old = None \<or> old \<noteq> Some ip then Some ip else old)"

definition hello_update ::
    "string \<Rightarrow> string option \<Rightarrow> string option \<Rightarrow> i64 \<Rightarrow> device_row \<Rightarrow> device_row" where
  "hello_update device_name client_version console_public_ip now r = r\<lparr>
     dv_display_name := device_name,
     dv_client_version := coalesce client_version (dv_client_version r),
     dv_console_public_ip := public_ip_case console_public_ip (dv_console_public_ip r),
     dv_last_seen := SInt now,
     dv_status := online_unless_kicked (dv_status r) \<rparr>"

definition new_device ::
    "string \<Rightarrow> string \<Rightarrow> string \<Rightarrow> string option \<Rightarrow> string option \<Rightarrow> string \<Rightarrow> i64 \<Rightarrow> device_row" where
  "new_device did rid device_name client_version console_public_ip token now = \<lparr>
     dv_id = did, dv_room_id = rid, dv_group_id = None, dv_display_name = device_name,
     dv_client_version = client_version, dv_console_public_ip = console_public_ip,
     dv_network_ip = None, dv_network_node_id = None, dv_device_token = token,
     dv_last_seen = SInt now, dv_status = ''pending'', dv_vnts_status = None,
     dv_vnts_error = None, dv_vnts_updated_at = SNull, dv_config_version = 0,
     dv_up_stream = SInt 0, dv_down_stream = SInt 0, dv_traffic_updated_at = SNull,
     dv_created_at = now \<rparr>"

definition upsert_device_hello ::
    "host \<Rightarrow> string \<Rightarrow> bytes \<Rightarrow> i64 \<Rightarrow> string \<Rightarrow> string option \<Rightarrow> string option \<Rightarrow> string \<Rightarrow>
     string option \<Rightarrow> string option \<Rightarrow> (string \<times> string option \<times> string) db_op" where
  "upsert_device_hello h uuid rnd now rid device_id device_token device_name client_version
       console_public_ip =
     (case (device_id, device_token) of
        (Some did, Some token) \<Rightarrow>
          andthen (reading (\<lambda>d. fetch_optional (\<lambda>r. dv_id r = did \<and> dv_room_id r = rid) (db_devices d)))
            (\<lambda>row. case row of
               None \<Rightarrow> fail (Bail ''device auth failed'')
             | Some row \<Rightarrow>
                 if dv_device_token row \<noteq> token then fail (Bail ''device auth failed'')
                 else
                   andthen (update_devices (\<lambda>r. dv_id r = did)
                     (hello_update device_name client_version console_public_ip now)) (\<lambda>_.
                   ret (did, None, dv_status row)))
      | _ \<Rightarrow>
          let token = random_base64 h (take 32 rnd) in
          andthen (insert_device
              (new_device uuid rid device_name client_version console_public_ip token now)) (\<lambda>_.
          ret (uuid, Some token, ''pending'')))"

section \<open>Listing and editing\<close>

text \<open>\<open>row.get\<close> of an \<open>Option<i64>\<close> panics on a text. The list reads \<open>COALESCE(up_stream, 0)\<close>.\<close>

fun get_opt_i64 :: "sql_value \<Rightarrow> error + i64 option" where
  "get_opt_i64 SNull = Inr None"
| "get_opt_i64 (SInt v) = Inr (Some v)"
| "get_opt_i64 (SText s) = Inl Panic"

definition get_i64_or_zero :: "sql_value \<Rightarrow> error + i64" where
  "get_i64_or_zero v = result_then (get_opt_i64 v) (\<lambda>x. Inr (case x of None \<Rightarrow> 0 | Some v \<Rightarrow> v))"

definition device_from_row :: "device_row \<Rightarrow> error + device" where
  "device_from_row r =
     result_then (get_opt_i64 (dv_last_seen r)) (\<lambda>last_seen.
     result_then (get_opt_i64 (dv_vnts_updated_at r)) (\<lambda>vnts_updated_at.
     result_then (get_i64_or_zero (dv_up_stream r)) (\<lambda>up_stream.
     result_then (get_i64_or_zero (dv_down_stream r)) (\<lambda>down_stream.
     result_then (get_opt_i64 (dv_traffic_updated_at r)) (\<lambda>traffic_updated_at. Inr \<lparr>
     dev_id = dv_id r, dev_room_id = dv_room_id r, dev_group_id = dv_group_id r,
     dev_display_name = dv_display_name r, dev_client_version = dv_client_version r,
     dev_console_public_ip = dv_console_public_ip r, dev_network_ip = dv_network_ip r,
     dev_network_node_id = dv_network_node_id r, dev_last_seen = last_seen,
     dev_status = dv_status r, dev_vnts_status = dv_vnts_status r, dev_vnts_error = dv_vnts_error r,
     dev_vnts_updated_at = vnts_updated_at, dev_config_version = dv_config_version r,
     dev_up_stream = up_stream, dev_down_stream = down_stream,
     dev_traffic_updated_at = traffic_updated_at, dev_created_at = dv_created_at r \<rparr>)))))"

primrec devices_from_rows :: "device_row list \<Rightarrow> error + device list" where
  "devices_from_rows [] = Inr []"
| "devices_from_rows (r # rows) =
     result_then (device_from_row r) (\<lambda>x.
     result_then (devices_from_rows rows) (\<lambda>xs. Inr (x # xs)))"

definition list_devices :: "string \<Rightarrow> device list db_op" where
  "list_devices rid =
     andthen (reading (\<lambda>d.
       order_desc dv_created_at (select_where (\<lambda>r. dv_room_id r = rid) (db_devices d)))) (\<lambda>rows.
     of_result (devices_from_rows rows))"

definition update_device :: "string \<Rightarrow> string \<Rightarrow> update_device_request \<Rightarrow> unit db_op" where
  "update_device rid device_id req =
     andthen (reading (\<lambda>d. fetch_optional (\<lambda>r. dv_id r = device_id \<and> dv_room_id r = rid) (db_devices d)))
       (\<lambda>current. case current of
          None \<Rightarrow> fail (Bail ''device not found'')
        | Some row \<Rightarrow>
            let display_name = (case ud_display_name req of Some n \<Rightarrow> n | None \<Rightarrow> dv_display_name row);
                group_id = coalesce (ud_group_id req) (dv_group_id row);
                network_ip = coalesce (ud_network_ip req) (dv_network_ip row);
                network_node_id = coalesce (ud_network_node_id req) (dv_network_node_id row)
            in andthen (update_devices_group (\<lambda>r. dv_id r = device_id \<and> dv_room_id r = rid)
                 (\<lambda>r. r\<lparr>dv_display_name := display_name, dv_group_id := group_id,
                        dv_network_ip := network_ip, dv_network_node_id := network_node_id\<rparr>)) (\<lambda>_.
               ret ()))"

definition delete_device :: "string \<Rightarrow> string \<Rightarrow> unit db_op" where
  "delete_device rid device_id = transaction (
     andthen (delete_pushes (\<lambda>p. pu_device_id p = device_id)) (\<lambda>_.
     andthen (delete_events (\<lambda>e. ei_device_id e = device_id)) (\<lambda>_.
     delete_devices (\<lambda>r. dv_id r = device_id \<and> dv_room_id r = rid))))"

definition regenerate_device_token :: "host \<Rightarrow> bytes \<Rightarrow> string \<Rightarrow> string \<Rightarrow> string db_op" where
  "regenerate_device_token h rnd rid device_id =
     (let token = random_base64 h (take 32 rnd) in
      andthen (update_devices (\<lambda>r. dv_id r = device_id \<and> dv_room_id r = rid)
        (\<lambda>r. r\<lparr>dv_device_token := token\<rparr>)) (\<lambda>_.
      ret token))"

definition set_device_group :: "string \<Rightarrow> string option \<Rightarrow> string \<Rightarrow> unit db_op" where
  "set_device_group rid group_id device_id =
     andthen (case group_id of
         None \<Rightarrow> ret ()
       | Some gid \<Rightarrow>
           andthen (reading (\<lambda>d. count_where (\<lambda>g. gr_id g = gid \<and> gr_room_id g = rid) (db_groups d)))
             (\<lambda>exists. if exists = 0 then fail (Bail ''group not found'') else ret ())) (\<lambda>_.
     andthen (update_devices_group (\<lambda>r. dv_id r = device_id \<and> dv_room_id r = rid)
       (\<lambda>r. r\<lparr>dv_group_id := group_id\<rparr>)) (\<lambda>rows_affected.
     if rows_affected = 0 then fail (Bail ''device not found'') else ret ()))"

section \<open>Reported state\<close>

definition update_device_traffic :: "i64 \<Rightarrow> string \<Rightarrow> u64 \<Rightarrow> u64 \<Rightarrow> unit db_op" where
  "update_device_traffic now device_id up_stream down_stream =
     andthen (update_devices (\<lambda>r. dv_id r = device_id)
       (\<lambda>r. r\<lparr>dv_up_stream := SInt (u64_as_i64 up_stream),
              dv_down_stream := SInt (u64_as_i64 down_stream),
              dv_traffic_updated_at := SInt now, dv_last_seen := SInt now\<rparr>)) (\<lambda>_.
     ret ())"

definition update_device_vnts_status :: "i64 \<Rightarrow> string \<Rightarrow> string \<Rightarrow> string option \<Rightarrow> unit db_op" where
  "update_device_vnts_status now device_id status error =
     andthen (update_devices (\<lambda>r. dv_id r = device_id)
       (\<lambda>r. r\<lparr>dv_vnts_status := Some status, dv_vnts_error := error,
              dv_vnts_updated_at := SInt now, dv_last_seen := SInt now\<rparr>)) (\<lambda>_.
     ret ())"

section \<open>Preservation of the constraints\<close>

lemma hello_update_keys [simp]:
  "dv_id (hello_update n v ip t r) = dv_id r" "dv_room_id (hello_update n v ip t r) = dv_room_id r"
  "dv_group_id (hello_update n v ip t r) = dv_group_id r"
  "dv_device_token (hello_update n v ip t r) = dv_device_token r"
  "dv_status (hello_update n v ip t r) = online_unless_kicked (dv_status r)"
  by (simp_all add: hello_update_def)

lemma upsert_ok [keeps_intro]: "keeps db_ok (upsert_device_hello h u b t rid di dt n v ip)"
  unfolding upsert_device_hello_def Let_def
  by (cases di; cases dt) (simp_all only: prod.case option.case, (intro keeps_intro; simp)+)

lemma update_device_ok [keeps_intro]: "keeps db_ok (update_device rid i req)"
  unfolding update_device_def Let_def by (intro keeps_intro; simp)

lemma delete_device_ok [keeps_intro]: "keeps db_ok (delete_device rid i)"
  unfolding delete_device_def by (intro keeps_intro)

lemma regenerate_ok [keeps_intro]: "keeps db_ok (regenerate_device_token h b rid i)"
  unfolding regenerate_device_token_def Let_def by (intro keeps_intro; simp)

lemma set_device_group_ok [keeps_intro]: "keeps db_ok (set_device_group rid g i)"
  unfolding set_device_group_def by (intro keeps_intro; simp)

lemma reported_ok [keeps_intro]:
  "keeps db_ok (update_device_traffic t i a b)" "keeps db_ok (update_device_vnts_status t i s e)"
  unfolding update_device_traffic_def update_device_vnts_status_def
  by (intro keeps_intro; simp)+

lemma list_devices_ok [keeps_intro]: "keeps P (list_devices rid)"
  unfolding list_devices_def by (intro keeps_intro)

section \<open>Behaviour of the operations\<close>

lemma upsert_known:
  assumes "db_ok d"
  shows "upsert_device_hello h u b t rid (Some i) (Some tok) n v ip d =
    (case row_by dv_id i (db_devices d) of
       Some r \<Rightarrow>
         if dv_room_id r = rid \<and> dv_device_token r = tok
         then (Inr (i, None, dv_status r),
               d\<lparr>db_devices := update_where (\<lambda>r. dv_id r = i) (hello_update n v ip t) (db_devices d)\<rparr>)
         else (Inl (Bail ''device auth failed''), d)
     | None \<Rightarrow> (Inl (Bail ''device auth failed''), d))"
  using assms
  by (auto simp: upsert_device_hello_def devices_t.fetch_by_key update_devices_def andthen_def
      split: option.splits)

lemma upsert_new:
  assumes "di = None \<or> dt = None"
  shows "upsert_device_hello h u b t rid di dt n v ip d =
    (let tok = random_base64 h (take 32 b) in
     case insert_device (new_device u rid n v ip tok t) d of
       (Inl e, d') \<Rightarrow> (Inl e, d')
     | (Inr _, d') \<Rightarrow> (Inr (u, Some tok, ''pending''), d'))"
  using assms
  by (auto simp: upsert_device_hello_def Let_def andthen_def split: option.splits prod.splits sum.splits)

lemma set_device_group_eq:
  "set_device_group rid g i d =
     (if \<exists>k. g = Some k \<and> (\<forall>x \<in> set (db_groups d). \<not> (gr_id x = k \<and> gr_room_id x = rid))
      then (Inl (Bail ''group not found''), d)
      else if \<forall>r \<in> set (db_devices d). \<not> (dv_id r = i \<and> dv_room_id r = rid)
      then (Inl (Bail ''device not found''), d)
      else (Inr (), d\<lparr>db_devices := update_where (\<lambda>r. dv_id r = i \<and> dv_room_id r = rid)
                        (\<lambda>r. r\<lparr>dv_group_id := g\<rparr>) (db_devices d)\<rparr>))"
proof (cases "\<forall>r \<in> set (db_devices d). \<not> (dv_id r = i \<and> dv_room_id r = rid)")
  case True
  then show ?thesis
    by (cases g) (auto simp: set_device_group_def andthen_def update_devices_group_def
        update_devices_def update_where_none count_where_0)
next
  case False
  then show ?thesis
    by (cases g) (auto simp: set_device_group_def andthen_def update_devices_group_def
        update_devices_def count_where_0 dangling_opt_def dangling_def)
qed

lemma delete_device_eq:
  "delete_device rid i d = (Inr (), d\<lparr>
     db_pushes := delete_where (\<lambda>p. pu_device_id p = i) (db_pushes d),
     db_events := delete_where (\<lambda>e. ei_device_id e = i) (db_events d),
     db_devices := delete_where (\<lambda>r. dv_id r = i \<and> dv_room_id r = rid) (db_devices d)\<rparr>)"
  by (auto simp: delete_device_def transaction_def andthen_def delete_pushes_def delete_events_def
      delete_devices_def Let_def)

text \<open>The edited row of a device.\<close>

definition edit_device :: "update_device_request \<Rightarrow> device_row \<Rightarrow> device_row" where
  "edit_device req r = r\<lparr>
     dv_display_name := (case ud_display_name req of Some n \<Rightarrow> n | None \<Rightarrow> dv_display_name r),
     dv_group_id := coalesce (ud_group_id req) (dv_group_id r),
     dv_network_ip := coalesce (ud_network_ip req) (dv_network_ip r),
     dv_network_node_id := coalesce (ud_network_node_id req) (dv_network_node_id r)\<rparr>"

lemma update_device_eq:
  assumes "db_ok d"
  shows "update_device rid i req d =
    (case row_by dv_id i (db_devices d) of
       None \<Rightarrow> (Inl (Bail ''device not found''), d)
     | Some r \<Rightarrow>
         if dv_room_id r \<noteq> rid then (Inl (Bail ''device not found''), d)
         else if dangling_opt d (group_ids d) (coalesce (ud_group_id req) (dv_group_id r))
         then (Inl (SqlError ForeignKeyViolation), d)
         else (Inr (), d\<lparr>db_devices := update_where (\<lambda>r. dv_id r = i) (edit_device req)
                           (db_devices d)\<rparr>))"
proof (cases "row_by dv_id i (db_devices d)")
  case None
  then show ?thesis
    using assms by (simp add: update_device_def devices_t.fetch_by_key)
next
  case (Some r)
  then have r: "r \<in> set (db_devices d)" "dv_id r = i"
    by (auto dest: row_by_Some)
  have same: "x = r" if "x \<in> set (db_devices d)" "dv_id x = i" for x
    using devices_t.row_unique [OF assms that(1) r(1)] that(2) r(2) by simp
  show ?thesis
  proof (cases "dv_room_id r = rid")
    case False
    with Some assms show ?thesis
      by (simp add: update_device_def devices_t.fetch_by_key)
  next
    case True
    define F where "F x = x\<lparr>
       dv_display_name := (case ud_display_name req of Some n \<Rightarrow> n | None \<Rightarrow> dv_display_name r),
       dv_group_id := coalesce (ud_group_id req) (dv_group_id r),
       dv_network_ip := coalesce (ud_network_ip req) (dv_network_ip r),
       dv_network_node_id := coalesce (ud_network_node_id req) (dv_network_node_id r)\<rparr>"
      for x :: device_row
    let ?P = "\<lambda>x. dv_id x = i \<and> dv_room_id x = rid"
    have body: "update_device rid i req d = andthen (update_devices_group ?P F) (\<lambda>_. ret ()) d"
      using Some True assms
      by (simp add: update_device_def devices_t.fetch_by_key Let_def F_def [abs_def])
    have upd: "update_where ?P F (db_devices d) =
        update_where (\<lambda>x. dv_id x = i) (edit_device req) (db_devices d)"
      unfolding update_where_def
    proof (rule map_cong [OF refl])
      fix x assume x: "x \<in> set (db_devices d)"
      show "(if ?P x then F x else x) = (if dv_id x = i then edit_device req x else x)"
      proof (cases "dv_id x = i")
        case True
        with same [OF x] \<open>dv_room_id r = rid\<close> show ?thesis
          by (simp add: F_def edit_device_def)
      qed simp
    qed
    show ?thesis
      using Some True
      by (simp add: body andthen_def update_devices_group_def update_devices_def upd)
        (use r True in \<open>auto simp: F_def\<close>)
  qed
qed

section \<open>The status of devices\<close>

definition known_status :: "string \<Rightarrow> bool" where
  "known_status s \<longleftrightarrow> s = ''pending'' \<or> s = ''online'' \<or> s = ''offline'' \<or> s = ''kicked''"

definition is_kicked :: "string \<Rightarrow> device_row list \<Rightarrow> bool" where
  "is_kicked i t \<longleftrightarrow> (\<exists>r \<in> set t. dv_id r = i \<and> dv_status r = ''kicked'')"

lemma known_status_unless [simp]:
  "known_status (online_unless_kicked s)" "known_status (offline_unless_kicked s)"
  by (simp_all add: known_status_def online_unless_kicked_def offline_unless_kicked_def)

lemma update_devices_kicked:
  "(\<And>r. dv_status r = ''kicked'' \<Longrightarrow> dv_status (f r) = ''kicked'') \<Longrightarrow> (\<And>r. dv_id (f r) = dv_id r) \<Longrightarrow>
     keeps (\<lambda>d. is_kicked i (db_devices d)) (update_devices P f)"
  "(\<And>r. dv_status r = ''kicked'' \<Longrightarrow> dv_status (f r) = ''kicked'') \<Longrightarrow> (\<And>r. dv_id (f r) = dv_id r) \<Longrightarrow>
     keeps (\<lambda>d. is_kicked i (db_devices d)) (update_devices_group P f)"
  "keeps (\<lambda>d. is_kicked i (db_devices d)) (insert_device v)"
  unfolding is_kicked_def by (rule keeps_some_device; simp)+

end
