(* ===== verification/Db_Groups.thy ===== *)
theory Db_Groups
  imports Db_Devices
begin

text \<open>
  The operations of \<open>src/db.rs\<close> on groups: the configuration of a group is stored with its
  token, server address and password encrypted one by one and the rest encrypted as JSON;
  \<open>device_config\<close> computes the configuration that a device is sent. The nonces of the
  encryptions, in the order token, server, password, rest, are an argument.
\<close>

section \<open>Encrypting and decrypting a configuration\<close>

type_synonym nonces = "bytes \<times> bytes \<times> bytes \<times> bytes"

text \<open>The key context \<open>format!("group:{}:<field>", id)\<close>.\<close>

definition group_context :: "string \<Rightarrow> string \<Rightarrow> string" where
  "group_context gid field = ''group:'' @ gid @ '':'' @ field"

definition strip_secrets :: "vnt_client_config \<Rightarrow> vnt_client_config" where
  "strip_secrets c = c\<lparr>vc_token := [], vc_server_address := [], vc_password := None\<rparr>"

definition encrypted_extra_config ::
    "host \<Rightarrow> bytes \<Rightarrow> string \<Rightarrow> string \<Rightarrow> vnt_client_config \<Rightarrow> error + string" where
  "encrypted_extra_config h nonce master gid config =
     result_then (lib ''serde_json'' (h_config_json h (strip_secrets config))) (\<lambda>json.
     encrypt_to_base64 h nonce master (group_context gid ''config'') json)"

definition encrypt_optional_field ::
    "host \<Rightarrow> bytes \<Rightarrow> string \<Rightarrow> string \<Rightarrow> string option \<Rightarrow> error + string option" where
  "encrypt_optional_field h nonce master context v =
     map_transpose (encrypt_to_base64 h nonce master context) v"

definition decrypt_group_config ::
    "host \<Rightarrow> string \<Rightarrow> string option \<Rightarrow> string option \<Rightarrow> string option \<Rightarrow> string option \<Rightarrow>
     error + vnt_client_config option" where
  "decrypt_group_config h gid encrypted_token encrypted_server encrypted_password extra_config =
     (case extra_config of
        None \<Rightarrow> Inr None
      | Some extra \<Rightarrow>
          let master = master_key h in
          result_then (decrypt_from_base64 h master (group_context gid ''config'') extra) (\<lambda>extra_json.
          result_then (lib ''serde_json'' (h_config_of_json h extra_json)) (\<lambda>config.
          result_then (map_transpose (decrypt_from_base64 h master (group_context gid ''token''))
              encrypted_token) (\<lambda>token.
          result_then (map_transpose (decrypt_from_base64 h master (group_context gid ''server''))
              encrypted_server) (\<lambda>server.
          result_then (map_transpose (decrypt_from_base64 h master (group_context gid ''password''))
              encrypted_password) (\<lambda>password.
          let config = (case token of Some v \<Rightarrow> config\<lparr>vc_token := v\<rparr> | None \<Rightarrow> config);
              config = (case server of Some v \<Rightarrow> config\<lparr>vc_server_address := v\<rparr> | None \<Rightarrow> config);
              config = (case password of Some v \<Rightarrow> config\<lparr>vc_password := Some v\<rparr> | None \<Rightarrow> config)
          in Inr (Some config)))))))"

section \<open>Creating groups\<close>

definition create_group ::
    "host \<Rightarrow> string \<Rightarrow> nonces \<Rightarrow> i64 \<Rightarrow> string \<Rightarrow> string \<Rightarrow> vnt_client_config \<Rightarrow> group db_op" where
  "create_group h uuid nonces now rid name config =
     (let (n_token, n_server, n_password, n_config) = nonces; master = master_key h in
      andthen (of_result (encrypt_to_base64 h n_token master (group_context uuid ''token'')
        (vc_token config))) (\<lambda>encrypted_token.
      andthen (of_result (encrypt_to_base64 h n_server master (group_context uuid ''server'')
        (vc_server_address config))) (\<lambda>encrypted_server.
      andthen (of_result (encrypt_optional_field h n_password master (group_context uuid ''password'')
        (vc_password config))) (\<lambda>encrypted_password.
      andthen (of_result (encrypted_extra_config h n_config master uuid config)) (\<lambda>extra_config.
      andthen (insert_group \<lparr> gr_id = uuid, gr_room_id = rid, gr_name = name,
          gr_encrypted_token = Some encrypted_token, gr_encrypted_server = Some encrypted_server,
          gr_encrypted_password = encrypted_password, gr_extra_config = Some extra_config,
          gr_config_version = 1, gr_created_at = now, gr_updated_at = now \<rparr>) (\<lambda>_.
      ret \<lparr> grp_id = uuid, grp_room_id = rid, grp_name = name, grp_config_version = 1,
            grp_created_at = now, grp_updated_at = now, grp_config = Some config \<rparr>))))))"

definition create_group_with_version ::
    "host \<Rightarrow> string \<Rightarrow> nonces \<Rightarrow> i64 \<Rightarrow> i64 \<Rightarrow> string \<Rightarrow> string \<Rightarrow> vnt_client_config \<Rightarrow> i64 \<Rightarrow>
     group db_op" where
  "create_group_with_version h uuid nonces now1 now2 rid name config config_version =
     andthen (create_group h uuid nonces now1 rid name config) (\<lambda>group.
     let version = max config_version 1 in
     if version \<noteq> grp_config_version group then
       andthen (update_groups (\<lambda>g. gr_id g = grp_id group)
         (\<lambda>g. g\<lparr>gr_config_version := version, gr_updated_at := now2\<rparr>)) (\<lambda>_.
       ret (group\<lparr>grp_config_version := version, grp_updated_at := now2\<rparr>))
     else ret group)"

section \<open>Listing and updating groups\<close>

definition decrypt_row :: "host \<Rightarrow> group_row \<Rightarrow> error + vnt_client_config option" where
  "decrypt_row h r = decrypt_group_config h (gr_id r) (gr_encrypted_token r)
     (gr_encrypted_server r) (gr_encrypted_password r) (gr_extra_config r)"

fun group_list :: "host \<Rightarrow> group_row list \<Rightarrow> error + group list" where
  "group_list h [] = Inr []"
| "group_list h (row # rows) =
     result_then (decrypt_row h row) (\<lambda>config.
     result_then (group_list h rows) (\<lambda>groups.
     Inr (\<lparr> grp_id = gr_id row, grp_room_id = gr_room_id row, grp_name = gr_name row,
            grp_config_version = gr_config_version row, grp_created_at = gr_created_at row,
            grp_updated_at = gr_updated_at row, grp_config = config \<rparr> # groups)))"

definition list_groups :: "host \<Rightarrow> string \<Rightarrow> group list db_op" where
  "list_groups h rid =
     andthen (reading (\<lambda>d. order_desc gr_created_at
       (select_where (\<lambda>g. gr_room_id g = rid) (db_groups d)))) (\<lambda>rows.
     of_result (group_list h rows))"

definition update_group ::
    "host \<Rightarrow> nonces \<Rightarrow> i64 \<Rightarrow> string \<Rightarrow> string \<Rightarrow> update_group_request \<Rightarrow> group db_op" where
  "update_group h nonces now rid gid req =
     (let (n_token, n_server, n_password, n_config) = nonces; master = master_key h in
      andthen (reading (\<lambda>d. fetch_optional (\<lambda>g. gr_id g = gid \<and> gr_room_id g = rid) (db_groups d)))
      (\<lambda>row. case row of
         None \<Rightarrow> fail (Bail ''group not found'')
       | Some row \<Rightarrow>
         let name = (case ug_name req of Some n \<Rightarrow> n | None \<Rightarrow> gr_name row);
             version = i64_add (gr_config_version row) 1;
             created_at = gr_created_at row in
         andthen (of_result (decrypt_group_config h gid (gr_encrypted_token row)
           (gr_encrypted_server row) (gr_encrypted_password row) (gr_extra_config row)))
         (\<lambda>current_config.
         andthen (of_result (map_transpose (\<lambda>v. encrypt_to_base64 h n_token master
           (group_context gid ''token'') (vc_token v)) (ug_config req))) (\<lambda>encrypted_token.
         andthen (of_result (map_transpose (\<lambda>v. encrypt_to_base64 h n_server master
           (group_context gid ''server'') (vc_server_address v)) (ug_config req))) (\<lambda>encrypted_server.
         andthen (case ug_config req of
             Some config \<Rightarrow> of_result (encrypt_optional_field h n_password master
               (group_context gid ''password'') (vc_password config))
           | None \<Rightarrow> ret (gr_encrypted_password row)) (\<lambda>encrypted_password.
         andthen (of_result (map_transpose (encrypted_extra_config h n_config master gid)
           (ug_config req))) (\<lambda>extra_config.
         andthen (update_groups (\<lambda>g. gr_id g = gid \<and> gr_room_id g = rid) (\<lambda>g. g\<lparr>
           gr_name := name,
           gr_encrypted_token := coalesce encrypted_token (gr_encrypted_token g),
           gr_encrypted_server := coalesce encrypted_server (gr_encrypted_server g),
           gr_encrypted_password := encrypted_password,
           gr_extra_config := coalesce extra_config (gr_extra_config g),
           gr_config_version := version,
           gr_updated_at := now\<rparr>)) (\<lambda>_.
         ret \<lparr> grp_id = gid, grp_room_id = rid, grp_name = name, grp_config_version = version,
               grp_created_at = created_at, grp_updated_at = now,
               grp_config = coalesce (ug_config req) current_config \<rparr>))))))))"

definition delete_group :: "string \<Rightarrow> string \<Rightarrow> unit db_op" where
  "delete_group rid gid = transaction (
     andthen (update_devices_group (\<lambda>r. dv_room_id r = rid \<and> dv_group_id r = Some gid)
       (\<lambda>r. r\<lparr>dv_group_id := None\<rparr>)) (\<lambda>_.
     delete_groups (\<lambda>g. gr_id g = gid \<and> gr_room_id g = rid)))"

section \<open>The configuration of a device\<close>

text \<open>The fields that the device row contributes to its configuration.\<close>

definition device_fields :: "device_row \<Rightarrow> string \<Rightarrow> vnt_client_config \<Rightarrow> vnt_client_config" where
  "device_fields row device_id config =
     (let config = config\<lparr>
        vc_device_id := (case dv_network_node_id row of Some n \<Rightarrow> n | None \<Rightarrow> device_id),
        vc_name := dv_display_name row\<rparr>
      in case dv_network_ip row of Some ip \<Rightarrow> config\<lparr>vc_ip := Some ip\<rparr> | None \<Rightarrow> config)"

definition device_config ::
    "host \<Rightarrow> string \<Rightarrow> string option \<Rightarrow> (string option \<times> i64 \<times> vnt_client_config) option db_op" where
  "device_config h device_id override_group_id =
     andthen (reading (\<lambda>d. fetch_optional (\<lambda>r. dv_id r = device_id) (db_devices d))) (\<lambda>row.
     case row of
       None \<Rightarrow> ret None
     | Some row \<Rightarrow>
       andthen (reading (\<lambda>d. Option.bind (dv_group_id row)
         (\<lambda>k. fetch_optional (\<lambda>g. gr_id g = k) (db_groups d)))) (\<lambda>joined.
       andthen (case override_group_id of
           None \<Rightarrow> ret (dv_group_id row, joined)
         | Some gid \<Rightarrow>
             andthen (reading (\<lambda>d. fetch_optional (\<lambda>g. gr_id g = gid) (db_groups d))) (\<lambda>group_row.
             case group_row of
               None \<Rightarrow> fail (Bail ''group not found'')
             | Some g \<Rightarrow> ret (Some gid, Some g))) (\<lambda>(effective_group_id, g).
       let version = (case g of Some g \<Rightarrow> gr_config_version g
                      | None \<Rightarrow> i64_add (dv_config_version row) 1) in
       andthen (case effective_group_id of
           None \<Rightarrow> ret default_config
         | Some gid \<Rightarrow>
             andthen (of_result (decrypt_group_config h gid
               (Option.bind g gr_encrypted_token) (Option.bind g gr_encrypted_server)
               (Option.bind g gr_encrypted_password) (Option.bind g gr_extra_config))) (\<lambda>c.
             ret (case c of None \<Rightarrow> default_config | Some c \<Rightarrow> c))) (\<lambda>config.
       ret (Some (effective_group_id, version, device_fields row device_id config))))))"

section \<open>Preservation of the constraints\<close>

lemma create_group_ok [keeps_intro]: "keeps db_ok (create_group h u ns t rid n c)"
  unfolding create_group_def Let_def by (intro keeps_intro)

lemma create_group_with_version_ok [keeps_intro]:
  "keeps db_ok (create_group_with_version h u ns t t' rid n c v)"
  unfolding create_group_with_version_def Let_def by (intro keeps_intro; simp)

lemma update_group_ok [keeps_intro]: "keeps db_ok (update_group h ns t rid g req)"
  unfolding update_group_def Let_def by (intro keeps_intro; simp)

lemma delete_group_ok [keeps_intro]: "keeps db_ok (delete_group rid g)"
  unfolding delete_group_def by (intro keeps_intro; simp)

lemma group_reads_ok [keeps_intro]: "keeps P (list_groups h rid)" "keeps P (device_config h i g)"
  unfolding list_groups_def device_config_def Let_def by (intro keeps_intro)+

section \<open>Round trip of a stored configuration\<close>

text \<open>
  What storing a configuration relies on beyond the cipher: its strings are UTF-8 (as values
  of \<open>String\<close> are) and serde reads back the JSON it wrote for it.
\<close>

definition config_storable :: "host \<Rightarrow> vnt_client_config \<Rightarrow> bool" where
  "config_storable h c \<longleftrightarrow>
     utf8_string (vc_token c) \<and> utf8_string (vc_server_address c) \<and>
     (case vc_password c of None \<Rightarrow> True | Some p \<Rightarrow> utf8_string p) \<and>
     (case h_config_json h (strip_secrets c) of
        None \<Rightarrow> True
      | Some j \<Rightarrow> utf8_string j \<and> h_config_of_json h j = Some (strip_secrets c))"

fun nonces_ok :: "nonces \<Rightarrow> bool" where
  "nonces_ok (a, b, c, d) \<longleftrightarrow> length a = 12 \<and> length b = 12 \<and> length c = 12 \<and> length d = 12"

text \<open>The four ciphertexts of a row hold a configuration.\<close>

definition row_holds :: "host \<Rightarrow> nonces \<Rightarrow> string \<Rightarrow> vnt_client_config \<Rightarrow> string \<Rightarrow> string \<Rightarrow>
    string option \<Rightarrow> string \<Rightarrow> bool" where
  "row_holds h ns gid c et es ep ec \<longleftrightarrow> (case ns of (n1, n2, n3, n4) \<Rightarrow>
     encrypt_to_base64 h n1 (master_key h) (group_context gid ''token'') (vc_token c) = Inr et \<and>
     encrypt_to_base64 h n2 (master_key h) (group_context gid ''server'') (vc_server_address c) = Inr es \<and>
     encrypt_optional_field h n3 (master_key h) (group_context gid ''password'') (vc_password c) = Inr ep \<and>
     encrypted_extra_config h n4 (master_key h) gid c = Inr ec)"

lemma decrypt_row_holds:
  assumes laws: "cipher_laws h" and "nonces_ok ns" and c: "config_storable h c"
    and holds: "row_holds h ns gid c et es ep ec"
  shows "decrypt_group_config h gid (Some et) (Some es) ep (Some ec) = Inr (Some c)"
proof -
  obtain n1 n2 n3 n4 where ns: "ns = (n1, n2, n3, n4)"
    by (cases ns) auto
  then have len: "length n1 = 12" "length n2 = 12" "length n3 = 12" "length n4 = 12"
    using assms(2) by simp_all
  let ?dec = "\<lambda>f. decrypt_from_base64 h (master_key h) (group_context gid f)"
  have t: "?dec ''token'' et = Inr (vc_token c)"
    by (rule stored.dec_enc [OF laws len(1)]) (use c holds ns in \<open>auto simp: config_storable_def row_holds_def\<close>)
  have s: "?dec ''server'' es = Inr (vc_server_address c)"
    by (rule stored.dec_enc [OF laws len(2)]) (use c holds ns in \<open>auto simp: config_storable_def row_holds_def\<close>)
  have p: "map_transpose (?dec ''password'') ep = Inr (vc_password c)"
    by (rule stored.dec_enc_optional [OF laws len(3)])
      (use c holds ns in \<open>auto simp: config_storable_def row_holds_def encrypt_optional_field_def\<close>)
  obtain j where j: "h_config_json h (strip_secrets c) = Some j"
      and e: "encrypt_to_base64 h n4 (master_key h) (group_context gid ''config'') j = Inr ec"
    using holds ns by (auto simp: row_holds_def encrypted_extra_config_def result_then_Inr)
  then have x: "?dec ''config'' ec = Inr j" and "h_config_of_json h j = Some (strip_secrets c)"
    using c by (auto simp: config_storable_def intro!: stored.dec_enc [OF laws len(4) _ e])
  with t s p show ?thesis
    by (simp add: decrypt_group_config_def Let_def strip_secrets_def split: option.splits)
qed

section \<open>Behaviour of the operations\<close>

lemma create_group_Inr:
  assumes "create_group h u ns t rid n c d = (Inr g, d')"
  shows "\<exists>et es ep ec. row_holds h ns u c et es ep ec \<and>
    d' = d\<lparr>db_groups := db_groups d @ [\<lparr> gr_id = u, gr_room_id = rid, gr_name = n,
      gr_encrypted_token = Some et, gr_encrypted_server = Some es, gr_encrypted_password = ep,
      gr_extra_config = Some ec, gr_config_version = 1, gr_created_at = t, gr_updated_at = t \<rparr>]\<rparr> \<and>
    u \<notin> group_ids d \<and>
    g = \<lparr> grp_id = u, grp_room_id = rid, grp_name = n, grp_config_version = 1,
          grp_created_at = t, grp_updated_at = t, grp_config = Some c \<rparr>"
  using assms
  by (auto simp: create_group_def row_holds_def Let_def andthen_def insert_group_def
      split: prod.splits sum.splits if_splits)

lemma create_group_Inl: "create_group h u ns t rid n c d = (Inl e, d') \<Longrightarrow> d' = d"
  by (auto simp: create_group_def Let_def andthen_def insert_group_def
      split: prod.splits sum.splits if_splits)

lemma update_group_missing:
  assumes "\<forall>g \<in> set (db_groups d). \<not> (gr_id g = gid \<and> gr_room_id g = rid)"
  shows "update_group h ns t rid gid req d = (Inl (Bail ''group not found''), d)"
proof -
  have "fetch_optional (\<lambda>g. gr_id g = gid \<and> gr_room_id g = rid) (db_groups d) = None"
    using assms by (simp add: fetch_optional_None)
  then show ?thesis
    by (simp add: update_group_def Let_def split: prod.splits)
qed

lemma update_group_undecryptable:
  assumes ok: "db_ok d" and row: "row_by gr_id gid (db_groups d) = Some r"
    and bad: "decrypt_row h r = Inl e"
  shows "fst (update_group h ns t rid gid req d) \<noteq> Inr g" and "snd (update_group h ns t rid gid req d) = d"
proof -
  have [simp]: "gr_id r = gid"
    using row by (simp add: row_by_Some)
  have "update_group h ns t rid gid req d = (Inl (Bail ''group not found''), d) \<or>
      update_group h ns t rid gid req d = (Inl e, d)"
    using row bad
    by (auto simp: update_group_def Let_def groups_t.fetch_by_key [OF ok] decrypt_row_def
        split: prod.splits)
  then show "fst (update_group h ns t rid gid req d) \<noteq> Inr g" "snd (update_group h ns t rid gid req d) = d"
    by auto
qed

text \<open>A successful update, with and without a new configuration.\<close>

lemma update_group_Inr:
  assumes ok: "db_ok d" and upd: "update_group h ns t rid gid req d = (Inr g, d')"
  obtains r r' where "row_by gr_id gid (db_groups d) = Some r" "gr_room_id r = rid"
    "row_by gr_id gid (db_groups d') = Some r'"
    "gr_config_version r' = i64_add (gr_config_version r) 1" "gr_room_id r' = rid"
    "gr_name r' = (case ug_name req of Some n \<Rightarrow> n | None \<Rightarrow> gr_name r)"
    "case ug_config req of
       None \<Rightarrow> decrypt_row h r' = decrypt_row h r
     | Some c \<Rightarrow> \<exists>et es ep ec. row_holds h ns gid c et es ep ec \<and>
         gr_encrypted_token r' = Some et \<and> gr_encrypted_server r' = Some es \<and>
         gr_encrypted_password r' = ep \<and> gr_extra_config r' = Some ec"
    "grp_config_version g = i64_add (gr_config_version r) 1"
    "d' = d\<lparr>db_groups := db_groups d'\<rparr>"
    "\<And>k. k \<noteq> gid \<Longrightarrow> row_by gr_id k (db_groups d') = row_by gr_id k (db_groups d)"
proof -
  obtain r where r: "row_by gr_id gid (db_groups d) = Some r" "gr_room_id r = rid" "gr_id r = gid"
    using upd by (auto simp: update_group_def Let_def groups_t.fetch_by_key [OF ok]
        dest: row_by_Some split: prod.splits option.splits if_splits)
  obtain n1 n2 n3 n4 where ns: "ns = (n1, n2, n3, n4)"
    by (cases ns) auto
  note unfold = update_group_def groups_t.fetch_by_key [OF ok] andthen_def update_groups_def Let_def
  show ?thesis
  proof (cases "ug_config req")
    case None
    with upd r ns show ?thesis
      by (auto simp: unfold row_by_update_where decrypt_row_def split: sum.splits
          intro!: that [OF r(1,2)] map_row_by_other)
  next
    case (Some c)
    with upd r ns show ?thesis
      by (auto simp: unfold row_by_update_where row_holds_def result_then_Inr
          encrypt_optional_field_def split: sum.splits
          intro!: that [OF r(1,2)] map_row_by_other)
  qed
qed

lemma create_group_with_version_Inr:
  assumes "create_group_with_version h u ns t t' rid n c v d = (Inr g, d')"
  shows "\<exists>r. d' = d\<lparr>db_groups := db_groups d @ [r]\<rparr> \<and> u \<notin> group_ids d \<and>
    gr_id r = u \<and> gr_room_id r = rid \<and> gr_name r = n \<and> gr_config_version r = max v 1 \<and>
    grp_id g = u \<and> grp_config_version g = max v 1 \<and> grp_config g = Some c \<and>
    (\<exists>et es ep ec. row_holds h ns u c et es ep ec \<and> gr_encrypted_token r = Some et \<and>
       gr_encrypted_server r = Some es \<and> gr_encrypted_password r = ep \<and> gr_extra_config r = Some ec)"
proof -
  obtain g1 d1 where 1: "create_group h u ns t rid n c d = (Inr g1, d1)"
    using assms by (auto simp: create_group_with_version_def andthen_def split: prod.splits sum.splits)
  have old: "update_where (\<lambda>g. gr_id g = u) f (db_groups d) = db_groups d"
    if "u \<notin> group_ids d" for f
    using that by (intro update_where_none) auto
  show ?thesis
    using assms 1 create_group_Inr [OF 1]
    by (auto simp: create_group_with_version_def andthen_def Let_def update_groups_def
        update_where_def max_def old [unfolded update_where_def] split: if_splits)
qed

text \<open>\<open>delete_group\<close> frees the devices of its room; a device of another room blocks it.\<close>

definition without_group :: "string \<Rightarrow> string \<Rightarrow> database \<Rightarrow> database" where
  "without_group rid gid d = d\<lparr>
     db_devices := update_where (\<lambda>r. dv_room_id r = rid \<and> dv_group_id r = Some gid)
       (\<lambda>r. r\<lparr>dv_group_id := None\<rparr>) (db_devices d),
     db_groups := delete_where (\<lambda>g. gr_id g = gid \<and> gr_room_id g = rid) (db_groups d)\<rparr>"

lemma delete_group_eq:
  "delete_group rid gid d =
     (if db_foreign_keys d \<and> (\<exists>g \<in> set (db_groups d). gr_id g = gid \<and> gr_room_id g = rid) \<and>
         (\<exists>r \<in> set (db_devices d). dv_room_id r \<noteq> rid \<and> dv_group_id r = Some gid)
      then (Inl (SqlError ForeignKeyViolation), d)
      else (Inr (), without_group rid gid d))"
proof -
  let ?P = "\<lambda>r. dv_room_id r = rid \<and> dv_group_id r = Some gid"
  let ?t = "update_where ?P (\<lambda>r. r\<lparr>dv_group_id := None\<rparr>) (db_devices d)"
  let ?dels = "gr_id ` set (select_where (\<lambda>g. gr_id g = gid \<and> gr_room_id g = rid) (db_groups d))"
  have "(\<exists>r \<in> set ?t. \<exists>k \<in> ?dels. dv_group_id r = Some k) \<longleftrightarrow>
      (\<exists>g \<in> set (db_groups d). gr_id g = gid \<and> gr_room_id g = rid) \<and>
      (\<exists>r \<in> set (db_devices d). dv_room_id r \<noteq> rid \<and> dv_group_id r = Some gid)"
    by (auto simp: bex_update_where)
  moreover have "\<not> dangling_opt d ids None" for ids
    by (simp add: dangling_opt_def)
  ultimately show ?thesis
    by (simp add: delete_group_def transaction_def andthen_def update_devices_group_def
        update_devices_def delete_groups_def without_group_def Let_def del: set_select_where)
qed

lemma device_config_state [simp]: "snd (device_config h i g d) = d"
  using keeps_snd [OF group_reads_ok(2) [of "\<lambda>s. s = d"]] by simp

lemma device_config_ungrouped:
  assumes "row_by dv_id i (db_devices d) = Some r" "dv_group_id r = None"
  shows "device_config h i None d =
    (Inr (Some (None, i64_add (dv_config_version r) 1, device_fields r i default_config)), d)"
  using assms by (simp add: device_config_def fetch_optional_key Let_def)

lemma device_config_grouped:
  assumes "row_by dv_id i (db_devices d) = Some r"
    and "dv_group_id r = Some k \<and> ov = None \<or> ov = Some k"
    and "row_by gr_id k (db_groups d) = Some g"
  shows "device_config h i ov d =
    (case decrypt_row h g of
       Inl e \<Rightarrow> (Inl e, d)
     | Inr c \<Rightarrow> (Inr (Some (Some k, gr_config_version g,
         device_fields r i (case c of None \<Rightarrow> default_config | Some c \<Rightarrow> c))), d))"
proof -
  have "gr_id g = k"
    using assms(3) by (simp add: row_by_Some)
  then show ?thesis
    using assms
    by (auto simp: device_config_def fetch_optional_key Let_def decrypt_row_def split: sum.splits)
qed

lemma device_config_missing:
  "row_by dv_id i (db_devices d) = None \<Longrightarrow> device_config h i ov d = (Inr None, d)"
  by (simp add: device_config_def fetch_optional_key)

text \<open>The JSON text of a stored configuration does not depend on the fields stored apart from it.\<close>

lemma extra_config_without_secrets:
  assumes "create_group h u ns t rid n c d = (Inr g1, d1)"
    and "create_group h u ns t rid n (c\<lparr>vc_token := x, vc_server_address := y, vc_password := z\<rparr>) d =
      (Inr g2, d2)"
  shows "map gr_extra_config (db_groups d1) = map gr_extra_config (db_groups d2)"
proof -
  have "strip_secrets (c\<lparr>vc_token := x, vc_server_address := y, vc_password := z\<rparr>) = strip_secrets c"
    by (simp add: strip_secrets_def)
  then have "encrypted_extra_config h nonce m u (c\<lparr>vc_token := x, vc_server_address := y, vc_password := z\<rparr>) =
      encrypted_extra_config h nonce m u c" for nonce m
    by (simp add: encrypted_extra_config_def)
  with create_group_Inr [OF assms(1)] create_group_Inr [OF assms(2)] show ?thesis
    by (cases ns) (auto simp: row_holds_def)
qed

text \<open>Key derivation contexts are separate.\<close>

lemma contexts_separate:
  shows "CHR '':'' \<notin> set fld \<and> CHR '':'' \<notin> set fld' \<Longrightarrow>
      group_context g fld = group_context g' fld' \<longleftrightarrow> g = g' \<and> fld = fld'"
    and "device_push_context i v \<noteq> group_context g fld"
  using append_colon_inject [of fld fld' g g']
  by (auto simp: group_context_def device_push_context_def)

end
