(* ===== verification/Db_Events.thy ===== *)
theory Db_Events
  imports Db_Groups
begin

text \<open>
  The listings of \<open>src/db.rs\<close> that join tables: the events, of the whole hub or of the rooms
  of one owner. A join is the list of the matching pairs; under the constraints of the
  schema it is a selection of the events, which is what the properties are stated over.
\<close>

section \<open>Listing events\<close>

definition list_events :: "string option \<Rightarrow> string option \<Rightarrow> i64 \<Rightarrow> event_item list db_op" where
  "list_events device_id event_type limit =
     (case (device_id, event_type) of
        (Some dev, Some ty) \<Rightarrow> reading (\<lambda>d. sql_limit limit (order_desc ei_created_at
          (select_where (\<lambda>e. ei_device_id e = dev \<and> ei_event_type e = ty) (db_events d))))
      | (Some dev, None) \<Rightarrow> reading (\<lambda>d. sql_limit limit (order_desc ei_created_at
          (select_where (\<lambda>e. ei_device_id e = dev) (db_events d))))
      | (None, Some ty) \<Rightarrow> reading (\<lambda>d. sql_limit limit (order_desc ei_created_at
          (select_where (\<lambda>e. ei_event_type e = ty) (db_events d))))
      | (None, None) \<Rightarrow> reading (\<lambda>d. sql_limit limit (order_desc ei_created_at (db_events d))))"

text \<open>\<open>events e JOIN devices d ON e.device_id = d.id JOIN rooms r ON d.room_id = r.id WHERE
  r.owner_id = ?1\<close>, with a further condition on the event.\<close>

definition owned_events :: "string \<Rightarrow> (event_item \<Rightarrow> bool) \<Rightarrow> database \<Rightarrow> event_item list" where
  "owned_events owner_id P d =
     [e. e \<leftarrow> db_events d, P e, v \<leftarrow> db_devices d, ei_device_id e = dv_id v,
         r \<leftarrow> db_rooms d, dv_room_id v = rm_id r, rm_owner_id r = owner_id]"

definition list_events_for_owner ::
    "string \<Rightarrow> string option \<Rightarrow> string option \<Rightarrow> i64 \<Rightarrow> event_item list db_op" where
  "list_events_for_owner owner_id device_id event_type limit =
     (case (device_id, event_type) of
        (Some dev, Some ty) \<Rightarrow> reading (\<lambda>d. sql_limit limit (order_desc ei_created_at
          (owned_events owner_id (\<lambda>e. ei_device_id e = dev \<and> ei_event_type e = ty) d)))
      | (Some dev, None) \<Rightarrow> reading (\<lambda>d. sql_limit limit (order_desc ei_created_at
          (owned_events owner_id (\<lambda>e. ei_device_id e = dev) d)))
      | (None, Some ty) \<Rightarrow> reading (\<lambda>d. sql_limit limit (order_desc ei_created_at
          (owned_events owner_id (\<lambda>e. ei_event_type e = ty) d)))
      | (None, None) \<Rightarrow> reading (\<lambda>d. sql_limit limit (order_desc ei_created_at
          (owned_events owner_id (\<lambda>_. True) d))))"

section \<open>The listings as selections\<close>

definition event_matches :: "string option \<Rightarrow> string option \<Rightarrow> event_item \<Rightarrow> bool" where
  "event_matches device_id event_type e \<longleftrightarrow>
     (case device_id of None \<Rightarrow> True | Some dev \<Rightarrow> ei_device_id e = dev) \<and>
     (case event_type of None \<Rightarrow> True | Some ty \<Rightarrow> ei_event_type e = ty)"

text \<open>The owner of the room of a device.\<close>

definition room_owner :: "database \<Rightarrow> string \<Rightarrow> string option" where
  "room_owner d rid = map_option rm_owner_id (row_by rm_id rid (db_rooms d))"

definition device_owner :: "database \<Rightarrow> string \<Rightarrow> string option" where
  "device_owner d did =
     Option.bind (row_by dv_id did (db_devices d)) (\<lambda>v. room_owner d (dv_room_id v))"

lemma join_row_by:
  assumes "distinct (map key t)"
  shows "concat (map (\<lambda>r. if k = key r then f r else []) t) =
    (case row_by key k t of None \<Rightarrow> [] | Some r \<Rightarrow> f r)"
  using assms
proof (induction t)
  case (Cons a t)
  have "row_by key k t = None" if "k = key a"
    using that Cons.prems by (auto simp: row_by_None)
  with Cons show ?case
    by auto
qed simp

lemma owned_events_eq:
  assumes "db_ok d"
  shows "owned_events o' P d = filter (\<lambda>e. P e \<and> device_owner d (ei_device_id e) = Some o') (db_events d)"
proof -
  have dist: "distinct (map dv_id (db_devices d))" "distinct (map rm_id (db_rooms d))"
    using assms by (simp_all add: db_ok_def keys_ok_def)
  have concat_single: "concat (map (\<lambda>e. if Q e then [e] else []) es) = filter Q es"
    for Q and es :: "event_item list"
    by (induction es) auto
  have "owned_events o' P d =
      concat (map (\<lambda>e. if P e \<and> device_owner d (ei_device_id e) = Some o' then [e] else []) (db_events d))"
    unfolding owned_events_def join_row_by [OF dist(1)] join_row_by [OF dist(2)]
    by (rule arg_cong [where f = concat], rule map_cong [OF refl])
      (auto simp: device_owner_def room_owner_def split: option.splits)
  then show ?thesis by (simp add: concat_single)
qed

lemma list_events_eq:
  "list_events dev ty n d =
     (Inr (sql_limit n (order_desc ei_created_at (filter (event_matches dev ty) (db_events d)))), d)"
  by (cases dev; cases ty)
    (simp_all add: list_events_def event_matches_def [abs_def] select_where_def)

lemma list_events_for_owner_eq:
  "db_ok d \<Longrightarrow> list_events_for_owner o' dev ty n d =
     (Inr (sql_limit n (order_desc ei_created_at
       (filter (\<lambda>e. event_matches dev ty e \<and> device_owner d (ei_device_id e) = Some o')
         (db_events d)))), d)"
  by (cases dev; cases ty)
    (simp_all add: list_events_for_owner_def owned_events_eq event_matches_def)

lemma event_lists_ok [keeps_intro]:
  "keeps P (list_events dev ty n)" "keeps P (list_events_for_owner o' dev ty n)"
  unfolding list_events_def list_events_for_owner_def
  by (cases dev; cases ty; simp add: keeps_def)+

end
