(* ===== verification/Db_Backup.thy ===== *)
theory Db_Backup
  imports Db_Events
begin

text \<open>
  Export and import of \<open>src/db.rs\<close>. A row is exported as a JSON object of its columns; an
  import binds the values of such objects to the columns of an \<open>INSERT OR IGNORE\<close> (merge) or
  \<open>INSERT OR REPLACE\<close> (overwrite), row by row, in one transaction. The conversion of a bound
  value to the type of its column is SQLite's. A column that is NULL is exported as the empty string,
  which an import stores, also in an INTEGER column. A NULL primary key, and a text in an INTEGER
  column that is \<open>NOT NULL\<close> or looks like a number, are outside the model (\<open>OutsideModel\<close>).
\<close>

section \<open>Values of columns\<close>

definition sql_opt_text :: "string option \<Rightarrow> sql_value" where
  "sql_opt_text x = (case x of None \<Rightarrow> SNull | Some s \<Rightarrow> SText s)"

text \<open>The columns of a row, as \<open>SELECT *\<close> returns them.\<close>

definition user_columns :: "user_row \<Rightarrow> (string \<times> sql_value) list" where
  "user_columns u =
     [(''id'', SText (us_id u)), (''username'', SText (us_username u)),
      (''password'', SText (us_password u)), (''role'', SText (us_role u)),
      (''created_at'', SInt (us_created_at u))]"

definition room_columns :: "room \<Rightarrow> (string \<times> sql_value) list" where
  "room_columns r =
     [(''id'', SText (rm_id r)), (''name'', SText (rm_name r)),
      (''owner_id'', SText (rm_owner_id r)), (''created_at'', SInt (rm_created_at r))]"

definition group_columns :: "group_row \<Rightarrow> (string \<times> sql_value) list" where
  "group_columns g =
     [(''id'', SText (gr_id g)), (''room_id'', SText (gr_room_id g)), (''name'', SText (gr_name g)),
      (''encrypted_token'', sql_opt_text (gr_encrypted_token g)),
      (''encrypted_server'', sql_opt_text (gr_encrypted_server g)),
      (''encrypted_password'', sql_opt_text (gr_encrypted_password g)),
      (''extra_config'', sql_opt_text (gr_extra_config g)),
      (''config_version'', SInt (gr_config_version g)),
      (''created_at'', SInt (gr_created_at g)), (''updated_at'', SInt (gr_updated_at g))]"

definition device_columns :: "device_row \<Rightarrow> (string \<times> sql_value) list" where
  "device_columns r =
     [(''id'', SText (dv_id r)), (''room_id'', SText (dv_room_id r)),
      (''group_id'', sql_opt_text (dv_group_id r)), (''display_name'', SText (dv_display_name r)),
      (''client_version'', sql_opt_text (dv_client_version r)),
      (''console_public_ip'', sql_opt_text (dv_console_public_ip r)),
      (''network_ip'', sql_opt_text (dv_network_ip r)),
      (''network_node_id'', sql_opt_text (dv_network_node_id r)),
      (''device_token'', SText (dv_device_token r)), (''last_seen'', dv_last_seen r),
      (''status'', SText (dv_status r)), (''vnts_status'', sql_opt_text (dv_vnts_status r)),
      (''vnts_error'', sql_opt_text (dv_vnts_error r)),
      (''vnts_updated_at'', dv_vnts_updated_at r),
      (''config_version'', SInt (dv_config_version r)),
      (''up_stream'', dv_up_stream r),
      (''down_stream'', dv_down_stream r),
      (''traffic_updated_at'', dv_traffic_updated_at r),
      (''created_at'', SInt (dv_created_at r))]"

definition event_columns :: "event_item \<Rightarrow> (string \<times> sql_value) list" where
  "event_columns e =
     [(''id'', SText (ei_id e)), (''device_id'', SText (ei_device_id e)),
      (''event_type'', SText (ei_event_type e)), (''payload'', sql_opt_text (ei_payload e)),
      (''created_at'', SInt (ei_created_at e))]"

definition push_columns :: "push_row \<Rightarrow> (string \<times> sql_value) list" where
  "push_columns p =
     [(''id'', SText (pu_id p)), (''device_id'', SText (pu_device_id p)),
      (''group_id'', sql_opt_text (pu_group_id p)),
      (''config_snapshot'', SText (pu_config_snapshot p)),
      (''pushed_at'', SInt (pu_pushed_at p)), (''acked'', SInt (pu_acked p))]"

definition system_columns :: "system_row \<Rightarrow> (string \<times> sql_value) list" where
  "system_columns s =
     [(''key'', SText (sy_key s)), (''value'', SText (sy_value s)),
      (''updated_at'', SInt (sy_updated_at s))]"

section \<open>Export\<close>

text \<open>
  The value of a column in \<open>export_query\<close>: a \<open>String\<close>, else an \<open>i64\<close>, else null. \<open>try_get\<close> checks the
  type of a value only when it is not NULL, and a NULL decodes to the empty \<open>String\<close>.
\<close>

fun json_of_sql :: "sql_value \<Rightarrow> json" where
  "json_of_sql (SText s) = JStr s"
| "json_of_sql (SInt v) = json_of_i64 v"
| "json_of_sql SNull = JStr []"

definition export_row :: "(string \<times> sql_value) list \<Rightarrow> json" where
  "export_row cols = JObj (map (\<lambda>(name, v). (name, json_of_sql v)) cols)"

definition export_query :: "('r \<Rightarrow> (string \<times> sql_value) list) \<Rightarrow> 'r list \<Rightarrow> json list" where
  "export_query cols rows = map (\<lambda>r. export_row (cols r)) rows"

definition export_backup :: "backup_data db_op" where
  "export_backup = reading (\<lambda>d. \<lparr>
     bd_users = export_query user_columns (db_users d),
     bd_rooms = export_query room_columns (db_rooms d),
     bd_groups = export_query group_columns (db_groups d),
     bd_devices = export_query device_columns (db_devices d),
     bd_events = export_query event_columns (db_events d),
     bd_config_pushes = export_query push_columns (db_pushes d),
     bd_system_config = export_query system_columns (db_system d) \<rparr>)"

definition export_user_backup :: "string \<Rightarrow> backup_data db_op" where
  "export_user_backup user_id = reading (\<lambda>d. \<lparr>
     bd_users = export_query user_columns (select_where (\<lambda>u. us_id u = user_id) (db_users d)),
     bd_rooms = export_query room_columns (select_where (\<lambda>r. rm_owner_id r = user_id) (db_rooms d)),
     bd_groups = export_query group_columns
       [g. g \<leftarrow> db_groups d, r \<leftarrow> db_rooms d, gr_room_id g = rm_id r, rm_owner_id r = user_id],
     bd_devices = export_query device_columns
       [v. v \<leftarrow> db_devices d, r \<leftarrow> db_rooms d, dv_room_id v = rm_id r, rm_owner_id r = user_id],
     bd_events = export_query event_columns
       [e. e \<leftarrow> db_events d, v \<leftarrow> db_devices d, ei_device_id e = dv_id v,
           r \<leftarrow> db_rooms d, dv_room_id v = rm_id r, rm_owner_id r = user_id],
     bd_config_pushes = export_query push_columns
       [c. c \<leftarrow> db_pushes d, v \<leftarrow> db_devices d, pu_device_id c = dv_id v,
           r \<leftarrow> db_rooms d, dv_room_id v = rm_id r, rm_owner_id r = user_id],
     bd_system_config = [] \<rparr>)"

section \<open>Binding and conversion\<close>

definition bind_value :: "host \<Rightarrow> json \<Rightarrow> sql_value" where
  "bind_value h value =
     (case as_i64 value of
        Some v \<Rightarrow> SInt v
      | None \<Rightarrow> (case as_u64 value of
          Some v \<Rightarrow> SInt (u64_as_i64 v)
        | None \<Rightarrow> (case as_str value of
            Some v \<Rightarrow> SText v
          | None \<Rightarrow> if value = JNull then SNull else SText (h_json_text h value))))"

type_synonym binding = "string \<Rightarrow> sql_value"

definition bind_row :: "host \<Rightarrow> string list \<Rightarrow> (string \<times> json) list \<Rightarrow> binding" where
  "bind_row h columns obj column =
     (if column \<in> set columns
      then bind_value h (case map_of obj column of Some v \<Rightarrow> v | None \<Rightarrow> JNull)
      else SNull)"

text \<open>
  A nullable column, a primary key, and a \<open>NOT NULL\<close> column: under \<open>OR REPLACE\<close> a NULL takes the
  default of the column, where it has one; otherwise it violates the constraint. An INTEGER column
  stores a text as it is, unless it looks like a number; without a digit it does not.
\<close>

definition no_digit :: "string \<Rightarrow> bool" where
  "no_digit s \<longleftrightarrow> list_all (\<lambda>c. c \<notin> set ''0123456789'') s"

fun text_column :: "sql_value \<Rightarrow> error + string option" where
  "text_column SNull = Inr None"
| "text_column (SInt v) = Inr (Some (show_int v))"
| "text_column (SText s) = Inr (Some s)"

fun int_column :: "sql_value \<Rightarrow> error + sql_value" where
  "int_column (SText s) = (if no_digit s then Inr (SText s) else Inl OutsideModel)"
| "int_column v = Inr v"

fun int_value :: "sql_value \<Rightarrow> error + i64 option" where
  "int_value SNull = Inr None"
| "int_value (SInt v) = Inr (Some v)"
| "int_value (SText s) = Inl OutsideModel"

definition key_column :: "sql_value \<Rightarrow> error + string" where
  "key_column v = result_then (text_column v) (ok_or OutsideModel)"

definition not_null :: "bool \<Rightarrow> 'a option \<Rightarrow> 'a option \<Rightarrow> error + 'a" where
  "not_null overwrite dflt v =
     ok_or (SqlError NotNullViolation) (coalesce v (if overwrite then dflt else None))"

abbreviation req_text :: "bool \<Rightarrow> string option \<Rightarrow> sql_value \<Rightarrow> error + string" where
  "req_text ow dflt v \<equiv> result_then (text_column v) (not_null ow dflt)"

abbreviation req_int :: "bool \<Rightarrow> i64 option \<Rightarrow> sql_value \<Rightarrow> error + i64" where
  "req_int ow dflt v \<equiv> result_then (int_value v) (not_null ow dflt)"

definition user_of_binding :: "bool \<Rightarrow> binding \<Rightarrow> error + user_row" where
  "user_of_binding ow b =
     result_then (key_column (b ''id'')) (\<lambda>i.
     result_then (req_text ow None (b ''username'')) (\<lambda>username.
     result_then (req_text ow None (b ''password'')) (\<lambda>password.
     result_then (req_text ow (Some ''user'') (b ''role'')) (\<lambda>role.
     result_then (req_int ow None (b ''created_at'')) (\<lambda>created_at.
     Inr \<lparr> us_id = i, us_username = username, us_password = password, us_role = role,
           us_created_at = created_at \<rparr>)))))"

definition room_of_binding :: "bool \<Rightarrow> binding \<Rightarrow> error + room" where
  "room_of_binding ow b =
     result_then (key_column (b ''id'')) (\<lambda>i.
     result_then (req_text ow None (b ''name'')) (\<lambda>name.
     result_then (req_text ow None (b ''owner_id'')) (\<lambda>owner_id.
     result_then (req_int ow None (b ''created_at'')) (\<lambda>created_at.
     Inr \<lparr> rm_id = i, rm_name = name, rm_owner_id = owner_id, rm_created_at = created_at \<rparr>))))"

definition group_of_binding :: "bool \<Rightarrow> binding \<Rightarrow> error + group_row" where
  "group_of_binding ow b =
     result_then (key_column (b ''id'')) (\<lambda>i.
     result_then (req_text ow None (b ''room_id'')) (\<lambda>rid.
     result_then (req_text ow None (b ''name'')) (\<lambda>name.
     result_then (text_column (b ''encrypted_token'')) (\<lambda>token.
     result_then (text_column (b ''encrypted_server'')) (\<lambda>server.
     result_then (text_column (b ''encrypted_password'')) (\<lambda>password.
     result_then (text_column (b ''extra_config'')) (\<lambda>extra.
     result_then (req_int ow (Some 1) (b ''config_version'')) (\<lambda>version.
     result_then (req_int ow None (b ''created_at'')) (\<lambda>created_at.
     result_then (req_int ow None (b ''updated_at'')) (\<lambda>updated_at.
     Inr \<lparr> gr_id = i, gr_room_id = rid, gr_name = name, gr_encrypted_token = token,
           gr_encrypted_server = server, gr_encrypted_password = password,
           gr_extra_config = extra, gr_config_version = version, gr_created_at = created_at,
           gr_updated_at = updated_at \<rparr>))))))))))"

definition device_of_binding :: "bool \<Rightarrow> binding \<Rightarrow> error + device_row" where
  "device_of_binding ow b =
     result_then (key_column (b ''id'')) (\<lambda>i.
     result_then (req_text ow None (b ''room_id'')) (\<lambda>rid.
     result_then (text_column (b ''group_id'')) (\<lambda>gid.
     result_then (req_text ow None (b ''display_name'')) (\<lambda>display_name.
     result_then (text_column (b ''client_version'')) (\<lambda>client_version.
     result_then (text_column (b ''console_public_ip'')) (\<lambda>ip.
     result_then (text_column (b ''network_ip'')) (\<lambda>network_ip.
     result_then (text_column (b ''network_node_id'')) (\<lambda>node_id.
     result_then (req_text ow None (b ''device_token'')) (\<lambda>token.
     result_then (int_column (b ''last_seen'')) (\<lambda>last_seen.
     result_then (req_text ow (Some ''pending'') (b ''status'')) (\<lambda>status.
     result_then (text_column (b ''vnts_status'')) (\<lambda>vnts_status.
     result_then (text_column (b ''vnts_error'')) (\<lambda>vnts_error.
     result_then (int_column (b ''vnts_updated_at'')) (\<lambda>vnts_updated_at.
     result_then (req_int ow (Some 0) (b ''config_version'')) (\<lambda>version.
     result_then (int_column (b ''up_stream'')) (\<lambda>up.
     result_then (int_column (b ''down_stream'')) (\<lambda>down.
     result_then (int_column (b ''traffic_updated_at'')) (\<lambda>traffic_updated_at.
     result_then (req_int ow None (b ''created_at'')) (\<lambda>created_at.
     Inr \<lparr> dv_id = i, dv_room_id = rid, dv_group_id = gid, dv_display_name = display_name,
           dv_client_version = client_version, dv_console_public_ip = ip,
           dv_network_ip = network_ip, dv_network_node_id = node_id, dv_device_token = token,
           dv_last_seen = last_seen, dv_status = status, dv_vnts_status = vnts_status,
           dv_vnts_error = vnts_error, dv_vnts_updated_at = vnts_updated_at,
           dv_config_version = version, dv_up_stream = up, dv_down_stream = down,
           dv_traffic_updated_at = traffic_updated_at,
           dv_created_at = created_at \<rparr>)))))))))))))))))))"

definition event_of_binding :: "bool \<Rightarrow> binding \<Rightarrow> error + event_item" where
  "event_of_binding ow b =
     result_then (key_column (b ''id'')) (\<lambda>i.
     result_then (req_text ow None (b ''device_id'')) (\<lambda>did.
     result_then (req_text ow None (b ''event_type'')) (\<lambda>ty.
     result_then (text_column (b ''payload'')) (\<lambda>payload.
     result_then (req_int ow None (b ''created_at'')) (\<lambda>created_at.
     Inr \<lparr> ei_id = i, ei_device_id = did, ei_event_type = ty, ei_payload = payload,
           ei_created_at = created_at \<rparr>)))))"

definition push_of_binding :: "bool \<Rightarrow> binding \<Rightarrow> error + push_row" where
  "push_of_binding ow b =
     result_then (key_column (b ''id'')) (\<lambda>i.
     result_then (req_text ow None (b ''device_id'')) (\<lambda>did.
     result_then (text_column (b ''group_id'')) (\<lambda>gid.
     result_then (req_text ow None (b ''config_snapshot'')) (\<lambda>snapshot.
     result_then (req_int ow None (b ''pushed_at'')) (\<lambda>pushed_at.
     result_then (req_int ow (Some 0) (b ''acked'')) (\<lambda>acked.
     Inr \<lparr> pu_id = i, pu_device_id = did, pu_group_id = gid, pu_config_snapshot = snapshot,
           pu_pushed_at = pushed_at, pu_acked = acked \<rparr>))))))"

definition system_of_binding :: "bool \<Rightarrow> binding \<Rightarrow> error + system_row" where
  "system_of_binding ow b =
     result_then (key_column (b ''key'')) (\<lambda>k.
     result_then (req_text ow None (b ''value'')) (\<lambda>v.
     result_then (req_int ow None (b ''updated_at'')) (\<lambda>updated_at.
     Inr \<lparr> sy_key = k, sy_value = v, sy_updated_at = updated_at \<rparr>)))"

section \<open>Import\<close>

text \<open>
  \<open>INSERT OR IGNORE\<close> skips a row that violates a uniqueness or \<open>NOT NULL\<close> constraint,
  \<open>INSERT OR REPLACE\<close> first removes the rows it conflicts with; a foreign key violation fails the
  statement in both. The result says whether a row was affected. \<open>ins\<close> is the plain insertion,
  \<open>del r\<close> removes the rows that \<open>r\<close> conflicts with, \<open>orphans r\<close> says that a removed row leaves a
  reference behind.
\<close>

definition insert_or ::
    "('r \<Rightarrow> unit db_op) \<Rightarrow> ('r \<Rightarrow> database \<Rightarrow> database) \<Rightarrow> ('r \<Rightarrow> database \<Rightarrow> bool) \<Rightarrow>
     bool \<Rightarrow> error + 'r \<Rightarrow> bool db_op" where
  "insert_or ins del orphans overwrite row d =
     (case row of
        Inl e \<Rightarrow> if e = SqlError NotNullViolation \<and> \<not> overwrite then (Inr False, d) else (Inl e, d)
      | Inr r \<Rightarrow>
          if overwrite then
            (if orphans r d then (Inl (SqlError ForeignKeyViolation), d)
             else case ins r (del r d) of
                    (Inr _, d') \<Rightarrow> (Inr True, d')
                  | (Inl e, _) \<Rightarrow> (Inl e, d))
          else
            (case ins r d of
               (Inr _, d') \<Rightarrow> (Inr True, d')
             | (Inl e, _) \<Rightarrow> if e = SqlError UniqueViolation then (Inr False, d) else (Inl e, d)))"

definition insert_system :: "system_row \<Rightarrow> unit db_op" where
  "insert_system s d =
     (if sy_key s \<in> sy_key ` set (db_system d) then unique_violation d
      else (Inr (), d\<lparr>db_system := db_system d @ [s]\<rparr>))"

definition no_orphans :: "'r \<Rightarrow> database \<Rightarrow> bool" where
  "no_orphans r d = False"

definition conflicting_user :: "user_row \<Rightarrow> user_row \<Rightarrow> bool" where
  "conflicting_user u x \<longleftrightarrow> us_id x = us_id u \<or> us_username x = us_username u"

definition user_orphans :: "user_row \<Rightarrow> database \<Rightarrow> bool" where
  "user_orphans u d \<longleftrightarrow>
     (let gone = us_id ` set (select_where (conflicting_user u) (db_users d)) - {us_id u} in
      db_foreign_keys d \<and>
      ((\<exists>r \<in> set (db_rooms d). rm_owner_id r \<in> gone) \<or>
       (\<exists>s \<in> set (db_sessions d). ss_user_id s \<in> gone)))"

definition insert_or_user :: "bool \<Rightarrow> error + user_row \<Rightarrow> bool db_op" where
  "insert_or_user = insert_or insert_user
     (\<lambda>u d. d\<lparr>db_users := delete_where (conflicting_user u) (db_users d)\<rparr>) user_orphans"

definition insert_or_room :: "bool \<Rightarrow> error + room \<Rightarrow> bool db_op" where
  "insert_or_room = insert_or insert_room
     (\<lambda>r d. d\<lparr>db_rooms := delete_where (\<lambda>x. rm_id x = rm_id r) (db_rooms d)\<rparr>) no_orphans"

definition insert_or_group :: "bool \<Rightarrow> error + group_row \<Rightarrow> bool db_op" where
  "insert_or_group = insert_or insert_group
     (\<lambda>g d. d\<lparr>db_groups := delete_where (\<lambda>x. gr_id x = gr_id g) (db_groups d)\<rparr>) no_orphans"

definition insert_or_device :: "bool \<Rightarrow> error + device_row \<Rightarrow> bool db_op" where
  "insert_or_device = insert_or insert_device
     (\<lambda>r d. d\<lparr>db_devices := delete_where (\<lambda>x. dv_id x = dv_id r) (db_devices d)\<rparr>) no_orphans"

definition insert_or_event :: "bool \<Rightarrow> error + event_item \<Rightarrow> bool db_op" where
  "insert_or_event = insert_or insert_event
     (\<lambda>e d. d\<lparr>db_events := delete_where (\<lambda>x. ei_id x = ei_id e) (db_events d)\<rparr>) no_orphans"

definition insert_or_push :: "bool \<Rightarrow> error + push_row \<Rightarrow> bool db_op" where
  "insert_or_push = insert_or insert_push
     (\<lambda>p d. d\<lparr>db_pushes := delete_where (\<lambda>x. pu_id x = pu_id p) (db_pushes d)\<rparr>) no_orphans"

definition insert_or_system :: "bool \<Rightarrow> error + system_row \<Rightarrow> bool db_op" where
  "insert_or_system = insert_or insert_system
     (\<lambda>s d. d\<lparr>db_system := delete_where (\<lambda>x. sy_key x = sy_key s) (db_system d)\<rparr>) no_orphans"

text \<open>The loop of \<open>import_rows\<close>, with its two counters; \<open>stmt\<close> executes the statement that the
  loop builds for the table, on the bound values.\<close>

definition skips_admin :: "string \<Rightarrow> bool \<Rightarrow> (string \<times> json) list \<Rightarrow> bool" where
  "skips_admin table skip_admin_user obj \<longleftrightarrow>
     skip_admin_user \<and> table = ''users'' \<and>
     (case Option.bind (map_of obj ''username'') as_str of
        None \<Rightarrow> False | Some v \<Rightarrow> v = ''admin'')"

fun import_loop ::
    "host \<Rightarrow> string \<Rightarrow> string list \<Rightarrow> (bool \<Rightarrow> binding \<Rightarrow> bool db_op) \<Rightarrow> bool \<Rightarrow> bool \<Rightarrow>
     nat \<Rightarrow> nat \<Rightarrow> json list \<Rightarrow> (nat \<times> nat) db_op" where
  "import_loop h table columns stmt skip_admin_user overwrite imported skipped [] =
     ret (imported, skipped)"
| "import_loop h table columns stmt skip_admin_user overwrite imported skipped (row # rows) =
     (case as_object row of
        None \<Rightarrow>
          import_loop h table columns stmt skip_admin_user overwrite imported (skipped + 1) rows
      | Some obj \<Rightarrow>
          if skips_admin table skip_admin_user obj then
            import_loop h table columns stmt skip_admin_user overwrite imported (skipped + 1) rows
          else
            andthen (stmt overwrite (bind_row h columns obj)) (\<lambda>affected.
            if affected then
              import_loop h table columns stmt skip_admin_user overwrite (imported + 1) skipped rows
            else
              import_loop h table columns stmt skip_admin_user overwrite imported (skipped + 1) rows))"

definition import_rows ::
    "host \<Rightarrow> string \<Rightarrow> string list \<Rightarrow> (bool \<Rightarrow> binding \<Rightarrow> bool db_op) \<Rightarrow> json list \<Rightarrow> bool \<Rightarrow> bool \<Rightarrow>
     backup_table_report db_op" where
  "import_rows h table columns stmt rows skip_admin_user overwrite =
     andthen (import_loop h table columns stmt skip_admin_user overwrite 0 0 rows)
       (\<lambda>(imported, skipped).
     ret \<lparr> tr_table = table, tr_attempted = length rows, tr_imported = imported,
           tr_skipped = skipped \<rparr>)"

definition clear_tables :: "unit db_op" where
  "clear_tables =
     andthen (delete_pushes (\<lambda>_. True)) (\<lambda>_.
     andthen (delete_events (\<lambda>_. True)) (\<lambda>_.
     andthen (delete_devices (\<lambda>_. True)) (\<lambda>_.
     andthen (delete_groups (\<lambda>_. True)) (\<lambda>_.
     andthen (delete_rooms (\<lambda>_. True)) (\<lambda>_.
     andthen (delete_sessions (\<lambda>_. True)) (\<lambda>_.
     andthen (delete_users (\<lambda>_. True)) (\<lambda>_.
     delete_system (\<lambda>_. True))))))))"

definition import_tables :: "host \<Rightarrow> backup_data \<Rightarrow> bool \<Rightarrow> backup_table_report list db_op" where
  "import_tables h data overwrite =
     andthen (import_rows h ''users'' [''id'', ''username'', ''password'', ''role'', ''created_at'']
       (\<lambda>ow b. insert_or_user ow (user_of_binding ow b)) (bd_users data) (\<not> overwrite) overwrite) (\<lambda>t1.
     andthen (import_rows h ''rooms'' [''id'', ''name'', ''owner_id'', ''created_at'']
       (\<lambda>ow b. insert_or_room ow (room_of_binding ow b)) (bd_rooms data) False overwrite) (\<lambda>t2.
     andthen (import_rows h ''groups''
       [''id'', ''room_id'', ''name'', ''encrypted_token'', ''encrypted_server'',
        ''encrypted_password'', ''extra_config'', ''config_version'', ''created_at'', ''updated_at'']
       (\<lambda>ow b. insert_or_group ow (group_of_binding ow b)) (bd_groups data) False overwrite) (\<lambda>t3.
     andthen (import_rows h ''devices''
       [''id'', ''room_id'', ''group_id'', ''display_name'', ''client_version'',
        ''console_public_ip'', ''network_ip'', ''network_node_id'', ''device_token'',
        ''last_seen'', ''status'', ''vnts_status'', ''vnts_error'', ''vnts_updated_at'',
        ''config_version'', ''up_stream'', ''down_stream'', ''traffic_updated_at'', ''created_at'']
       (\<lambda>ow b. insert_or_device ow (device_of_binding ow b)) (bd_devices data) False overwrite) (\<lambda>t4.
     andthen (import_rows h ''events''
       [''id'', ''device_id'', ''event_type'', ''payload'', ''created_at'']
       (\<lambda>ow b. insert_or_event ow (event_of_binding ow b)) (bd_events data) False overwrite) (\<lambda>t5.
     andthen (import_rows h ''config_pushes''
       [''id'', ''device_id'', ''group_id'', ''config_snapshot'', ''pushed_at'', ''acked'']
       (\<lambda>ow b. insert_or_push ow (push_of_binding ow b)) (bd_config_pushes data) False overwrite) (\<lambda>t6.
     andthen (import_rows h ''system_config'' [''key'', ''value'', ''updated_at'']
       (\<lambda>ow b. insert_or_system ow (system_of_binding ow b)) (bd_system_config data) False overwrite) (\<lambda>t7.
     ret [t1, t2, t3, t4, t5, t6, t7])))))))"

definition import_backup ::
    "host \<Rightarrow> backup_data \<Rightarrow> bool \<Rightarrow> string \<Rightarrow> string \<Rightarrow> backup_import_report db_op" where
  "import_backup h data overwrite source_mode scope = transaction (
     andthen (if overwrite then clear_tables else ret ()) (\<lambda>_.
     andthen (import_tables h data overwrite) (\<lambda>tables.
     ret \<lparr> ir_ok = True, ir_mode = (if overwrite then ''overwrite'' else ''merge''),
           ir_source_mode = source_mode, ir_scope = scope, ir_tables = tables \<rparr>)))"

section \<open>Preservation of the constraints\<close>

lemma insert_system_ok: "keeps db_ok (insert_system s)"
  by (rule keepsI) (auto simp: insert_system_def db_ok_defs)

lemma insert_or_keeps:
  assumes "keeps P (ins r)"
    and "\<And>d d'. P d \<Longrightarrow> \<not> orphans r d \<Longrightarrow> ins r (del r d) = (Inr (), d') \<Longrightarrow> P d'"
  shows "keeps P (insert_or ins del orphans ow (Inr r))"
proof (rule keepsI)
  fix d assume P: "P d"
  show "P (snd (insert_or ins del orphans ow (Inr r) d))"
    using P assms(2) [OF P] keepsD [OF assms(1) _ P]
    by (cases ow) (auto simp: insert_or_def split: prod.splits sum.splits)
qed

lemma insert_or_Inl: "keeps P (insert_or ins del orphans ow (Inl e))"
  by (simp add: keeps_def insert_or_def)

lemma image_replaced:
  "insert (key r) (key ` {x \<in> set t. key x \<noteq> key r}) = insert (key r) (key ` set t)"
  "key r \<notin> key ` {x \<in> set t. key x \<noteq> key r}"
  by auto

lemma not_gone:
  "k \<in> key ` set t \<Longrightarrow> k \<notin> key ` {x \<in> set t. C x} - {key r} \<Longrightarrow>
     k = key r \<or> k \<in> key ` {x \<in> set t. \<not> C x}"
  by auto

lemma insert_or_user_ok: "keeps db_ok (insert_or_user ow row)"
proof (cases row)
  case (Inr r)
  show ?thesis
    unfolding insert_or_user_def Inr
  proof (rule insert_or_keeps)
    show "keeps db_ok (insert_user r)"
      by (rule insert_user_ok)
  next
    fix d d' :: database
    let ?d = "d\<lparr>db_users := delete_where (conflicting_user r) (db_users d)\<rparr>"
    let ?gone = "us_id ` set (select_where (conflicting_user r) (db_users d)) - {us_id r}"
    assume *: "db_ok d" "\<not> user_orphans r d" "insert_user r ?d = (Inr (), d')"
    then have d': "d' = d\<lparr>db_users := delete_where (conflicting_user r) (db_users d) @ [r]\<rparr>"
      and fresh: "us_id r \<notin> us_id ` set (delete_where (conflicting_user r) (db_users d))"
        "us_username r \<notin> us_username ` set (delete_where (conflicting_user r) (db_users d))"
      by (auto simp: insert_user_def simp del: set_delete_where split: if_splits)
    have ids: "k \<in> us_id ` set (delete_where (conflicting_user r) (db_users d) @ [r])"
      if "k \<in> user_ids d" "k \<notin> ?gone" for k
      using not_gone [OF that(1), of "conflicting_user r" r] that(2) by auto
    have "keys_ok d'"
      using *(1) fresh unfolding d' db_ok_def keys_ok_def
      by (simp add: distinct_map_delete_where)
    moreover have "fk_ok d'" if "db_foreign_keys d"
    proof -
      have "fk_ok d" and "\<forall>x \<in> set (db_rooms d). rm_owner_id x \<notin> ?gone"
          "\<forall>x \<in> set (db_sessions d). ss_user_id x \<notin> ?gone"
        using *(1,2) that by (auto simp: db_ok_def user_orphans_def Let_def)
      then have "\<forall>x \<in> set (db_rooms d'). rm_owner_id x \<in> user_ids d'"
          and "\<forall>x \<in> set (db_sessions d'). ss_user_id x \<in> user_ids d'"
        using ids by (auto simp: d' fk_ok_def simp del: set_delete_where set_select_where set_append)
      with \<open>fk_ok d\<close> show ?thesis
        by (simp add: fk_ok_def d')
    qed
    ultimately show "db_ok d'"
      by (simp add: db_ok_def d')
  qed
qed (simp add: insert_or_user_def insert_or_Inl)

lemma insert_or_room_ok: "keeps db_ok (insert_or_room ow row)"
proof (cases row)
  case (Inr r)
  show ?thesis
    unfolding insert_or_room_def Inr
  proof (rule insert_or_keeps)
    show "keeps db_ok (insert_room r)"
      by (rule insert_room_ok)
  qed (auto simp: insert_room_def db_ok_defs distinct_map_delete_where image_replaced dangling_def
      split: if_splits option.splits)
qed (simp add: insert_or_room_def insert_or_Inl)

lemma insert_or_group_ok: "keeps db_ok (insert_or_group ow row)"
proof (cases row)
  case (Inr r)
  show ?thesis
    unfolding insert_or_group_def Inr
  proof (rule insert_or_keeps)
    show "keeps db_ok (insert_group r)"
      by (rule insert_group_ok)
  qed (auto simp: insert_group_def db_ok_defs distinct_map_delete_where image_replaced dangling_def
      split: if_splits option.splits)
qed (simp add: insert_or_group_def insert_or_Inl)

lemma insert_or_device_ok: "keeps db_ok (insert_or_device ow row)"
proof (cases row)
  case (Inr r)
  show ?thesis
    unfolding insert_or_device_def Inr
  proof (rule insert_or_keeps)
    show "keeps db_ok (insert_device r)"
      by (rule insert_device_ok)
  qed (auto simp: insert_device_def db_ok_defs distinct_map_delete_where image_replaced dangling_def dangling_opt_def
      split: if_splits option.splits)
qed (simp add: insert_or_device_def insert_or_Inl)

lemma insert_or_event_ok: "keeps db_ok (insert_or_event ow row)"
proof (cases row)
  case (Inr r)
  show ?thesis
    unfolding insert_or_event_def Inr
  proof (rule insert_or_keeps)
    show "keeps db_ok (insert_event r)"
      by (rule insert_event_ok)
  qed (auto simp: insert_event_def db_ok_defs distinct_map_delete_where image_replaced dangling_def
      split: if_splits option.splits)
qed (simp add: insert_or_event_def insert_or_Inl)

lemma insert_or_push_ok: "keeps db_ok (insert_or_push ow row)"
proof (cases row)
  case (Inr r)
  show ?thesis
    unfolding insert_or_push_def Inr
  proof (rule insert_or_keeps)
    show "keeps db_ok (insert_push r)"
      by (rule insert_push_ok)
  qed (auto simp: insert_push_def db_ok_defs distinct_map_delete_where image_replaced dangling_def
      split: if_splits option.splits)
qed (simp add: insert_or_push_def insert_or_Inl)

lemma insert_or_system_ok: "keeps db_ok (insert_or_system ow row)"
proof (cases row)
  case (Inr r)
  show ?thesis
    unfolding insert_or_system_def Inr
  proof (rule insert_or_keeps)
    show "keeps db_ok (insert_system r)"
      by (rule insert_system_ok)
  qed (auto simp: insert_system_def db_ok_defs distinct_map_delete_where image_replaced 
      split: if_splits option.splits)
qed (simp add: insert_or_system_def insert_or_Inl)

lemma import_loop_keeps:
  assumes "\<And>b. keeps P (stmt ow b)"
  shows "keeps P (import_loop h table columns stmt sk ow n m rows)"
proof (induction rows arbitrary: n m)
  case Nil
  show ?case by (simp only: import_loop.simps keeps_basic)
next
  case (Cons row rows)
  show ?case
    by (simp only: import_loop.simps) (intro keeps_intro Cons.IH assms)
qed

lemmas insert_or_ok = insert_or_user_ok insert_or_room_ok insert_or_group_ok insert_or_device_ok
  insert_or_event_ok insert_or_push_ok insert_or_system_ok

lemma import_rows_keeps:
  assumes "\<And>b. keeps P (stmt ow b)"
  shows "keeps P (import_rows h table columns stmt rows sk ow)"
  unfolding import_rows_def by (intro keeps_intro import_loop_keeps assms)

lemma import_backup_ok [keeps_intro]: "keeps db_ok (import_backup h data ow src scope)"
  unfolding import_backup_def import_tables_def clear_tables_def
  by (intro keeps_intro import_rows_keeps insert_or_ok)

lemma export_ok [keeps_intro]: "keeps P export_backup" "keeps P (export_user_backup u)"
  unfolding export_backup_def export_user_backup_def by (intro keeps_intro)+

section \<open>The report\<close>

lemma import_loop_counts:
  "import_loop h table columns stmt sk ow n m rows d = (Inr (a, b), d') \<Longrightarrow>
     a + b = n + m + length rows"
proof (induction rows arbitrary: n m d)
  case (Cons row rows)
  from Cons.prems show ?case
    by (auto simp: andthen_def split: option.splits if_splits prod.splits sum.splits
        dest!: Cons.IH)
qed simp

lemma import_rows_counts:
  "import_rows h table columns stmt rows sk ow d = (Inr rep, d') \<Longrightarrow>
     tr_table rep = table \<and> tr_attempted rep = length rows \<and>
     tr_imported rep + tr_skipped rep = tr_attempted rep"
  by (auto simp: import_rows_def andthen_def split: prod.splits sum.splits
      dest!: import_loop_counts)

lemma import_tables_counts:
  assumes "import_tables h data ow d = (Inr ts, d')"
  shows "map (\<lambda>t. (tr_table t, tr_attempted t)) ts =
      [(''users'', length (bd_users data)), (''rooms'', length (bd_rooms data)),
       (''groups'', length (bd_groups data)), (''devices'', length (bd_devices data)),
       (''events'', length (bd_events data)), (''config_pushes'', length (bd_config_pushes data)),
       (''system_config'', length (bd_system_config data))] \<and>
    (\<forall>t \<in> set ts. tr_imported t + tr_skipped t = tr_attempted t)"
  using assms
  by (auto simp: import_tables_def andthen_def split: prod.splits sum.splits
      dest!: import_rows_counts)

section \<open>Exported rows are read back\<close>

text \<open>What SQLite stores: an integer is an \<open>i64\<close> value, a text in an INTEGER column has no digit.\<close>

definition value_ok :: "string \<Rightarrow> sql_value \<Rightarrow> bool" where
  "value_ok column v \<longleftrightarrow>
     (case v of
        SNull \<Rightarrow> True
      | SInt i \<Rightarrow> is_i64 i
      | SText s \<Rightarrow> column \<in> set [''last_seen'', ''vnts_updated_at'', ''up_stream'', ''down_stream'',
          ''traffic_updated_at''] \<longrightarrow> no_digit s)"

definition columns_ok :: "(string \<times> sql_value) list \<Rightarrow> bool" where
  "columns_ok cols \<longleftrightarrow> (\<forall>(n, v) \<in> set cols. value_ok n v)"

text \<open>The values of the database are those that SQLite stores.\<close>

definition ints_ok :: "database \<Rightarrow> bool" where
  "ints_ok d \<longleftrightarrow>
     (\<forall>r \<in> set (db_users d). columns_ok (user_columns r)) \<and>
     (\<forall>r \<in> set (db_rooms d). columns_ok (room_columns r)) \<and>
     (\<forall>r \<in> set (db_groups d). columns_ok (group_columns r)) \<and>
     (\<forall>r \<in> set (db_devices d). columns_ok (device_columns r)) \<and>
     (\<forall>r \<in> set (db_events d). columns_ok (event_columns r)) \<and>
     (\<forall>r \<in> set (db_pushes d). columns_ok (push_columns r)) \<and>
     (\<forall>r \<in> set (db_system d). columns_ok (system_columns r))"

text \<open>A value that went through an export and an import: a NULL has become an empty text.\<close>

fun back_value :: "sql_value \<Rightarrow> sql_value" where
  "back_value SNull = SText []"
| "back_value v = v"

definition back_text :: "string option \<Rightarrow> string option" where
  "back_text x = Some (case x of None \<Rightarrow> [] | Some s \<Rightarrow> s)"

lemma back_text_Some [simp]: "back_text (Some s) = Some s"
  by (simp add: back_text_def)

lemma bind_value_json_of_sql: "value_ok n v \<Longrightarrow> bind_value h (json_of_sql v) = back_value v"
  by (cases v) (auto simp: bind_value_def value_ok_def as_i64_json_of_i64)

lemma bind_exported_row:
  assumes "columns_ok cols" "column \<in> set columns"
  shows "bind_row h columns (map (\<lambda>(n, v). (n, json_of_sql v)) cols) column =
    (case map_of cols column of None \<Rightarrow> SNull | Some v \<Rightarrow> back_value v)"
proof -
  have lookup: "map_of (map (\<lambda>(n, v). (n, json_of_sql v)) cols) column =
      map_option json_of_sql (map_of cols column)"
    by (induction cols) auto
  show ?thesis
  proof (cases "map_of cols column")
    case None
    then show ?thesis
      using assms(2) by (simp add: bind_row_def lookup bind_value_def)
  next
    case (Some v)
    then have "(column, v) \<in> set cols"
      by (rule map_of_SomeD)
    with assms(1) have "value_ok column v"
      unfolding columns_ok_def by fastforce
    then show ?thesis
      using Some assms(2) by (simp add: bind_row_def lookup bind_value_json_of_sql)
  qed
qed

lemma column_of_back [simp]: "text_column (back_value (sql_opt_text x)) = Inr (back_text x)"
  by (simp_all add: sql_opt_text_def back_text_def split: option.splits)

lemma int_column_back:
  "value_ok n v \<Longrightarrow> n \<in> set [''last_seen'', ''vnts_updated_at'', ''up_stream'', ''down_stream'',
     ''traffic_updated_at''] \<Longrightarrow> int_column (back_value v) = Inr (back_value v)"
  by (cases v) (auto simp: value_ok_def no_digit_def)

lemma not_null_Some [simp]: "not_null ow dflt (Some v) = Inr v"
  by (simp add: not_null_def)

lemma key_column_text [simp]: "key_column (SText s) = Inr s"
  by (simp add: key_column_def)

end
