(* ===== verification/Backup_Roundtrip.thy ===== *)
theory Backup_Roundtrip
  imports Db_Backup "HOL-Library.Sublist"
begin

text \<open>
  What an import does with an export. The interface \<open>exported_table\<close> is the contract between the
  export and the import of one table: the binding of an exported row is read back as the row, with an
  empty text where it had a NULL (\<open>stored\<close>). Each of the seven tables provides it; the loop of the import
  is followed once, over the interface.
\<close>

section \<open>The interface between export and import\<close>

abbreviation exported :: "(string \<times> sql_value) list \<Rightarrow> (string \<times> json) list" where
  "exported cols \<equiv> map (\<lambda>(n, v). (n, json_of_sql v)) cols"

locale exported_table =
  fixes columns :: "string list"
    and cols :: "'r \<Rightarrow> (string \<times> sql_value) list"
    and dec :: "bool \<Rightarrow> binding \<Rightarrow> error + 'r"
    and stored :: "'r \<Rightarrow> 'r"
  assumes dec_exported:
    "columns_ok (cols r) \<Longrightarrow> dec ow (bind_row h columns (exported (cols r))) = Inr (stored r)"
begin

lemma import_loop_fresh:
  assumes "rows0 = pre @ rows" and "\<forall>r \<in> set rows. columns_ok (cols r)"
    and "\<And>pre r post. rows0 = pre @ r # post \<Longrightarrow> ins ow (Inr (stored r)) (S pre) = (Inr True, S (pre @ [r]))"
  shows "import_loop h table columns (\<lambda>ow b. ins ow (dec ow b)) False ow n m
      (export_query cols rows) (S pre) = (Inr (n + length rows, m), S rows0)"
  using assms(1,2)
proof (induction rows arbitrary: pre n)
  case (Cons r rows)
  have "rows0 = (pre @ [r]) @ rows" and ins: "ins ow (Inr (stored r)) (S pre) = (Inr True, S (pre @ [r]))"
    using Cons.prems(1) assms(3) by simp_all
  with Cons show ?case
    by (simp add: export_query_def export_row_def skips_admin_def dec_exported
        andthen_def ins)
qed (simp add: export_query_def)

lemma import_rows_fresh:
  assumes "\<forall>r \<in> set rows. columns_ok (cols r)"
    and "\<And>pre r post. rows = pre @ r # post \<Longrightarrow> ins ow (Inr (stored r)) (S pre) = (Inr True, S (pre @ [r]))"
  shows "import_rows h table columns (\<lambda>ow b. ins ow (dec ow b)) (export_query cols rows) False ow (S []) =
    (Inr \<lparr> tr_table = table, tr_attempted = length rows, tr_imported = length rows,
           tr_skipped = 0 \<rparr>, S rows)"
  using import_loop_fresh [where pre = "[]" and rows = rows and ?rows0.0 = rows and ins = ins and S = S and ow = ow, OF _ assms]
  by (simp add: import_rows_def andthen_def export_query_def)

lemma import_loop_present:
  assumes "\<forall>r \<in> set rows. columns_ok (cols r)"
    and "\<And>r. r \<in> set rows \<Longrightarrow> ins False (Inr (stored r)) d = (Inr False, d)"
  shows "import_loop h table columns (\<lambda>ow b. ins ow (dec ow b)) skip False n m
      (export_query cols rows) d = (Inr (n, m + length rows), d)"
  using assms
proof (induction rows arbitrary: m)
  case (Cons r rows)
  then have ins: "ins False (Inr (stored r)) d = (Inr False, d)"
    by simp
  with Cons show ?case
    by (simp add: export_query_def export_row_def dec_exported andthen_def ins)
qed (simp add: export_query_def)

lemma import_rows_present:
  assumes "\<forall>r \<in> set rows. columns_ok (cols r)"
    and "\<And>r. r \<in> set rows \<Longrightarrow> ins False (Inr (stored r)) d = (Inr False, d)"
  shows "import_rows h table columns (\<lambda>ow b. ins ow (dec ow b)) (export_query cols rows) skip False d =
    (Inr \<lparr> tr_table = table, tr_attempted = length rows, tr_imported = 0,
           tr_skipped = length rows \<rparr>, d)"
  using import_loop_present [where ins = ins and d = d and rows = rows, OF assms]
  by (simp add: import_rows_def andthen_def export_query_def)

text \<open>An import ends at the first row that is refused.\<close>

lemma import_loop_stops:
  assumes "rows0 = pre @ rows" and "\<forall>r \<in> set rows. columns_ok (cols r)"
    and "\<And>pre r post. rows0 = pre @ r # post \<Longrightarrow> ins ow (Inr (stored r)) (S pre) = (Inr True, S (pre @ [r]))"
    and "columns_ok (cols r)" "ins ow (Inr (stored r)) (S rows0) = (Inl e, d)"
  shows "import_loop h table columns (\<lambda>ow b. ins ow (dec ow b)) False ow n m
      (export_query cols (rows @ r # rest)) (S pre) = (Inl e, d)"
  using assms(1,2)
proof (induction rows arbitrary: pre n)
  case Nil
  then have "ins ow (Inr (stored r)) (S pre) = (Inl e, d)"
    using assms(5) by simp
  then show ?case
    by (simp add: export_query_def export_row_def skips_admin_def dec_exported assms(4) andthen_def)
next
  case (Cons r' rows)
  have "rows0 = (pre @ [r']) @ rows" and ins: "ins ow (Inr (stored r')) (S pre) = (Inr True, S (pre @ [r']))"
    using Cons.prems(1) assms(3) by simp_all
  with Cons show ?case
    by (simp add: export_query_def export_row_def skips_admin_def dec_exported andthen_def ins)
qed

lemma import_rows_stops:
  assumes "\<forall>r \<in> set rows. columns_ok (cols r)"
    and "\<And>pre r post. rows = pre @ r # post \<Longrightarrow> ins ow (Inr (stored r)) (S pre) = (Inr True, S (pre @ [r]))"
    and "columns_ok (cols r)" "ins ow (Inr (stored r)) (S rows) = (Inl e, d)"
  shows "import_rows h table columns (\<lambda>ow b. ins ow (dec ow b)) (export_query cols (rows @ r # rest))
      False ow (S []) = (Inl e, d)"
  using import_loop_stops [where pre = "[]" and rows = rows and ?rows0.0 = rows and ins = ins and S = S
      and ow = ow and rest = rest, OF _ assms]
  by (simp add: import_rows_def andthen_def)

end

section \<open>Every table provides it\<close>

definition back_group :: "group_row \<Rightarrow> group_row" where
  "back_group g = g\<lparr>gr_encrypted_token := back_text (gr_encrypted_token g),
     gr_encrypted_server := back_text (gr_encrypted_server g),
     gr_encrypted_password := back_text (gr_encrypted_password g),
     gr_extra_config := back_text (gr_extra_config g)\<rparr>"

definition back_device :: "device_row \<Rightarrow> device_row" where
  "back_device r = r\<lparr>dv_group_id := back_text (dv_group_id r),
     dv_client_version := back_text (dv_client_version r),
     dv_console_public_ip := back_text (dv_console_public_ip r),
     dv_network_ip := back_text (dv_network_ip r),
     dv_network_node_id := back_text (dv_network_node_id r),
     dv_last_seen := back_value (dv_last_seen r), dv_vnts_status := back_text (dv_vnts_status r),
     dv_vnts_error := back_text (dv_vnts_error r),
     dv_vnts_updated_at := back_value (dv_vnts_updated_at r),
     dv_up_stream := back_value (dv_up_stream r), dv_down_stream := back_value (dv_down_stream r),
     dv_traffic_updated_at := back_value (dv_traffic_updated_at r)\<rparr>"

definition back_event :: "event_item \<Rightarrow> event_item" where
  "back_event e = e\<lparr>ei_payload := back_text (ei_payload e)\<rparr>"

definition back_push :: "push_row \<Rightarrow> push_row" where
  "back_push p = p\<lparr>pu_group_id := back_text (pu_group_id p)\<rparr>"

lemma back_keys [simp]:
  "gr_id (back_group g) = gr_id g" "gr_room_id (back_group g) = gr_room_id g"
  "dv_id (back_device r) = dv_id r" "dv_room_id (back_device r) = dv_room_id r"
  "dv_group_id (back_device r) = back_text (dv_group_id r)"
  "ei_id (back_event e) = ei_id e" "ei_device_id (back_event e) = ei_device_id e"
  "pu_id (back_push p) = pu_id p" "pu_device_id (back_push p) = pu_device_id p"
  by (simp_all add: back_group_def back_device_def back_event_def back_push_def)

lemma int_columns_ok:
  assumes "columns_ok (device_columns r)"
  shows "int_column (back_value (dv_last_seen r)) = Inr (back_value (dv_last_seen r))"
    "int_column (back_value (dv_vnts_updated_at r)) = Inr (back_value (dv_vnts_updated_at r))"
    "int_column (back_value (dv_up_stream r)) = Inr (back_value (dv_up_stream r))"
    "int_column (back_value (dv_down_stream r)) = Inr (back_value (dv_down_stream r))"
    "int_column (back_value (dv_traffic_updated_at r)) = Inr (back_value (dv_traffic_updated_at r))"
proof -
  have "value_ok ''last_seen'' (dv_last_seen r)" "value_ok ''vnts_updated_at'' (dv_vnts_updated_at r)"
    "value_ok ''up_stream'' (dv_up_stream r)" "value_ok ''down_stream'' (dv_down_stream r)"
    "value_ok ''traffic_updated_at'' (dv_traffic_updated_at r)"
    using assms by (simp_all add: columns_ok_def device_columns_def)
  then show "int_column (back_value (dv_last_seen r)) = Inr (back_value (dv_last_seen r))"
    "int_column (back_value (dv_vnts_updated_at r)) = Inr (back_value (dv_vnts_updated_at r))"
    "int_column (back_value (dv_up_stream r)) = Inr (back_value (dv_up_stream r))"
    "int_column (back_value (dv_down_stream r)) = Inr (back_value (dv_down_stream r))"
    "int_column (back_value (dv_traffic_updated_at r)) = Inr (back_value (dv_traffic_updated_at r))"
    by (simp_all add: int_column_back)
qed

interpretation users_x: exported_table
  "[''id'', ''username'', ''password'', ''role'', ''created_at'']" user_columns user_of_binding "\<lambda>r. r"
  by unfold_locales
    (simp add: user_of_binding_def bind_exported_row, simp add: user_columns_def)

interpretation rooms_x: exported_table
  "[''id'', ''name'', ''owner_id'', ''created_at'']" room_columns room_of_binding "\<lambda>r. r"
  by unfold_locales
    (simp add: room_of_binding_def bind_exported_row, simp add: room_columns_def)

interpretation groups_x: exported_table
  "[''id'', ''room_id'', ''name'', ''encrypted_token'', ''encrypted_server'',
    ''encrypted_password'', ''extra_config'', ''config_version'', ''created_at'', ''updated_at'']"
  group_columns group_of_binding back_group
  by unfold_locales
    (simp add: group_of_binding_def bind_exported_row, simp add: group_columns_def back_group_def)

interpretation devices_x: exported_table
  "[''id'', ''room_id'', ''group_id'', ''display_name'', ''client_version'',
    ''console_public_ip'', ''network_ip'', ''network_node_id'', ''device_token'',
    ''last_seen'', ''status'', ''vnts_status'', ''vnts_error'', ''vnts_updated_at'',
    ''config_version'', ''up_stream'', ''down_stream'', ''traffic_updated_at'', ''created_at'']"
  device_columns device_of_binding back_device
proof
  fix r ow h
  assume ok: "columns_ok (device_columns r)"
  show "device_of_binding ow (bind_row h
      [''id'', ''room_id'', ''group_id'', ''display_name'', ''client_version'',
       ''console_public_ip'', ''network_ip'', ''network_node_id'', ''device_token'',
       ''last_seen'', ''status'', ''vnts_status'', ''vnts_error'', ''vnts_updated_at'',
       ''config_version'', ''up_stream'', ''down_stream'', ''traffic_updated_at'', ''created_at'']
      (exported (device_columns r))) = Inr (back_device r)"
    by (simp add: device_of_binding_def bind_exported_row [OF ok])
      (simp add: device_columns_def back_device_def int_columns_ok [OF ok])
qed

interpretation events_x: exported_table
  "[''id'', ''device_id'', ''event_type'', ''payload'', ''created_at'']"
  event_columns event_of_binding back_event
  by unfold_locales
    (simp add: event_of_binding_def bind_exported_row, simp add: event_columns_def back_event_def)

interpretation pushes_x: exported_table
  "[''id'', ''device_id'', ''group_id'', ''config_snapshot'', ''pushed_at'', ''acked'']"
  push_columns push_of_binding back_push
  by unfold_locales
    (simp add: push_of_binding_def bind_exported_row, simp add: push_columns_def back_push_def)

interpretation system_x: exported_table
  "[''key'', ''value'', ''updated_at'']" system_columns system_of_binding "\<lambda>r. r"
  by unfold_locales
    (simp add: system_of_binding_def bind_exported_row, simp add: system_columns_def)

section \<open>Overwriting with an export\<close>

lemma insert_or_fresh:
  "del r d = d \<Longrightarrow> \<not> orphans r d \<Longrightarrow> ins r d = (Inr (), d') \<Longrightarrow>
     insert_or ins del orphans ow (Inr r) d = (Inr True, d')"
  by (simp add: insert_or_def)

lemma clear_tables_result:
  "clear_tables d = (Inr (), empty_database\<lparr>db_foreign_keys := db_foreign_keys d\<rparr>)"
  by (simp add: clear_tables_def andthen_def delete_users_def delete_rooms_def delete_groups_def
      delete_devices_def delete_events_def delete_pushes_def delete_sessions_def delete_system_def
      empty_database_def delete_where_def)

lemma earlier_key:
  assumes "distinct (map f xs)" "xs = pre @ r # post"
  shows "\<forall>x \<in> set pre. f x \<noteq> f r"
proof
  fix x assume "x \<in> set pre"
  moreover have "f r \<notin> f ` set pre"
    using assms by simp
  ultimately show "f x \<noteq> f r"
    by (metis image_eqI)
qed

lemma distinct_keys:
  assumes "db_ok d"
  shows "distinct (map us_id (db_users d))" "distinct (map us_username (db_users d))"
    "distinct (map rm_id (db_rooms d))" "distinct (map gr_id (db_groups d))"
    "distinct (map dv_id (db_devices d))" "distinct (map ei_id (db_events d))"
    "distinct (map pu_id (db_pushes d))" "distinct (map sy_key (db_system d))"
  using assms by (simp_all add: db_ok_def keys_ok_def)

lemmas earlier_keys = distinct_keys [THEN earlier_key]

text \<open>The step of each table: a row of \<open>d\<close> goes into a database with the rows before it.\<close>

lemma user_step:
  assumes "db_ok d" "db_users d = pre @ u # post"
  shows "insert_or_user ow (Inr u) (s\<lparr>db_users := pre\<rparr>) = (Inr True, s\<lparr>db_users := pre @ [u]\<rparr>)"
proof -
  have "\<forall>x \<in> set pre. us_id x \<noteq> us_id u \<and> us_username x \<noteq> us_username u"
    using earlier_keys(1,2) [OF assms] by blast
  then show ?thesis
    unfolding insert_or_user_def
    by (intro insert_or_fresh)
      (auto simp: delete_where_none conflicting_user_def user_orphans_def insert_user_def Let_def)
qed

lemma room_step:
  assumes "db_ok d" "db_rooms d = pre @ r # post" "db_users s = db_users d"
    "db_foreign_keys s = db_foreign_keys d"
  shows "insert_or_room ow (Inr r) (s\<lparr>db_rooms := pre\<rparr>) = (Inr True, s\<lparr>db_rooms := pre @ [r]\<rparr>)"
proof -
  have "\<forall>x \<in> set pre. rm_id x \<noteq> rm_id r"
    by (rule earlier_keys(3) [OF assms(1,2)])
  moreover have "db_foreign_keys d \<Longrightarrow> rm_owner_id r \<in> user_ids d"
    using assms(1,2) by (auto simp: db_ok_def fk_ok_def)
  ultimately show ?thesis
    unfolding insert_or_room_def using assms(3,4)
    by (intro insert_or_fresh)
      (auto simp: delete_where_none no_orphans_def insert_room_def dangling_def)
qed

lemma group_step:
  assumes "db_ok d" "db_groups d = pre @ r # post" "db_rooms s = db_rooms d"
    "db_foreign_keys s = db_foreign_keys d"
  shows "insert_or_group ow (Inr (back_group r)) (s\<lparr>db_groups := map back_group pre\<rparr>) =
    (Inr True, s\<lparr>db_groups := map back_group (pre @ [r])\<rparr>)"
proof -
  have "\<forall>x \<in> set pre. gr_id x \<noteq> gr_id r"
    by (rule earlier_keys(4) [OF assms(1,2)])
  moreover have "db_foreign_keys d \<Longrightarrow> gr_room_id r \<in> room_ids d"
    using assms(1,2) by (auto simp: db_ok_def fk_ok_def)
  ultimately show ?thesis
    unfolding insert_or_group_def using assms(3,4)
    by (intro insert_or_fresh)
      (auto simp: delete_where_none no_orphans_def insert_group_def dangling_def)
qed

text \<open>A device without a group comes back with the empty text as its group.\<close>

definition has_group :: "database \<Rightarrow> device_row \<Rightarrow> bool" where
  "has_group d r \<longleftrightarrow> db_foreign_keys d \<and> dv_group_id r = None \<longrightarrow> [] \<in> group_ids d"

lemma device_step:
  assumes "db_ok d" "db_devices d = pre @ r # post" "db_rooms s = db_rooms d"
    "group_ids s = group_ids d" "db_foreign_keys s = db_foreign_keys d" "has_group d r"
  shows "insert_or_device ow (Inr (back_device r)) (s\<lparr>db_devices := map back_device pre\<rparr>) =
    (Inr True, s\<lparr>db_devices := map back_device (pre @ [r])\<rparr>)"
proof -
  have "\<forall>x \<in> set pre. dv_id x \<noteq> dv_id r"
    by (rule earlier_keys(5) [OF assms(1,2)])
  moreover have "db_foreign_keys d \<Longrightarrow> dv_room_id r \<in> room_ids d"
      "\<And>k. db_foreign_keys d \<Longrightarrow> dv_group_id r = Some k \<Longrightarrow> k \<in> group_ids d"
    using assms(1,2) by (auto simp: db_ok_def fk_ok_def)
  ultimately show ?thesis
    unfolding insert_or_device_def using assms(3-6)
    by (intro insert_or_fresh)
      (auto simp: delete_where_none no_orphans_def insert_device_def dangling_def dangling_opt_def
        has_group_def back_text_def split: option.splits)
qed

lemma device_refused:
  assumes "db_ok d" "db_devices d = pre @ r # post" "group_ids s = group_ids d" "db_foreign_keys s"
    "dv_group_id r = None" "[] \<notin> group_ids d"
  shows "insert_or_device ow (Inr (back_device r)) (s\<lparr>db_devices := map back_device pre\<rparr>) =
    (Inl (SqlError ForeignKeyViolation), s\<lparr>db_devices := map back_device pre\<rparr>)"
proof -
  have "\<forall>x \<in> set pre. dv_id x \<noteq> dv_id r"
    by (rule earlier_keys(5) [OF assms(1,2)])
  then show ?thesis
    using assms(3-6)
    by (auto simp: insert_or_device_def insert_or_def no_orphans_def insert_device_def dangling_def
        dangling_opt_def back_text_def delete_where_none split: option.splits)
qed

lemma event_step:
  assumes "db_ok d" "db_events d = pre @ r # post" "device_ids s = device_ids d"
    "db_foreign_keys s = db_foreign_keys d"
  shows "insert_or_event ow (Inr (back_event r)) (s\<lparr>db_events := map back_event pre\<rparr>) =
    (Inr True, s\<lparr>db_events := map back_event (pre @ [r])\<rparr>)"
proof -
  have "\<forall>x \<in> set pre. ei_id x \<noteq> ei_id r"
    by (rule earlier_keys(6) [OF assms(1,2)])
  moreover have "db_foreign_keys d \<Longrightarrow> ei_device_id r \<in> device_ids d"
    using assms(1,2) by (auto simp: db_ok_def fk_ok_def)
  ultimately show ?thesis
    unfolding insert_or_event_def using assms(3,4)
    by (intro insert_or_fresh)
      (auto simp: delete_where_none no_orphans_def insert_event_def dangling_def)
qed

lemma push_step:
  assumes "db_ok d" "db_pushes d = pre @ r # post" "device_ids s = device_ids d"
    "db_foreign_keys s = db_foreign_keys d"
  shows "insert_or_push ow (Inr (back_push r)) (s\<lparr>db_pushes := map back_push pre\<rparr>) =
    (Inr True, s\<lparr>db_pushes := map back_push (pre @ [r])\<rparr>)"
proof -
  have "\<forall>x \<in> set pre. pu_id x \<noteq> pu_id r"
    by (rule earlier_keys(7) [OF assms(1,2)])
  moreover have "db_foreign_keys d \<Longrightarrow> pu_device_id r \<in> device_ids d"
    using assms(1,2) by (auto simp: db_ok_def fk_ok_def)
  ultimately show ?thesis
    unfolding insert_or_push_def using assms(3,4)
    by (intro insert_or_fresh)
      (auto simp: delete_where_none no_orphans_def insert_push_def dangling_def)
qed

lemma system_step:
  assumes "db_ok d" "db_system d = pre @ r # post"
  shows "insert_or_system ow (Inr r) (s\<lparr>db_system := pre\<rparr>) =
    (Inr True, s\<lparr>db_system := pre @ [r]\<rparr>)"
proof -
  have "\<forall>x \<in> set pre. sy_key x \<noteq> sy_key r"
    by (rule earlier_keys(8) [OF assms])
  then show ?thesis
    unfolding insert_or_system_def
    by (intro insert_or_fresh) (auto simp: delete_where_none no_orphans_def insert_system_def)
qed

text \<open>The report of an import in which every row counts as \<open>all\<close> says.\<close>

definition table_reports :: "bool \<Rightarrow> database \<Rightarrow> backup_table_report list" where
  "table_reports all d = map (\<lambda>(table, n). \<lparr> tr_table = table, tr_attempted = n,
       tr_imported = (if all then n else 0), tr_skipped = (if all then 0 else n) \<rparr>)
     [(''users'', length (db_users d)), (''rooms'', length (db_rooms d)),
      (''groups'', length (db_groups d)), (''devices'', length (db_devices d)),
      (''events'', length (db_events d)), (''config_pushes'', length (db_pushes d)),
      (''system_config'', length (db_system d))]"

text \<open>The database that an export restores: a NULL has become an empty text, and the sessions are gone.\<close>

definition restored :: "database \<Rightarrow> database" where
  "restored d = d\<lparr>db_groups := map back_group (db_groups d), db_devices := map back_device (db_devices d),
     db_events := map back_event (db_events d), db_pushes := map back_push (db_pushes d),
     db_sessions := []\<rparr>"

lemma export_backup_tables:
  assumes "export_backup d = (Inr data, d)"
  shows "data = \<lparr> bd_users = export_query user_columns (db_users d),
     bd_rooms = export_query room_columns (db_rooms d),
     bd_groups = export_query group_columns (db_groups d),
     bd_devices = export_query device_columns (db_devices d),
     bd_events = export_query event_columns (db_events d),
     bd_config_pushes = export_query push_columns (db_pushes d),
     bd_system_config = export_query system_columns (db_system d) \<rparr>"
  using assms by (simp add: export_backup_def)

text \<open>The first three tables, into a database that is empty: they always go in.\<close>

definition with_groups :: "database \<Rightarrow> database" where
  "with_groups d = empty_database\<lparr>db_foreign_keys := db_foreign_keys d, db_users := db_users d,
     db_rooms := db_rooms d, db_groups := map back_group (db_groups d)\<rparr>"

lemma import_first_tables:
  fixes d
  assumes ok: "db_ok d" and ints: "ints_ok d"
  defines "e \<equiv> empty_database\<lparr>db_foreign_keys := db_foreign_keys d\<rparr>"
  shows "import_rows h ''users'' [''id'', ''username'', ''password'', ''role'', ''created_at'']
      (\<lambda>ow b. insert_or_user ow (user_of_binding ow b)) (export_query user_columns (db_users d)) False True e =
    (Inr \<lparr> tr_table = ''users'', tr_attempted = length (db_users d), tr_imported = length (db_users d),
       tr_skipped = 0 \<rparr>, e\<lparr>db_users := db_users d\<rparr>)"
    and "import_rows h ''rooms'' [''id'', ''name'', ''owner_id'', ''created_at'']
      (\<lambda>ow b. insert_or_room ow (room_of_binding ow b)) (export_query room_columns (db_rooms d)) False True
      (e\<lparr>db_users := db_users d\<rparr>) =
    (Inr \<lparr> tr_table = ''rooms'', tr_attempted = length (db_rooms d), tr_imported = length (db_rooms d),
       tr_skipped = 0 \<rparr>, e\<lparr>db_users := db_users d, db_rooms := db_rooms d\<rparr>)"
    and "import_rows h ''groups''
      [''id'', ''room_id'', ''name'', ''encrypted_token'', ''encrypted_server'', ''encrypted_password'',
       ''extra_config'', ''config_version'', ''created_at'', ''updated_at'']
      (\<lambda>ow b. insert_or_group ow (group_of_binding ow b)) (export_query group_columns (db_groups d)) False True
      (e\<lparr>db_users := db_users d, db_rooms := db_rooms d\<rparr>) =
    (Inr \<lparr> tr_table = ''groups'', tr_attempted = length (db_groups d), tr_imported = length (db_groups d),
       tr_skipped = 0 \<rparr>, with_groups d)"
proof -
  define s1 where "s1 = e\<lparr>db_users := db_users d\<rparr>"
  define s2 where "s2 = s1\<lparr>db_rooms := db_rooms d\<rparr>"
  have starts: "e\<lparr>db_users := []\<rparr> = e" "s1\<lparr>db_rooms := []\<rparr> = s1" "s2\<lparr>db_groups := []\<rparr> = s2"
      "s2\<lparr>db_groups := map back_group (db_groups d)\<rparr> = with_groups d"
    by (simp_all add: s1_def s2_def e_def with_groups_def empty_database_def)
  have frames: "db_users s1 = db_users d" "db_rooms s2 = db_rooms d"
      "db_foreign_keys s1 = db_foreign_keys d" "db_foreign_keys s2 = db_foreign_keys d"
    by (simp_all add: s1_def s2_def e_def)
  show "import_rows h ''users'' [''id'', ''username'', ''password'', ''role'', ''created_at'']
      (\<lambda>ow b. insert_or_user ow (user_of_binding ow b)) (export_query user_columns (db_users d)) False True e =
    (Inr \<lparr> tr_table = ''users'', tr_attempted = length (db_users d), tr_imported = length (db_users d),
       tr_skipped = 0 \<rparr>, e\<lparr>db_users := db_users d\<rparr>)"
    using users_x.import_rows_fresh [where ins = insert_or_user and S = "\<lambda>t. e\<lparr>db_users := t\<rparr>"
      and rows = "db_users d" and ow = True, OF _ user_step [OF ok], unfolded starts] ints
    by (simp add: ints_ok_def)
  show "import_rows h ''rooms'' [''id'', ''name'', ''owner_id'', ''created_at'']
      (\<lambda>ow b. insert_or_room ow (room_of_binding ow b)) (export_query room_columns (db_rooms d)) False True
      (e\<lparr>db_users := db_users d\<rparr>) =
    (Inr \<lparr> tr_table = ''rooms'', tr_attempted = length (db_rooms d), tr_imported = length (db_rooms d),
       tr_skipped = 0 \<rparr>, e\<lparr>db_users := db_users d, db_rooms := db_rooms d\<rparr>)"
    using rooms_x.import_rows_fresh [where ins = insert_or_room and S = "\<lambda>t. s1\<lparr>db_rooms := t\<rparr>"
      and rows = "db_rooms d" and ow = True, OF _ room_step [OF ok], unfolded starts] ints frames
    by (simp add: ints_ok_def s1_def)
  show "import_rows h ''groups''
      [''id'', ''room_id'', ''name'', ''encrypted_token'', ''encrypted_server'', ''encrypted_password'',
       ''extra_config'', ''config_version'', ''created_at'', ''updated_at'']
      (\<lambda>ow b. insert_or_group ow (group_of_binding ow b)) (export_query group_columns (db_groups d)) False True
      (e\<lparr>db_users := db_users d, db_rooms := db_rooms d\<rparr>) =
    (Inr \<lparr> tr_table = ''groups'', tr_attempted = length (db_groups d), tr_imported = length (db_groups d),
       tr_skipped = 0 \<rparr>, with_groups d)"
  proof -
    have "\<forall>r \<in> set (db_groups d). columns_ok (group_columns r)"
      using ints by (simp add: ints_ok_def)
    note step = groups_x.import_rows_fresh [where ins = insert_or_group
        and S = "\<lambda>t. s2\<lparr>db_groups := map back_group t\<rparr>" and ow = True,
        OF this group_step [OF ok _ frames(2,4)], unfolded list.map starts]
    show ?thesis
      unfolding s1_def [symmetric] s2_def [symmetric] by (rule step)
  qed
qed

lemma import_tables_fresh:
  assumes ok: "db_ok d" and ints: "ints_ok d" and data: "export_backup d = (Inr data, d)"
    and groups: "\<forall>r \<in> set (db_devices d). has_group d r"
  shows "import_tables h data True (empty_database\<lparr>db_foreign_keys := db_foreign_keys d\<rparr>) =
    (Inr (table_reports True d), restored d)"
proof -
  define s3 where "s3 = with_groups d"
  define s4 where "s4 = s3\<lparr>db_devices := map back_device (db_devices d)\<rparr>"
  define s5 where "s5 = s4\<lparr>db_events := map back_event (db_events d)\<rparr>"
  define s6 where "s6 = s5\<lparr>db_pushes := map back_push (db_pushes d)\<rparr>"
  define s7 where "s7 = s6\<lparr>db_system := db_system d\<rparr>"
  note defs = s3_def s4_def s5_def s6_def s7_def
  have starts: "s3\<lparr>db_devices := []\<rparr> = s3" "s4\<lparr>db_events := []\<rparr> = s4" "s5\<lparr>db_pushes := []\<rparr> = s5"
      "s6\<lparr>db_system := []\<rparr> = s6"
    by (simp_all add: defs with_groups_def empty_database_def)
  have last: "s7 = restored d"
    by (simp add: defs with_groups_def restored_def empty_database_def)
  have frames: "db_rooms s3 = db_rooms d" "group_ids s3 = group_ids d" "device_ids s4 = device_ids d"
      "device_ids s5 = device_ids d" "db_foreign_keys s3 = db_foreign_keys d"
      "db_foreign_keys s4 = db_foreign_keys d" "db_foreign_keys s5 = db_foreign_keys d"
    by (simp_all add: defs with_groups_def image_image)
  have device: "insert_or_device True (Inr (back_device r)) (s3\<lparr>db_devices := map back_device pre\<rparr>) =
      (Inr True, s3\<lparr>db_devices := map back_device (pre @ [r])\<rparr>)" if "db_devices d = pre @ r # post" for pre r post
    using device_step [OF ok that frames(1,2,5)] groups that by simp
  note steps = import_first_tables [OF ok ints, folded s3_def]
    devices_x.import_rows_fresh [where ins = insert_or_device
      and S = "\<lambda>t. s3\<lparr>db_devices := map back_device t\<rparr>" and rows = "db_devices d" and ow = True, OF _ device,
      unfolded list.map starts, folded s4_def]
    events_x.import_rows_fresh [where ins = insert_or_event
      and S = "\<lambda>t. s4\<lparr>db_events := map back_event t\<rparr>" and rows = "db_events d" and ow = True,
      OF _ event_step [OF ok], unfolded list.map starts, folded s5_def]
    pushes_x.import_rows_fresh [where ins = insert_or_push
      and S = "\<lambda>t. s5\<lparr>db_pushes := map back_push t\<rparr>" and rows = "db_pushes d" and ow = True,
      OF _ push_step [OF ok], unfolded list.map starts, folded s6_def]
    system_x.import_rows_fresh [where ins = insert_or_system and S = "\<lambda>t. s6\<lparr>db_system := t\<rparr>"
      and rows = "db_system d" and ow = True, OF _ system_step [OF ok], unfolded starts, folded s7_def]
  show ?thesis
    using ints
    by (simp add: import_tables_def export_backup_tables [OF data] andthen_def steps frames last
        table_reports_def ints_ok_def)
qed

theorem import_overwrite_export:
  assumes "db_ok d" and "ints_ok d" and "export_backup d = (Inr data, d)"
    and "db_foreign_keys d0 = db_foreign_keys d" and "\<forall>r \<in> set (db_devices d). has_group d r"
  shows "import_backup h data True src scope d0 =
    (Inr \<lparr> ir_ok = True, ir_mode = ''overwrite'', ir_source_mode = src, ir_scope = scope,
           ir_tables = table_reports True d \<rparr>, restored d)"
  using import_tables_fresh [OF assms(1-3,5), of h] assms(4)
  by (simp add: import_backup_def transaction_def andthen_def clear_tables_result)

text \<open>With a device that has no group, the import of the export is refused.\<close>

theorem import_overwrite_ungrouped:
  assumes ok: "db_ok d" and ints: "ints_ok d" and data: "export_backup d = (Inr data, d)"
    and fk: "db_foreign_keys d0 = db_foreign_keys d"
    and r: "r \<in> set (db_devices d)" "\<not> has_group d r"
  shows "import_backup h data True src scope d0 = (Inl (SqlError ForeignKeyViolation), d0)"
proof -
  have fks: "db_foreign_keys d" "[] \<notin> group_ids d"
    using r(2) by (auto simp: has_group_def)
  obtain pre r post where split: "db_devices d = pre @ r # post" "\<not> has_group d r"
      "\<forall>x \<in> set pre. has_group d x"
    using split_list_first_prop [of "db_devices d" "\<lambda>r. \<not> has_group d r"] r by blast
  define s3 where "s3 = with_groups d"
  have frames: "db_rooms s3 = db_rooms d" "group_ids s3 = group_ids d" "db_foreign_keys s3 = db_foreign_keys d"
      "s3\<lparr>db_devices := []\<rparr> = s3"
    by (simp_all add: s3_def with_groups_def image_image empty_database_def)
  have device: "insert_or_device True (Inr (back_device v)) (s3\<lparr>db_devices := map back_device us\<rparr>) =
      (Inr True, s3\<lparr>db_devices := map back_device (us @ [v])\<rparr>)" if "pre = us @ v # vs" for us v vs
    using device_step [OF ok _ frames(1-3), of us v "vs @ r # post"] split(1,3) that by simp
  have "insert_or_device True (Inr (back_device r)) (s3\<lparr>db_devices := map back_device pre\<rparr>) =
      (Inl (SqlError ForeignKeyViolation), s3\<lparr>db_devices := map back_device pre\<rparr>)"
    using device_refused [OF ok split(1) frames(2)] split(2) fks frames(3) by (simp add: has_group_def)
  note last = devices_x.import_rows_stops [where ins = insert_or_device
      and S = "\<lambda>t. s3\<lparr>db_devices := map back_device t\<rparr>" and rows = pre and rest = post and ow = True,
      OF _ device _ this, unfolded list.map frames(4)]
  have "columns_ok (device_columns x)" if "x \<in> set (db_devices d)" for x
    using ints that by (simp add: ints_ok_def)
  then have cols: "\<forall>x \<in> set pre. columns_ok (device_columns x)" "columns_ok (device_columns r)"
    using split(1) by simp_all
  have "\<exists>d'. import_tables h data True (empty_database\<lparr>db_foreign_keys := db_foreign_keys d\<rparr>) =
      (Inl (SqlError ForeignKeyViolation), d')"
    by (simp add: import_tables_def export_backup_tables [OF data] andthen_def
        import_first_tables [OF ok ints, folded s3_def] split(1) last cols)
  then show ?thesis
    using fk by (auto simp: import_backup_def transaction_def andthen_def clear_tables_result)
qed

section \<open>Reading a restored database\<close>

text \<open>
  The empty text in place of a NULL is no ciphertext and no integer: the configuration of a group with
  a NULL among its ciphertexts does not decrypt any more, and reading a device with a NULL integer
  panics.
\<close>

definition has_null_cipher :: "group_row \<Rightarrow> bool" where
  "has_null_cipher g \<longleftrightarrow> gr_encrypted_token g = None \<or> gr_encrypted_server g = None \<or>
     gr_encrypted_password g = None \<or> gr_extra_config g = None"

definition has_null_int :: "device_row \<Rightarrow> bool" where
  "has_null_int r \<longleftrightarrow> SNull \<in> set [dv_last_seen r, dv_vnts_updated_at r, dv_up_stream r,
     dv_down_stream r, dv_traffic_updated_at r]"

lemma back_text_ciphers [simp]:
  "map_transpose f (back_text x) = result_then (f (case x of None \<Rightarrow> [] | Some s \<Rightarrow> s)) (\<lambda>w. Inr (Some w))"
  by (simp add: map_transpose_def back_text_def)

lemma decrypt_empty [simp]: "decrypt_from_base64 h m c [] = Inl (Bail ''invalid encrypted value format'')"
  by (simp add: decrypt_from_base64_def)

lemma back_group_unreadable: "has_null_cipher g \<Longrightarrow> \<exists>e. decrypt_row h (back_group g) = Inl e"
  by (auto simp: has_null_cipher_def decrypt_row_def decrypt_group_config_def back_group_def back_text_def
      map_transpose_def result_then_def Let_def split: sum.splits option.splits)

lemma group_list_fails: "g \<in> set gs \<Longrightarrow> \<exists>e. decrypt_row h g = Inl e \<Longrightarrow> \<exists>e. group_list h gs = Inl e"
  by (induction gs) (auto simp: result_then_def split: sum.splits)

lemma restored_groups_unreadable:
  assumes "g \<in> set (db_groups d)" "has_null_cipher g"
  shows "\<exists>e. list_groups h (gr_room_id g) (restored d) = (Inl e, restored d)"
proof -
  let ?gs = "order_desc gr_created_at
    (select_where (\<lambda>x. gr_room_id x = gr_room_id g) (db_groups (restored d)))"
  have "back_group g \<in> set ?gs"
    using assms(1) by (simp add: restored_def)
  with group_list_fails [OF this back_group_unreadable [OF assms(2)]] show ?thesis
    by (auto simp: list_groups_def andthen_def)
qed

lemma get_opt_i64_Inl: "get_opt_i64 v = Inl e \<Longrightarrow> e = Panic"
  by (cases v) auto

lemma back_device_unreadable:
  assumes "has_null_int r"
  shows "device_from_row (back_device r) = Inl Panic"
proof -
  have "get_opt_i64 (back_value v) = Inl Panic" if "SNull = v" for v
    using that by auto
  with assms show ?thesis
    by (auto simp: has_null_int_def device_from_row_def back_device_def get_i64_or_zero_def
        result_then_def split: sum.splits dest!: get_opt_i64_Inl)
qed

lemma devices_from_rows_fails:
  "r \<in> set rs \<Longrightarrow> device_from_row r = Inl Panic \<Longrightarrow> devices_from_rows rs = Inl Panic"
proof (induction rs)
  case (Cons x rs)
  have "device_from_row x = Inl Panic \<or> (\<exists>y. device_from_row x = Inr y)"
    by (auto simp: device_from_row_def get_i64_or_zero_def result_then_def split: sum.splits
        dest!: get_opt_i64_Inl)
  with Cons show ?case
    by auto
qed simp

lemma restored_devices_unreadable:
  assumes "r \<in> set (db_devices d)" "has_null_int r"
  shows "list_devices (dv_room_id r) (restored d) = (Inl Panic, restored d)"
proof -
  let ?rs = "order_desc dv_created_at
    (select_where (\<lambda>x. dv_room_id x = dv_room_id r) (db_devices (restored d)))"
  have "back_device r \<in> set ?rs"
    using assms(1) by (simp add: restored_def)
  with devices_from_rows_fails [OF this back_device_unreadable [OF assms(2)]] show ?thesis
    by (simp add: list_devices_def andthen_def)
qed

section \<open>Merging\<close>

lemma present_steps:
  "us_id u \<in> user_ids d \<or> us_username u \<in> us_username ` set (db_users d) \<Longrightarrow>
     insert_or_user False (Inr u) d = (Inr False, d)"
  "rm_id r \<in> room_ids d \<Longrightarrow> insert_or_room False (Inr r) d = (Inr False, d)"
  "gr_id g \<in> group_ids d \<Longrightarrow> insert_or_group False (Inr g) d = (Inr False, d)"
  "dv_id v \<in> device_ids d \<Longrightarrow> insert_or_device False (Inr v) d = (Inr False, d)"
  "ei_id e \<in> ei_id ` set (db_events d) \<Longrightarrow> insert_or_event False (Inr e) d = (Inr False, d)"
  "pu_id p \<in> pu_id ` set (db_pushes d) \<Longrightarrow> insert_or_push False (Inr p) d = (Inr False, d)"
  "sy_key k \<in> sy_key ` set (db_system d) \<Longrightarrow> insert_or_system False (Inr k) d = (Inr False, d)"
  by (auto simp: insert_or_user_def insert_or_room_def insert_or_group_def insert_or_device_def
      insert_or_event_def insert_or_push_def insert_or_system_def insert_or_def insert_user_def
      insert_room_def insert_group_def insert_device_def insert_event_def insert_push_def
      insert_system_def)

text \<open>Every row of \<open>d\<close> has a row with its key in \<open>d0\<close>.\<close>

definition covered_by :: "database \<Rightarrow> database \<Rightarrow> bool" where
  "covered_by d d0 \<longleftrightarrow>
     (\<forall>u \<in> set (db_users d). us_id u \<in> user_ids d0 \<or> us_username u \<in> us_username ` set (db_users d0)) \<and>
     room_ids d \<subseteq> room_ids d0 \<and> group_ids d \<subseteq> group_ids d0 \<and> device_ids d \<subseteq> device_ids d0 \<and>
     ei_id ` set (db_events d) \<subseteq> ei_id ` set (db_events d0) \<and>
     pu_id ` set (db_pushes d) \<subseteq> pu_id ` set (db_pushes d0) \<and>
     sy_key ` set (db_system d) \<subseteq> sy_key ` set (db_system d0)"

lemma covered_by_refl: "covered_by d d"
  by (simp add: covered_by_def)

theorem import_merge_covered:
  assumes ints: "ints_ok d" and data: "export_backup d = (Inr data, d)" and cov: "covered_by d d0"
  shows "import_backup h data False src scope d0 =
    (Inr \<lparr> ir_ok = True, ir_mode = ''merge'', ir_source_mode = src, ir_scope = scope,
           ir_tables = table_reports False d \<rparr>, d0)"
proof -
  note steps = users_x.import_rows_present [where ins = insert_or_user and d = d0
      and rows = "db_users d", OF _ present_steps(1)]
    rooms_x.import_rows_present [where ins = insert_or_room and d = d0
      and rows = "db_rooms d", OF _ present_steps(2)]
    groups_x.import_rows_present [where ins = insert_or_group and d = d0
      and rows = "db_groups d", OF _ present_steps(3)]
    devices_x.import_rows_present [where ins = insert_or_device and d = d0
      and rows = "db_devices d", OF _ present_steps(4)]
    events_x.import_rows_present [where ins = insert_or_event and d = d0
      and rows = "db_events d", OF _ present_steps(5)]
    pushes_x.import_rows_present [where ins = insert_or_push and d = d0
      and rows = "db_pushes d", OF _ present_steps(6)]
    system_x.import_rows_present [where ins = insert_or_system and d = d0
      and rows = "db_system d", OF _ present_steps(7)]
  have tables: "data = \<lparr> bd_users = export_query user_columns (db_users d),
     bd_rooms = export_query room_columns (db_rooms d),
     bd_groups = export_query group_columns (db_groups d),
     bd_devices = export_query device_columns (db_devices d),
     bd_events = export_query event_columns (db_events d),
     bd_config_pushes = export_query push_columns (db_pushes d),
     bd_system_config = export_query system_columns (db_system d) \<rparr>"
    using data by (simp add: export_backup_def)
  have "import_tables h data False d0 = (Inr (table_reports False d), d0)"
    using ints cov
    by (simp add: import_tables_def tables andthen_def steps table_reports_def ints_ok_def
        covered_by_def image_subset_iff)
  then show ?thesis
    by (simp add: import_backup_def transaction_def andthen_def)
qed

text \<open>A merge only appends rows.\<close>

definition extends :: "database \<Rightarrow> database \<Rightarrow> bool" where
  "extends d0 d \<longleftrightarrow>
     prefix (db_users d0) (db_users d) \<and> prefix (db_rooms d0) (db_rooms d) \<and>
     prefix (db_groups d0) (db_groups d) \<and> prefix (db_devices d0) (db_devices d) \<and>
     prefix (db_events d0) (db_events d) \<and> prefix (db_pushes d0) (db_pushes d) \<and>
     prefix (db_system d0) (db_system d) \<and> db_sessions d = db_sessions d0 \<and>
     db_foreign_keys d = db_foreign_keys d0"

lemma insert_or_merge_keeps:
  assumes "\<And>r. keeps P (ins r)"
  shows "keeps P (insert_or ins del orphans False row)"
  using assms
  by (auto simp: keeps_def insert_or_def split: sum.splits prod.splits) (metis snd_conv)

lemma insert_extends:
  "keeps (extends d0) (insert_user u)" "keeps (extends d0) (insert_room r)"
  "keeps (extends d0) (insert_group g)" "keeps (extends d0) (insert_device v)"
  "keeps (extends d0) (insert_event e)" "keeps (extends d0) (insert_push p)"
  "keeps (extends d0) (insert_system k)"
  by (auto simp: keeps_def extends_def insert_user_def insert_room_def insert_group_def
      insert_device_def insert_event_def insert_push_def insert_system_def prefix_def)

lemma insert_or_extends:
  "keeps (extends d0) (insert_or_user False u)" "keeps (extends d0) (insert_or_room False r)"
  "keeps (extends d0) (insert_or_group False g)" "keeps (extends d0) (insert_or_device False v)"
  "keeps (extends d0) (insert_or_event False e)" "keeps (extends d0) (insert_or_push False p)"
  "keeps (extends d0) (insert_or_system False k)"
  unfolding insert_or_user_def insert_or_room_def insert_or_group_def insert_or_device_def
    insert_or_event_def insert_or_push_def insert_or_system_def
  by (intro insert_or_merge_keeps insert_extends)+

lemma import_merge_extends:
  assumes "import_backup h data False src scope d0 = (res, d)"
  shows "extends d0 d"
proof -
  have "keeps (extends d0) (import_backup h data False src scope)"
    unfolding import_backup_def import_tables_def
    by (simp only: if_False) (intro keeps_intro import_rows_keeps insert_or_extends)
  moreover have "extends d0 d0"
    by (simp add: extends_def)
  ultimately show ?thesis
    using assms by (metis keepsD)
qed

end
