(* ===== verification/App_State.thy ===== *)
theory App_State
  imports Backup_Roundtrip
begin

text \<open>
  The shared state of \<open>src/state.rs\<close> and the operations on its parts. A channel to a connected
  client is a connection number; \<open>st_sent\<close> records every message put into a channel, in order, and
  \<open>st_events\<close> every text published to the event stream. Here a handler is one computation on this
  state; \<open>Web_Threads\<close> and \<open>Client_Threads\<close> split it into its statements.
\<close>

section \<open>The state\<close>

type_synonym conn = nat

record login_failure =
  lf_count :: u32
  lf_locked_until :: i64

record app_state =
  st_db :: database
  st_disable_register :: bool
  st_clients :: "string \<Rightarrow> conn option"
  st_events :: "string list"
  st_login_failures :: "string \<Rightarrow> login_failure option"
  st_sent :: "(conn \<times> server_message) list"

text \<open>\<open>AppState::new\<close>.\<close>

definition new_state :: "database \<Rightarrow> bool \<Rightarrow> app_state" where
  "new_state db disable_register = \<lparr> st_db = db, st_disable_register = disable_register,
     st_clients = (\<lambda>_. None), st_events = [], st_login_failures = (\<lambda>_. None), st_sent = [] \<rparr>"

type_synonym ('e, 'a) app_op = "(app_state, 'e, 'a) comp"

section \<open>Operations on its parts\<close>

definition on_db :: "'a db_op \<Rightarrow> (error, 'a) app_op" where
  "on_db m s = (case m (st_db s) of (r, d) \<Rightarrow> (r, s\<lparr>st_db := d\<rparr>))"

text \<open>\<open>state.db.<operation>.map_err(|_| status)\<close>.\<close>

definition db_or :: "status_code \<Rightarrow> 'a db_op \<Rightarrow> (status_code, 'a) app_op" where
  "db_or status m = map_err (on_db m) (\<lambda>_. status)"

definition get_client :: "string \<Rightarrow> ('e, conn option) app_op" where
  "get_client device_id = reading (\<lambda>s. st_clients s device_id)"

definition insert_client :: "string \<Rightarrow> conn \<Rightarrow> ('e, unit) app_op" where
  "insert_client device_id c =
     writing (\<lambda>s. s\<lparr>st_clients := (st_clients s)(device_id := Some c)\<rparr>)"

definition remove_client :: "string \<Rightarrow> ('e, unit) app_op" where
  "remove_client device_id =
     writing (\<lambda>s. s\<lparr>st_clients := (st_clients s)(device_id := None)\<rparr>)"

definition send :: "conn \<Rightarrow> server_message \<Rightarrow> ('e, unit) app_op" where
  "send c message = writing (\<lambda>s. s\<lparr>st_sent := st_sent s @ [(c, message)]\<rparr>)"

definition publish :: "string \<Rightarrow> ('e, unit) app_op" where
  "publish text = writing (\<lambda>s. s\<lparr>st_events := st_events s @ [text]\<rparr>)"

text \<open>
  The values a handler draws from the clock, from \<open>uuid::Uuid::new_v4\<close> and from the random
  number generator, in the order it asks for them.
\<close>

record fresh =
  fr_clock :: "nat \<Rightarrow> i64"
  fr_uuid :: "nat \<Rightarrow> string"
  fr_random :: "nat \<Rightarrow> bytes"
  fr_salt :: string

definition fresh_nonces :: "fresh \<Rightarrow> nonces" where
  "fresh_nonces f = (fr_random f 0, fr_random f 1, fr_random f 2, fr_random f 3)"

definition fresh_from :: "fresh \<Rightarrow> nat \<Rightarrow> fresh" where
  "fresh_from f n = f\<lparr> fr_clock := (\<lambda>i. fr_clock f (n + i)), fr_uuid := (\<lambda>i. fr_uuid f (n + i)),
     fr_random := (\<lambda>i. fr_random f (n + i)) \<rparr>"

section \<open>What they do\<close>

lemma on_db_eq:
  "m (st_db s) = (r, d) \<Longrightarrow> on_db m s = (r, s\<lparr>st_db := d\<rparr>)"
  by (simp add: on_db_def)

lemma on_db_reading [simp]: "on_db (reading f) s = (Inr (f (st_db s)), s)"
  by (simp add: on_db_def)

lemma db_or_reading [simp]: "db_or c (reading f) s = (Inr (f (st_db s)), s)"
  by (simp add: db_or_def map_err_def)

lemma db_or_eq:
  "db_or c m s = (case m (st_db s) of
     (Inl e, d) \<Rightarrow> (Inl c, s\<lparr>st_db := d\<rparr>) | (Inr x, d) \<Rightarrow> (Inr x, s\<lparr>st_db := d\<rparr>))"
  by (simp add: db_or_def map_err_def on_db_def split: prod.splits sum.splits)

lemma keeps_on_db:
  "keeps P m \<Longrightarrow> keeps (\<lambda>s. P (st_db s)) (on_db m)"
  by (auto simp: keeps_def on_db_def split: prod.splits)

lemma keeps_db_or:
  "keeps P m \<Longrightarrow> keeps (\<lambda>s. P (st_db s)) (db_or c m)"
  unfolding db_or_def by (intro keeps_map_err keeps_on_db)

lemmas keeps_db = keeps_on_db keeps_db_or

text \<open>A property of the database alone is kept by what touches the other parts.\<close>

lemma keeps_other_parts [keeps_intro]:
  "keeps (\<lambda>s. P (st_db s)) (get_client i)" "keeps (\<lambda>s. P (st_db s)) (insert_client i c)"
  "keeps (\<lambda>s. P (st_db s)) (remove_client i)" "keeps (\<lambda>s. P (st_db s)) (send c m)"
  "keeps (\<lambda>s. P (st_db s)) (publish t)"
  by (simp_all add: keeps_def get_client_def insert_client_def remove_client_def send_def publish_def)

section \<open>The invariant of the state\<close>

text \<open>
  The constraints of the database, and no failure entry with three failures: the counter is reset
  when it gets there, so it never comes near the end of its 32 bits.
\<close>

definition failures_ok :: "app_state \<Rightarrow> bool" where
  "failures_ok s \<longleftrightarrow> (\<forall>key e. st_login_failures s key = Some e \<longrightarrow> lf_count e < 3)"

definition hub_ok :: "app_state \<Rightarrow> bool" where
  "hub_ok s \<longleftrightarrow> db_ok (st_db s) \<and> failures_ok s"

lemma hub_ok_new_state: "db_ok d \<Longrightarrow> hub_ok (new_state d dr)"
  by (simp add: hub_ok_def failures_ok_def new_state_def)

lemma hub_on_db: "keeps db_ok m \<Longrightarrow> keeps hub_ok (on_db m)"
  by (auto simp: keeps_def on_db_def hub_ok_def failures_ok_def split: prod.splits)

lemma hub_db_or: "keeps db_ok m \<Longrightarrow> keeps hub_ok (db_or c m)"
  unfolding db_or_def by (intro keeps_map_err hub_on_db)

lemma hub_other_parts [keeps_intro]:
  "keeps hub_ok (get_client i)" "keeps hub_ok (insert_client i c)"
  "keeps hub_ok (remove_client i)" "keeps hub_ok (send c m)" "keeps hub_ok (publish t)"
  by (simp_all add: keeps_def get_client_def insert_client_def remove_client_def send_def publish_def
      hub_ok_def failures_ok_def)

lemmas hub_db = hub_on_db hub_db_or

end
