(* ===== verification/Threads.thy ===== *)
theory Threads
  imports App_State
begin

text \<open>
  Handlers as threads: a thread is the rest of a handler as a sequence of atomic steps, the
  statements on the database and the takings of a lock. Between two steps of a thread others may
  run. \<open>alone\<close> is the run without interference; a pool runs several threads on one state in any
  order; \<open>guards\<close> is what the steps of a thread guarantee while the others maintain an invariant.
\<close>

section \<open>Threads\<close>

datatype ('s, 'r) thread = Done 'r | Step "'s \<Rightarrow> ('s, 'r) thread \<times> 's"

abbreviation give :: "'a \<Rightarrow> ('s, 'e + 'a) thread" where
  "give x \<equiv> Done (Inr x)"

abbreviation stop :: "'e \<Rightarrow> ('s, 'e + 'a) thread" where
  "stop e \<equiv> Done (Inl e)"

primrec advance :: "('s, 'r) thread \<Rightarrow> 's \<Rightarrow> ('s, 'r) thread \<times> 's" where
  "advance (Done r) = (\<lambda>s. (Done r, s))"
| "advance (Step f) = f"

primrec alone :: "('s, 'r) thread \<Rightarrow> 's \<Rightarrow> 'r \<times> 's" where
  "alone (Done r) = (\<lambda>s. (r, s))"
| "alone (Step f) = (\<lambda>s. case map_prod alone id (f s) of (go, s') \<Rightarrow> go s')"

text \<open>\<open>atomic m k\<close>: execute \<open>m\<close> in one step, go on with \<open>k\<close> unless it fails; \<open>checked\<close> is the same
  for a result that is there without a step, \<open>then_t\<close> for a thread.\<close>

definition atomic :: "('s, 'e, 'a) comp \<Rightarrow> ('a \<Rightarrow> ('s, 'e + 'b) thread) \<Rightarrow> ('s, 'e + 'b) thread" where
  "atomic m k = Step (\<lambda>s. case m s of (Inl e, s') \<Rightarrow> (stop e, s') | (Inr x, s') \<Rightarrow> (k x, s'))"

definition checked :: "'e + 'a \<Rightarrow> ('a \<Rightarrow> ('s, 'e + 'b) thread) \<Rightarrow> ('s, 'e + 'b) thread" where
  "checked r k = (case r of Inl e \<Rightarrow> stop e | Inr x \<Rightarrow> k x)"

primrec then_t ::
    "('s, 'e + 'a) thread \<Rightarrow> ('a \<Rightarrow> ('s, 'e + 'b) thread) \<Rightarrow> ('s, 'e + 'b) thread" where
  "then_t (Done r) = (\<lambda>k. checked r k)"
| "then_t (Step f) = (\<lambda>k. Step (\<lambda>s. case map_prod then_t id (f s) of (go, s') \<Rightarrow> (go k, s')))"

definition stmt :: "('s, 'e, 'a) comp \<Rightarrow> ('s, 'e + 'a) thread" where
  "stmt m = atomic m give"

definition map_err_t :: "('s, 'e + 'a) thread \<Rightarrow> ('e \<Rightarrow> 'f) \<Rightarrow> ('s, 'f + 'a) thread" where
  "map_err_t t f = map_thread (map_sum f id) t"

definition attempt_t :: "('s, 'r) thread \<Rightarrow> ('s, 'f + 'r) thread" where
  "attempt_t t = map_thread Inr t"

text \<open>A thread whose result nobody looks at.\<close>

definition finished :: "('s, 'r) thread \<Rightarrow> ('s, unit) thread" where
  "finished t = map_thread (\<lambda>_. ()) t"

text \<open>A thread on a part of the state, as one on the whole.\<close>

primrec focus_t :: "('s \<Rightarrow> 'p) \<Rightarrow> ('p \<Rightarrow> 's \<Rightarrow> 's) \<Rightarrow> ('p, 'r) thread \<Rightarrow> ('s, 'r) thread" where
  "focus_t get put (Done r) = Done r"
| "focus_t get put (Step f) =
     Step (\<lambda>s. case map_prod (focus_t get put) id (f (get s)) of (t, x) \<Rightarrow> (t, put x s))"

definition on_db_t :: "(database, 'r) thread \<Rightarrow> (app_state, 'r) thread" where
  "on_db_t = focus_t st_db (\<lambda>d s. s\<lparr>st_db := d\<rparr>)"

section \<open>The run of one thread\<close>

lemma thread_steps [case_names Done Step]:
  assumes "\<And>r. P (Done r)" and "\<And>f. (\<And>s. P (fst (f s))) \<Longrightarrow> P (Step f)"
  shows "P t"
proof (induction t)
  case (Step f)
  have "P (fst (f s))" for s
    using Step [OF rangeI [of f s], of "fst (f s)"] by (simp add: fsts.simps)
  then show ?case
    by (rule assms(2))
qed (rule assms(1))

lemma checked_simps [simp]: "checked (Inl e) k = stop e" "checked (Inr x) k = k x"
  by (simp_all add: checked_def)

lemma map_sum_Inr [simp]: "map_sum g id r = Inr x \<longleftrightarrow> r = Inr x"
  by (cases r) simp_all

lemma advance_atomic:
  "advance (atomic m k) s = (case m s of (Inl e, s') \<Rightarrow> (stop e, s') | (Inr x, s') \<Rightarrow> (k x, s'))"
  by (simp add: atomic_def)

lemma alone_atomic [simp]: "alone (atomic m k) = andthen m (\<lambda>x. alone (k x))"
  by (auto simp: atomic_def andthen_def fun_eq_iff split: prod.splits sum.splits)

lemma alone_checked [simp]: "alone (checked r k) = andthen (of_result r) (\<lambda>x. alone (k x))"
  by (auto simp: checked_def fun_eq_iff split: sum.splits)

declare alone.simps(1) [simp del]

lemma alone_Done [simp]:
  "alone (Done r) = of_result r" "of_result (Inr x) = ret x" "of_result (Inl e) = fail e"
  by (simp_all add: fun_eq_iff alone.simps)

text \<open>\<open>alone\<close> goes into the branches of a case distinction.\<close>

lemma alone_cases [simp]:
  "alone (case p of (x, y) \<Rightarrow> g x y) = (case p of (x, y) \<Rightarrow> alone (g x y))"
  "alone (case z of None \<Rightarrow> t | Some x \<Rightarrow> k x) = (case z of None \<Rightarrow> alone t | Some x \<Rightarrow> alone (k x))"
  "alone (if b then t else u) = (if b then alone t else alone u)"
  by (simp_all split: prod.split option.split)

lemmas alone_cong = prod.case_cong option.case_cong if_cong

lemma alone_then [simp]: "alone (then_t t k) = andthen (alone t) (\<lambda>x. alone (k x))"
proof
  fix s
  show "alone (then_t t k) s = andthen (alone t) (\<lambda>x. alone (k x)) s"
  proof (induction t arbitrary: s rule: thread_steps)
    case (Step f)
    show ?case
      using Step [of s "snd (f s)"] by (simp add: andthen_def case_prod_beta map_prod_def)
  qed (simp add: andthen_def split: sum.split)
qed

lemma alone_stmt [simp]: "alone (stmt m) = m"
  by (auto simp: stmt_def fun_eq_iff andthen_def split: prod.splits sum.splits)

lemma alone_map: "alone (map_thread g t) s = map_prod g id (alone t s)"
proof (induction t arbitrary: s rule: thread_steps)
  case (Step f)
  show ?case
    using Step [of s "snd (f s)"] by (simp add: case_prod_beta map_prod_def)
qed (simp add: alone.simps)

lemma alone_map_err [simp]: "alone (map_err_t t f) = map_err (alone t) f"
  by (auto simp: fun_eq_iff map_err_t_def alone_map map_err_def split: prod.splits sum.splits)

lemma alone_focus:
  assumes "\<And>x s. get (put x s) = x" "\<And>s. put (get s) s = s" "\<And>x y s. put x (put y s) = put x s"
  shows "alone (focus_t get put t) s = (case alone t (get s) of (r, x) \<Rightarrow> (r, put x s))"
proof (induction t arbitrary: s rule: thread_steps)
  case (Step f)
  show ?case
    using Step [of "get s" "put (snd (f (get s))) s"] assms by (simp add: case_prod_beta map_prod_def)
qed (simp add: alone.simps assms)

lemma alone_on_db [simp]: "alone (on_db_t t) = on_db (alone t)"
  by (simp add: fun_eq_iff on_db_t_def alone_focus on_db_def)

section \<open>Pools\<close>

inductive pool_step ::
    "('s, 'r) thread list \<times> 's \<Rightarrow> ('s, 'r) thread list \<times> 's \<Rightarrow> bool" where
  turn: "i < length ts \<Longrightarrow> advance (ts ! i) s = (t', s') \<Longrightarrow> pool_step (ts, s) (ts[i := t'], s')"

inductive_cases pool_stepE: "pool_step (ts, s) p"

lemma pool_step_at: "advance t s = (t', s') \<Longrightarrow> pool_step (ts @ t # us, s) (ts @ t' # us, s')"
  using pool_step.turn [of "length ts" "ts @ t # us" s t' s'] by simp

text \<open>A part of the run of one thread, in a pool and inside a larger thread.\<close>

definition thread_step :: "('s, 'r) thread \<times> 's \<Rightarrow> ('s, 'r) thread \<times> 's \<Rightarrow> bool" where
  "thread_step p q \<longleftrightarrow> advance (fst p) (snd p) = q"

abbreviation runs :: "('s, 'r) thread \<times> 's \<Rightarrow> ('s, 'r) thread \<times> 's \<Rightarrow> bool" where
  "runs \<equiv> thread_step\<^sup>*\<^sup>*"

lemma runs_step: "advance t s = p \<Longrightarrow> runs p q \<Longrightarrow> runs (t, s) q"
  by (rule converse_rtranclp_into_rtranclp) (simp_all add: thread_step_def)

lemma runs_alone: "alone t s = (r, s') \<Longrightarrow> runs (t, s) (Done r, s')"
proof (induction t arbitrary: s rule: thread_steps)
  case (Step f)
  obtain t s1 where t: "f s = (t, s1)"
    by force
  with Step.prems Step.IH [of s s1] have "runs (t, s1) (Done r, s')"
    by simp
  then show ?case
    by (rule runs_step [rotated]) (simp add: t)
qed (simp add: alone.simps)

lemma runs_lift:
  assumes "runs (t, s) (t', s')" and "\<And>t s t' s'. advance t s = (t', s') \<Longrightarrow> R\<^sup>*\<^sup>* (g t s) (g t' s')"
  shows "R\<^sup>*\<^sup>* (g t s) (g t' s')"
  using assms(1)
proof (induction "(t', s')" arbitrary: t' s' rule: rtranclp_induct)
  case (step q)
  obtain u v where q: "q = (u, v)"
    by force
  with step have "R\<^sup>*\<^sup>* (g t s) (g u v)" "advance u v = (t', s')"
    by (simp_all add: thread_step_def)
  with assms(2) show ?case
    by (blast intro: rtranclp_trans)
qed simp

lemma runs_then:
  fixes t :: "('s, 'e + 'a) thread"
  assumes "runs (t, s) (t', s')"
  shows "runs (then_t t k, s) (then_t t' k, s')"
  using assms
proof (rule runs_lift [where g = "\<lambda>t s. (then_t t k, s)"])
  fix t :: "('s, 'e + 'a) thread" and s t' s'
  assume "advance t s = (t', s')"
  then show "runs (then_t t k, s) (then_t t' k, s')"
    by (cases t) (auto intro!: runs_step)
qed

lemma runs_map:
  fixes t :: "('s, 'r) thread"
  assumes "runs (t, s) (t', s')"
  shows "runs (map_thread g t, s) (map_thread g t', s')"
  using assms
proof (rule runs_lift [where g = "\<lambda>t s. (map_thread g t, s)"])
  fix t :: "('s, 'r) thread" and s t' s'
  assume "advance t s = (t', s')"
  then show "runs (map_thread g t, s) (map_thread g t', s')"
    by (cases t) (auto intro!: runs_step)
qed

lemma runs_focus:
  fixes get :: "'s \<Rightarrow> 'p" and t t' :: "('p, 'r) thread"
  assumes "runs (t, get s) (t', x)"
    and "\<And>x s. get (put x s) = x" "\<And>s. put (get s) s = s" "\<And>x y s. put x (put y s) = put x s"
  shows "runs (focus_t get put t, s) (focus_t get put t', put x s)"
proof -
  have "runs (focus_t get put t, put v s) (focus_t get put t', put x s)" if "runs (t, v) (t', x)" for v
    using that
  proof (rule runs_lift [where g = "\<lambda>t v. (focus_t get put t, put v s)"])
    fix t :: "('p, 'r) thread" and v t' v'
    assume "advance t v = (t', v')"
    then show "runs (focus_t get put t, put v s) (focus_t get put t', put v' s)"
      by (cases t) (auto intro!: runs_step simp: assms)
  qed
  from this [OF assms(1)] show ?thesis
    by (simp add: assms(3))
qed

lemma pool_runs:
  "runs (t, s) (t', s') \<Longrightarrow> pool_step\<^sup>*\<^sup>* (ts @ t # us, s) (ts @ t' # us, s')"
  by (erule runs_lift [where g = "\<lambda>t s. (ts @ t # us, s)"]) (blast intro: pool_step_at)

lemma runs_finished:
  "runs (t, s) (t', s') \<Longrightarrow> runs (finished t, s) (finished t', s')"
  "alone t s = (r, s') \<Longrightarrow> runs (finished t, s) (Done (), s')"
proof -
  show "runs (t, s) (t', s') \<Longrightarrow> runs (finished t, s) (finished t', s')"
    unfolding finished_def by (rule runs_map)
  show "alone t s = (r, s') \<Longrightarrow> runs (finished t, s) (Done (), s')"
    by (rule runs_alone) (simp add: finished_def alone_map)
qed

text \<open>All threads of a pool can take a step one after the other.\<close>

lemma pool_round:
  assumes "list_all2 (\<lambda>t t'. \<forall>s. P s \<longrightarrow> (\<exists>s'. advance t s = (t', s') \<and> P s')) ts ts'" and "P s"
  shows "\<exists>s'. pool_step\<^sup>*\<^sup>* (us @ ts, s) (us @ ts', s') \<and> P s'"
  using assms
proof (induction arbitrary: us s rule: list_all2_induct)
  case (Cons t ts t' ts')
  then obtain s1 where step: "advance t s = (t', s1)" "P s1"
    by blast
  with Cons.IH [of s1 "us @ [t']"] obtain s' where
    "pool_step\<^sup>*\<^sup>* (us @ t' # ts, s1) (us @ t' # ts', s')" "P s'"
    by auto
  with pool_step_at [OF step(1)] show ?case
    by (meson converse_rtranclp_into_rtranclp)
qed auto

section \<open>Guarantees\<close>

text \<open>\<open>guards J G Q t\<close>: as long as \<open>J\<close> holds before each step of \<open>t\<close>, each step is in \<open>G\<close>, and the
  result, if there is one, has \<open>Q\<close>.\<close>

inductive guards :: "('s \<Rightarrow> bool) \<Rightarrow> ('s \<Rightarrow> 's \<Rightarrow> bool) \<Rightarrow> ('r \<Rightarrow> bool) \<Rightarrow> ('s, 'r) thread \<Rightarrow> bool"
  for J G Q where
  over: "Q r \<Longrightarrow> guards J G Q (Done r)"
| step: "(\<And>s. J s \<Longrightarrow> G s (snd (f s))) \<Longrightarrow> (\<And>s. J s \<Longrightarrow> guards J G Q (fst (f s))) \<Longrightarrow>
    guards J G Q (Step f)"

inductive_simps guards_Done [simp]: "guards J G Q (Done r)"
inductive_simps guards_Step: "guards J G Q (Step f)"

abbreviation thread_keeps :: "('s \<Rightarrow> bool) \<Rightarrow> ('s, 'r) thread \<Rightarrow> bool" where
  "thread_keeps P \<equiv> guards P (\<lambda>_. P) (\<lambda>_. True)"

text \<open>The relational form of \<open>keeps\<close>.\<close>

definition obeys :: "('s \<Rightarrow> bool) \<Rightarrow> ('s \<Rightarrow> 's \<Rightarrow> bool) \<Rightarrow> ('s, 'e, 'a) comp \<Rightarrow> bool" where
  "obeys J G m \<longleftrightarrow> (\<forall>s. J s \<longrightarrow> G s (snd (m s)))"

lemma obeys_keeps: "obeys P (\<lambda>_. P) m \<longleftrightarrow> keeps P m"
  by (simp add: obeys_def keeps_def)

lemma guards_atomic:
  assumes "obeys J G m"
    and "\<And>s x. J s \<Longrightarrow> fst (m s) = Inr x \<Longrightarrow> guards J G Q (k x)"
    and "\<And>s e. J s \<Longrightarrow> fst (m s) = Inl e \<Longrightarrow> Q (Inl e)"
  shows "guards J G Q (atomic m k)"
  unfolding atomic_def
proof (rule guards.step)
  fix s assume "J s"
  with assms show "G s (snd (case m s of (Inl e, s') \<Rightarrow> (stop e, s') | (Inr x, s') \<Rightarrow> (k x, s')))"
    by (fastforce simp: obeys_def split: prod.splits sum.splits)
  show "guards J G Q (fst (case m s of (Inl e, s') \<Rightarrow> (stop e, s') | (Inr x, s') \<Rightarrow> (k x, s')))"
    using assms(2,3) [OF \<open>J s\<close>] by (auto split: prod.splits sum.splits)
qed

lemma guards_checked:
  "(\<And>x. r = Inr x \<Longrightarrow> guards J G Q (k x)) \<Longrightarrow> (\<And>e. r = Inl e \<Longrightarrow> Q (Inl e)) \<Longrightarrow>
     guards J G Q (checked r k)"
  by (cases r) simp_all

lemma guards_then:
  assumes "guards J G R t" and "\<And>x. R (Inr x) \<Longrightarrow> guards J G Q (k x)" and "\<And>e. R (Inl e) \<Longrightarrow> Q (Inl e)"
  shows "guards J G Q (then_t t k)"
  using assms(1)
proof (induction rule: guards.induct)
  case (over r)
  then show ?case
    using assms(2,3) by (cases r) simp_all
next
  case (step f)
  then show ?case
    by (simp add: guards_Step case_prod_beta map_prod_def)
qed

lemma guards_map: "guards J G (\<lambda>r. Q (g r)) t \<Longrightarrow> guards J G Q (map_thread g t)"
  by (induction rule: guards.induct) (auto intro!: guards.step)

text \<open>Where the results do not matter, the rules follow the shape of the thread.\<close>

lemma guards_intros [keeps_intro]:
  "guards J G (\<lambda>_. True) (Done r)"
  "obeys J G m \<Longrightarrow> (\<And>x. guards J G (\<lambda>_. True) (k x)) \<Longrightarrow> guards J G (\<lambda>_. True) (atomic m k)"
  "obeys J G m \<Longrightarrow> guards J G (\<lambda>_. True) (stmt m)"
  "(\<And>x. r' = Inr x \<Longrightarrow> guards J G (\<lambda>_. True) (k' x)) \<Longrightarrow> guards J G (\<lambda>_. True) (checked r' k')"
  "guards J G (\<lambda>_. True) t \<Longrightarrow> (\<And>x. guards J G (\<lambda>_. True) (u x)) \<Longrightarrow>
     guards J G (\<lambda>_. True) (then_t t u)"
  "guards J G (\<lambda>_. True) t \<Longrightarrow> guards J G (\<lambda>_. True) (map_err_t t g)"
  "guards J G (\<lambda>_. True) q \<Longrightarrow> guards J G (\<lambda>_. True) (attempt_t q)"
  by (auto simp: stmt_def map_err_t_def attempt_t_def
      intro!: guards_atomic guards_checked guards_map intro: guards_then)

lemma guards_cases [keeps_intro]:
  "(b \<Longrightarrow> guards J G Q t) \<Longrightarrow> (\<not> b \<Longrightarrow> guards J G Q u) \<Longrightarrow> guards J G Q (if b then t else u)"
  "guards J G Q t \<Longrightarrow> (\<And>x. z = Some x \<Longrightarrow> guards J G Q (k x)) \<Longrightarrow>
     guards J G Q (case z of None \<Rightarrow> t | Some x \<Rightarrow> k x)"
  "(\<And>e. w = Inl e \<Longrightarrow> guards J G Q (l e)) \<Longrightarrow> (\<And>x. w = Inr x \<Longrightarrow> guards J G Q (r x)) \<Longrightarrow>
     guards J G Q (case w of Inl e \<Rightarrow> l e | Inr x \<Rightarrow> r x)"
  "(\<And>x y. p = (x, y) \<Longrightarrow> guards J G Q (h x y)) \<Longrightarrow> guards J G Q (case p of (x, y) \<Rightarrow> h x y)"
  by (simp_all split: option.splits sum.splits prod.splits)

lemma obeys_keepsI [keeps_intro]: "keeps P m \<Longrightarrow> obeys P (\<lambda>_. P) m"
  by (simp add: obeys_keeps)

lemma obeys_andthen:
  assumes "transp G" "obeys (\<lambda>_. True) G m" "\<And>x. obeys (\<lambda>_. True) G (k x)"
  shows "obeys (\<lambda>_. True) G (andthen m k)"
  unfolding obeys_def
proof (intro allI impI)
  fix s
  obtain r s1 where m: "m s = (r, s1)"
    by force
  then have "G s s1"
    using assms(2) by (auto simp: obeys_def dest: spec [of _ s])
  moreover have "G s1 (snd (k x s1))" for x
    using assms(3) by (simp add: obeys_def)
  ultimately show "G s (snd (andthen m k s))"
    using m transpD [OF assms(1)] by (cases r) (auto simp: andthen_def)
qed

lemma guards_mono:
  "guards J G Q t \<Longrightarrow> (\<And>s. J' s \<Longrightarrow> J s) \<Longrightarrow> (\<And>s s'. J' s \<Longrightarrow> G s s' \<Longrightarrow> G' s s') \<Longrightarrow>
     (\<And>r. Q r \<Longrightarrow> Q' r) \<Longrightarrow> guards J' G' Q' t"
  by (induction rule: guards.induct) (auto intro!: guards.intros)

lemma guards_both:
  "guards J G Q t \<Longrightarrow> guards J G' Q' t \<Longrightarrow> guards J (\<lambda>s s'. G s s' \<and> G' s s') (\<lambda>r. Q r \<and> Q' r) t"
  by (induction rule: guards.induct) (auto simp: guards_Step)

lemma guards_finished [keeps_intro]:
  "guards J G (\<lambda>_. True) t \<Longrightarrow> guards J G (\<lambda>_. True) (finished t)"
  unfolding finished_def by (rule guards_map)

lemma guards_focus:
  assumes "guards J G Q t" "\<And>s. J' s \<Longrightarrow> J (get s)"
    and "\<And>s x. J' s \<Longrightarrow> G (get s) x \<Longrightarrow> G' s (put x s)"
  shows "guards J' G' Q (focus_t get put t)"
  using assms(1)
  by (induction rule: guards.induct) (auto simp: guards_Step case_prod_beta map_prod_def assms(2,3))

lemma thread_keeps_on_db: "thread_keeps P t \<Longrightarrow> thread_keeps (\<lambda>s. P (st_db s)) (on_db_t t)"
  unfolding on_db_t_def by (erule guards_focus) auto

text \<open>Every schedule of a pool is a sequence of steps that its threads guarantee.\<close>

lemma guards_advance:
  assumes "guards J G Q t" "advance t s = (t', s')" "J s"
  shows "guards J G Q t' \<and> (G s s' \<or> s' = s)"
  using assms by (cases t) (auto simp: guards_Step dest: spec [of _ s])

lemma pool_guards:
  assumes "pool_step\<^sup>*\<^sup>* (ts, s) (ts', s')" and "\<forall>t \<in> set ts. guards J G Q t" and "J s"
    and "\<And>s s'. G s s' \<Longrightarrow> J s \<Longrightarrow> J s'"
  shows "(\<forall>t \<in> set ts'. guards J G Q t) \<and> J s' \<and> G\<^sup>*\<^sup>* s s'"
  using assms(1-3)
proof (induction "(ts', s')" arbitrary: ts' s' rule: rtranclp_induct)
  case (step p)
  obtain us u where p: "p = (us, u)"
    by force
  with step have keep: "\<forall>t \<in> set us. guards J G Q t" "J u" "G\<^sup>*\<^sup>* s u"
    by auto
  obtain i t' where i: "i < length us" "advance (us ! i) u = (t', s')" "ts' = us[i := t']"
    using step.hyps(2) unfolding p by (blast elim: pool_stepE)
  then have "guards J G Q t' \<and> (G u s' \<or> s' = u)"
    using guards_advance keep nth_mem by metis
  with keep i assms(4) [of u s'] show ?case
    by (auto dest!: set_update_subset_insert [THEN subsetD] intro: rtranclp.rtrancl_into_rtrancl)
qed auto

lemma pool_keeps:
  "pool_step\<^sup>*\<^sup>* (ts, s) (ts', s') \<Longrightarrow> \<forall>t \<in> set ts. thread_keeps P t \<Longrightarrow> P s \<Longrightarrow> P s'"
  using pool_guards [of ts s ts' s' P "\<lambda>_. P"] by simp

end
