(* ===== verification/Db_Threads.thy ===== *)
theory Db_Threads
  imports Threads
begin

text \<open>
  The operations of \<open>src/db.rs\<close> with more than one statement and no transaction, as threads with one
  step for each statement. Run alone, each is the operation of the other theories; an operation of a
  single statement, or in a transaction, is one step.
\<close>

section \<open>Rooms\<close>

fun create_room_loop_t ::
    "host \<Rightarrow> (nat \<Rightarrow> bytes) \<Rightarrow> i64 \<Rightarrow> string \<Rightarrow> string \<Rightarrow> nat list \<Rightarrow> (database, error + room) thread" where
  "create_room_loop_t h draw now owner_id name [] = stop (Bail ''room id conflict'')"
| "create_room_loop_t h draw now owner_id name (i # is) =
     (let id = room_id h (draw i) in
      atomic (reading (\<lambda>d. count_where (\<lambda>r. rm_id r = id) (db_rooms d))) (\<lambda>exists.
      if exists \<noteq> 0 then create_room_loop_t h draw now owner_id name is
      else
        let r = \<lparr> rm_id = id, rm_name = name, rm_owner_id = owner_id, rm_created_at = now \<rparr>
        in atomic (insert_room r) (\<lambda>_. give r)))"

definition create_room_t ::
    "host \<Rightarrow> (nat \<Rightarrow> bytes) \<Rightarrow> i64 \<Rightarrow> string \<Rightarrow> string \<Rightarrow> (database, error + room) thread" where
  "create_room_t h draw now owner_id name = create_room_loop_t h draw now owner_id name [0..<5]"

section \<open>Devices\<close>

definition upsert_device_hello_t ::
    "host \<Rightarrow> string \<Rightarrow> bytes \<Rightarrow> i64 \<Rightarrow> string \<Rightarrow> string option \<Rightarrow> string option \<Rightarrow> string \<Rightarrow>
     string option \<Rightarrow> string option \<Rightarrow> (database, error + (string \<times> string option \<times> string)) thread" where
  "upsert_device_hello_t h uuid rnd now rid device_id device_token device_name client_version
       console_public_ip =
     (case (device_id, device_token) of
        (Some did, Some token) \<Rightarrow>
          atomic (reading (\<lambda>d. fetch_optional (\<lambda>r. dv_id r = did \<and> dv_room_id r = rid) (db_devices d)))
            (\<lambda>row. case row of
               None \<Rightarrow> stop (Bail ''device auth failed'')
             | Some row \<Rightarrow>
                 if dv_device_token row \<noteq> token then stop (Bail ''device auth failed'')
                 else
                   atomic (update_devices (\<lambda>r. dv_id r = did)
                     (hello_update device_name client_version console_public_ip now)) (\<lambda>_.
                   give (did, None, dv_status row)))
      | _ \<Rightarrow>
          let token = random_base64 h (take 32 rnd) in
          atomic (insert_device
              (new_device uuid rid device_name client_version console_public_ip token now)) (\<lambda>_.
          give (uuid, Some token, ''pending'')))"

definition update_device_t ::
    "string \<Rightarrow> string \<Rightarrow> update_device_request \<Rightarrow> (database, error + unit) thread" where
  "update_device_t rid device_id req =
     atomic (reading (\<lambda>d. fetch_optional (\<lambda>r. dv_id r = device_id \<and> dv_room_id r = rid) (db_devices d)))
       (\<lambda>current. case current of
          None \<Rightarrow> stop (Bail ''device not found'')
        | Some row \<Rightarrow>
            let display_name = (case ud_display_name req of Some n \<Rightarrow> n | None \<Rightarrow> dv_display_name row);
                group_id = coalesce (ud_group_id req) (dv_group_id row);
                network_ip = coalesce (ud_network_ip req) (dv_network_ip row);
                network_node_id = coalesce (ud_network_node_id req) (dv_network_node_id row)
            in atomic (update_devices_group (\<lambda>r. dv_id r = device_id \<and> dv_room_id r = rid)
                 (\<lambda>r. r\<lparr>dv_display_name := display_name, dv_group_id := group_id,
                        dv_network_ip := network_ip, dv_network_node_id := network_node_id\<rparr>)) (\<lambda>_.
               give ()))"

definition set_device_group_t ::
    "string \<Rightarrow> string option \<Rightarrow> string \<Rightarrow> (database, error + unit) thread" where
  "set_device_group_t rid group_id device_id =
     then_t (case group_id of
         None \<Rightarrow> give ()
       | Some gid \<Rightarrow>
           atomic (reading (\<lambda>d. count_where (\<lambda>g. gr_id g = gid \<and> gr_room_id g = rid) (db_groups d)))
             (\<lambda>exists. if exists = 0 then stop (Bail ''group not found'') else give ())) (\<lambda>_.
     atomic (update_devices_group (\<lambda>r. dv_id r = device_id \<and> dv_room_id r = rid)
       (\<lambda>r. r\<lparr>dv_group_id := group_id\<rparr>)) (\<lambda>rows_affected.
     if rows_affected = 0 then stop (Bail ''device not found'') else give ()))"

section \<open>Groups\<close>

definition create_group_with_version_t ::
    "host \<Rightarrow> string \<Rightarrow> nonces \<Rightarrow> i64 \<Rightarrow> i64 \<Rightarrow> string \<Rightarrow> string \<Rightarrow> vnt_client_config \<Rightarrow> i64 \<Rightarrow>
     (database, error + group) thread" where
  "create_group_with_version_t h uuid nonces now1 now2 rid name config config_version =
     atomic (create_group h uuid nonces now1 rid name config) (\<lambda>group.
     let version = max config_version 1 in
     if version \<noteq> grp_config_version group then
       atomic (update_groups (\<lambda>g. gr_id g = grp_id group)
         (\<lambda>g. g\<lparr>gr_config_version := version, gr_updated_at := now2\<rparr>)) (\<lambda>_.
       give (group\<lparr>grp_config_version := version, grp_updated_at := now2\<rparr>))
     else give group)"

text \<open>\<open>update_group\<close> of \<open>src/db.rs\<close>: the row is read and written by two statements, without a
  transaction.\<close>

definition update_group_thread :: "host \<Rightarrow> nonces \<Rightarrow> i64 \<Rightarrow> string \<Rightarrow> string \<Rightarrow>
    update_group_request \<Rightarrow> (database, error + group) thread" where
  "update_group_thread h nonces now rid gid req =
     (let (n_token, n_server, n_password, n_config) = nonces; master = master_key h in
      atomic (reading (\<lambda>d. fetch_optional (\<lambda>g. gr_id g = gid \<and> gr_room_id g = rid) (db_groups d)))
      (\<lambda>row. case row of
         None \<Rightarrow> Done (Inl (Bail ''group not found''))
       | Some row \<Rightarrow>
         let name = (case ug_name req of Some n \<Rightarrow> n | None \<Rightarrow> gr_name row);
             version = i64_add (gr_config_version row) 1;
             created_at = gr_created_at row in
         checked (decrypt_group_config h gid (gr_encrypted_token row)
           (gr_encrypted_server row) (gr_encrypted_password row) (gr_extra_config row))
         (\<lambda>current_config.
         checked (map_transpose (\<lambda>v. encrypt_to_base64 h n_token master
           (group_context gid ''token'') (vc_token v)) (ug_config req)) (\<lambda>encrypted_token.
         checked (map_transpose (\<lambda>v. encrypt_to_base64 h n_server master
           (group_context gid ''server'') (vc_server_address v)) (ug_config req)) (\<lambda>encrypted_server.
         checked (case ug_config req of
             Some config \<Rightarrow> encrypt_optional_field h n_password master
               (group_context gid ''password'') (vc_password config)
           | None \<Rightarrow> Inr (gr_encrypted_password row)) (\<lambda>encrypted_password.
         checked (map_transpose (encrypted_extra_config h n_config master gid)
           (ug_config req)) (\<lambda>extra_config.
         atomic (update_groups (\<lambda>g. gr_id g = gid \<and> gr_room_id g = rid) (\<lambda>g. g\<lparr>
           gr_name := name,
           gr_encrypted_token := coalesce encrypted_token (gr_encrypted_token g),
           gr_encrypted_server := coalesce encrypted_server (gr_encrypted_server g),
           gr_encrypted_password := encrypted_password,
           gr_extra_config := coalesce extra_config (gr_extra_config g),
           gr_config_version := version,
           gr_updated_at := now\<rparr>)) (\<lambda>_.
         Done (Inr \<lparr> grp_id = gid, grp_room_id = rid, grp_name = name, grp_config_version = version,
               grp_created_at = created_at, grp_updated_at = now,
               grp_config = coalesce (ug_config req) current_config \<rparr>)))))))))"

lemma update_group_alone:
  "alone (update_group_thread h ns now rid gid req) = update_group h ns now rid gid req"
proof
  fix d
  show "alone (update_group_thread h ns now rid gid req) d = update_group h ns now rid gid req d"
    by (cases ns; cases "ug_config req";
        auto simp: update_group_thread_def update_group_def Let_def andthen_def update_groups_def
          split: option.split sum.split)
qed

text \<open>\<open>device_config\<close>: one statement joins the device with its group, another reads the group that
  overrides it.\<close>

definition device_config_t :: "host \<Rightarrow> string \<Rightarrow> string option \<Rightarrow>
    (database, error + (string option \<times> i64 \<times> vnt_client_config) option) thread" where
  "device_config_t h device_id override_group_id =
     atomic (reading (\<lambda>d.
       case fetch_optional (\<lambda>r. dv_id r = device_id) (db_devices d) of
         None \<Rightarrow> None
       | Some row \<Rightarrow> Some (row, Option.bind (dv_group_id row)
           (\<lambda>k. fetch_optional (\<lambda>g. gr_id g = k) (db_groups d))))) (\<lambda>found.
     case found of
       None \<Rightarrow> give None
     | Some (row, joined) \<Rightarrow>
       then_t (case override_group_id of
           None \<Rightarrow> give (dv_group_id row, joined)
         | Some gid \<Rightarrow>
             atomic (reading (\<lambda>d. fetch_optional (\<lambda>g. gr_id g = gid) (db_groups d))) (\<lambda>group_row.
             case group_row of
               None \<Rightarrow> stop (Bail ''group not found'')
             | Some g \<Rightarrow> give (Some gid, Some g))) (\<lambda>(effective_group_id, g).
       let version = (case g of Some g \<Rightarrow> gr_config_version g
                      | None \<Rightarrow> i64_add (dv_config_version row) 1) in
       checked (case effective_group_id of
           None \<Rightarrow> Inr default_config
         | Some gid \<Rightarrow>
             result_then (decrypt_group_config h gid
               (Option.bind g gr_encrypted_token) (Option.bind g gr_encrypted_server)
               (Option.bind g gr_encrypted_password) (Option.bind g gr_extra_config)) (\<lambda>c.
             Inr (case c of None \<Rightarrow> default_config | Some c \<Rightarrow> c))) (\<lambda>config.
       give (Some (effective_group_id, version, device_fields row device_id config)))))"

section \<open>Exports\<close>

text \<open>An export reads the tables one after the other.\<close>

definition export_backup_t :: "(database, error + backup_data) thread" where
  "export_backup_t =
     atomic (reading (\<lambda>d. export_query user_columns (db_users d))) (\<lambda>users.
     atomic (reading (\<lambda>d. export_query room_columns (db_rooms d))) (\<lambda>rooms.
     atomic (reading (\<lambda>d. export_query group_columns (db_groups d))) (\<lambda>groups.
     atomic (reading (\<lambda>d. export_query device_columns (db_devices d))) (\<lambda>devices.
     atomic (reading (\<lambda>d. export_query event_columns (db_events d))) (\<lambda>events.
     atomic (reading (\<lambda>d. export_query push_columns (db_pushes d))) (\<lambda>config_pushes.
     atomic (reading (\<lambda>d. export_query system_columns (db_system d))) (\<lambda>system_config.
     give \<lparr> bd_users = users, bd_rooms = rooms, bd_groups = groups, bd_devices = devices,
            bd_events = events, bd_config_pushes = config_pushes,
            bd_system_config = system_config \<rparr>)))))))"

definition export_user_backup_t :: "string \<Rightarrow> (database, error + backup_data) thread" where
  "export_user_backup_t user_id =
     atomic (reading (\<lambda>d. export_query user_columns
       (select_where (\<lambda>u. us_id u = user_id) (db_users d)))) (\<lambda>users.
     atomic (reading (\<lambda>d. export_query room_columns
       (select_where (\<lambda>r. rm_owner_id r = user_id) (db_rooms d)))) (\<lambda>rooms.
     atomic (reading (\<lambda>d. export_query group_columns
       [g. g \<leftarrow> db_groups d, r \<leftarrow> db_rooms d, gr_room_id g = rm_id r, rm_owner_id r = user_id])) (\<lambda>groups.
     atomic (reading (\<lambda>d. export_query device_columns
       [v. v \<leftarrow> db_devices d, r \<leftarrow> db_rooms d, dv_room_id v = rm_id r, rm_owner_id r = user_id])) (\<lambda>devices.
     atomic (reading (\<lambda>d. export_query event_columns
       [e. e \<leftarrow> db_events d, v \<leftarrow> db_devices d, ei_device_id e = dv_id v,
           r \<leftarrow> db_rooms d, dv_room_id v = rm_id r, rm_owner_id r = user_id])) (\<lambda>events.
     atomic (reading (\<lambda>d. export_query push_columns
       [c. c \<leftarrow> db_pushes d, v \<leftarrow> db_devices d, pu_device_id c = dv_id v,
           r \<leftarrow> db_rooms d, dv_room_id v = rm_id r, rm_owner_id r = user_id])) (\<lambda>config_pushes.
     give \<lparr> bd_users = users, bd_rooms = rooms, bd_groups = groups, bd_devices = devices,
            bd_events = events, bd_config_pushes = config_pushes, bd_system_config = [] \<rparr>))))))"

section \<open>Run alone\<close>

lemma create_room_alone [simp]: "alone (create_room_t h draw now o' n) = create_room h draw now o' n"
proof -
  have "alone (create_room_loop_t h draw now o' n is) = create_room_loop h draw now o' n is" for "is"
    by (induction "is") (auto simp: Let_def fun_eq_iff andthen_def split: prod.splits sum.splits)
  then show ?thesis
    by (simp add: create_room_t_def create_room_def)
qed

lemma devices_alone [simp]:
  "alone (upsert_device_hello_t h u rnd now rid i tok nm cv ip) =
     upsert_device_hello h u rnd now rid i tok nm cv ip"
  "alone (update_device_t rid did req) = update_device rid did req"
  "alone (set_device_group_t rid g did) = set_device_group rid g did"
  by (auto simp: fun_eq_iff upsert_device_hello_t_def upsert_device_hello_def update_device_t_def
      update_device_def set_device_group_t_def set_device_group_def Let_def andthen_def
      split: option.splits prod.splits sum.splits)

lemma groups_alone [simp]:
  "alone (create_group_with_version_t h u ns t t' rid n c v) = create_group_with_version h u ns t t' rid n c v"
  "alone (device_config_t h i g) = device_config h i g"
  by (auto simp: fun_eq_iff create_group_with_version_t_def create_group_with_version_def
      device_config_t_def device_config_def Let_def andthen_def split: option.splits prod.splits sum.splits)

lemma exports_alone [simp]:
  "alone export_backup_t = export_backup" "alone (export_user_backup_t u) = export_user_backup u"
  by (simp_all add: fun_eq_iff export_backup_t_def export_backup_def export_user_backup_t_def
      export_user_backup_def)

end
