(* ===== verification/Accounts.thy ===== *)
theory Accounts
  imports App_State
begin

text \<open>
  The handlers of \<open>src/api.rs\<close> for accounts: login with its lockout, registration, change of
  password, deletion of the account. \<open>forwarded\<close> is the text of the \<open>x-forwarded-for\<close> header,
  when it is present and visible ASCII; \<open>user\<close> is the identity the extractor took from the token.
\<close>

section \<open>Handlers\<close>

record public_config_body =
  pc_allow_register :: bool
  pc_console_version :: string

definition public_config :: "(status_code, public_config_body) app_op" where
  "public_config = reading (\<lambda>s. \<lparr> pc_allow_register = \<not> st_disable_register s,
     pc_console_version = ''0.1.0'' \<rparr>)"

definition login_failure_key :: "string option \<Rightarrow> string" where
  "login_failure_key forwarded =
     (case forwarded of
        None \<Rightarrow> ''local''
      | Some v \<Rightarrow>
          (case split_on (CHR '','') v of
             [] \<Rightarrow> ''local''
           | first # _ \<Rightarrow> if trim first \<noteq> [] then trim first else ''local''))"

definition bump_failure :: "i64 \<Rightarrow> login_failure \<Rightarrow> login_failure" where
  "bump_failure now entry =
     (let entry = (if lf_locked_until entry \<le> now
                   then entry\<lparr>lf_count := lf_count entry + 1\<rparr> else entry)
      in if 3 \<le> lf_count entry
         then entry\<lparr>lf_locked_until := i64_add now (10 * 60), lf_count := 0\<rparr>
         else entry)"

definition record_login_failure :: "i64 \<Rightarrow> string \<Rightarrow> ('e, unit) app_op" where
  "record_login_failure now key = writing (\<lambda>s.
     let entry = (case st_login_failures s key of
                    None \<Rightarrow> \<lparr> lf_count = 0, lf_locked_until = 0 \<rparr> | Some e \<Rightarrow> e)
     in s\<lparr>st_login_failures := (st_login_failures s)(key := Some (bump_failure now entry))\<rparr>)"

definition locked_out :: "i64 \<Rightarrow> string \<Rightarrow> app_state \<Rightarrow> bool" where
  "locked_out now key s =
     (case st_login_failures s key of None \<Rightarrow> False | Some v \<Rightarrow> now < lf_locked_until v)"

definition clear_login_failure :: "string \<Rightarrow> ('e, unit) app_op" where
  "clear_login_failure key =
     writing (\<lambda>s. s\<lparr>st_login_failures := (st_login_failures s)(key := None)\<rparr>)"

text \<open>The clock is read when the request arrives and again at the end.\<close>

definition login ::
    "host \<Rightarrow> fresh \<Rightarrow> string option \<Rightarrow> login_request \<Rightarrow> (status_code, string) app_op" where
  "login h f forwarded req =
     (let key = login_failure_key forwarded; now = fr_clock f 0 in
      andthen (reading (locked_out now key)) (\<lambda>locked.
      if locked then fail TOO_MANY_REQUESTS
      else
        andthen (db_or INTERNAL_SERVER_ERROR (find_user (lr_username req))) (\<lambda>found.
        case found of
          None \<Rightarrow> andthen (record_login_failure (fr_clock f 1) key) (\<lambda>_. fail UNAUTHORIZED)
        | Some (uid, password_hash, role) \<Rightarrow>
            if \<not> verify_password h password_hash (lr_password req) then
              andthen (record_login_failure (fr_clock f 1) key) (\<lambda>_. fail UNAUTHORIZED)
            else
              andthen (clear_login_failure key) (\<lambda>_.
              map_err (of_result (sign h (fr_clock f 1) uid (lr_username req) role))
                (\<lambda>_. INTERNAL_SERVER_ERROR)))))"

definition username_char :: "char \<Rightarrow> bool" where
  "username_char c \<longleftrightarrow>
     (let n = of_char c :: nat in
      48 \<le> n \<and> n \<le> 57 \<or> 65 \<le> n \<and> n \<le> 90 \<or> 97 \<le> n \<and> n \<le> 122) \<or>
     c = CHR ''_'' \<or> c = CHR ''-'' \<or> c = CHR ''.''"

definition validate_password :: "string \<Rightarrow> status_code + unit" where
  "validate_password password =
     (if length password < 6 \<or> 128 < length password then Inl BAD_REQUEST else Inr ())"

definition validate_username_password :: "string \<Rightarrow> string \<Rightarrow> status_code + unit" where
  "validate_username_password username password =
     (let username_ok = 3 \<le> length username \<and> length username \<le> 32 \<and> list_all username_char username
      in if \<not> username_ok then Inl BAD_REQUEST else validate_password password)"

definition register :: "host \<Rightarrow> fresh \<Rightarrow> login_request \<Rightarrow> (status_code, string) app_op" where
  "register h f req =
     andthen (reading st_disable_register) (\<lambda>disabled.
     if disabled then fail FORBIDDEN
     else
       andthen (of_result (validate_username_password (lr_username req) (lr_password req))) (\<lambda>_.
       let uid = fr_uuid f 0 in
       andthen (map_err (of_result (hash_password h (fr_salt f) (lr_password req)))
           (\<lambda>_. INTERNAL_SERVER_ERROR)) (\<lambda>hash.
       andthen (db_or CONFLICT (insert_user
           \<lparr> us_id = uid, us_username = lr_username req, us_password = hash, us_role = ''user'',
             us_created_at = fr_clock f 0 \<rparr>)) (\<lambda>_.
       ret uid))))"

definition change_password ::
    "host \<Rightarrow> fresh \<Rightarrow> auth_user \<Rightarrow> change_password_request \<Rightarrow> (status_code, unit) app_op" where
  "change_password h f user req =
     andthen (db_or INTERNAL_SERVER_ERROR (find_user (au_username user))) (\<lambda>found.
     case found of
       None \<Rightarrow> fail UNAUTHORIZED
     | Some (_, old_hash, _) \<Rightarrow>
         if \<not> verify_password h old_hash (cp_old_password req) then fail UNAUTHORIZED
         else
           andthen (of_result (validate_password (cp_new_password req))) (\<lambda>_.
           andthen (map_err (of_result (hash_password h (fr_salt f) (cp_new_password req)))
               (\<lambda>_. INTERNAL_SERVER_ERROR)) (\<lambda>hash.
           andthen (db_or INTERNAL_SERVER_ERROR
               (update_users (\<lambda>u. us_id u = au_id user) (\<lambda>u. u\<lparr>us_password := hash\<rparr>))) (\<lambda>_.
           ret ()))))"

definition delete_account :: "auth_user \<Rightarrow> (status_code, unit) app_op" where
  "delete_account user =
     (if au_username user = ''admin'' \<or> au_role user = ''admin'' then fail FORBIDDEN
      else db_or INTERNAL_SERVER_ERROR (delete_users (\<lambda>u. us_id u = au_id user)))"

section \<open>Preservation of the invariant\<close>

lemma record_login_failure_ok [keeps_intro]: "keeps hub_ok (record_login_failure now key)"
  by (auto simp: keeps_def record_login_failure_def hub_ok_def failures_ok_def Let_def
      bump_failure_def not_le split: option.splits)

lemma clear_login_failure_ok [keeps_intro]: "keeps hub_ok (clear_login_failure key)"
  by (simp add: keeps_def clear_login_failure_def hub_ok_def failures_ok_def)

lemma failure_parts [keeps_intro]:
  "keeps (\<lambda>s. P (st_db s)) (record_login_failure now key)"
  "keeps (\<lambda>s. P (st_db s)) (clear_login_failure key)"
  by (simp_all add: keeps_def record_login_failure_def clear_login_failure_def Let_def)

lemma login_ok [keeps_intro]: "keeps hub_ok (login h f fwd req)"
  unfolding login_def Let_def by (intro keeps_intro hub_db)

lemma register_ok [keeps_intro]: "keeps hub_ok (register h f req)"
  unfolding register_def Let_def by (intro keeps_intro hub_db)

lemma change_password_ok [keeps_intro]: "keeps hub_ok (change_password h f user req)"
  unfolding change_password_def by (intro keeps_intro hub_db update_users_ok; simp)

lemma delete_account_ok [keeps_intro]: "keeps hub_ok (delete_account user)"
  unfolding delete_account_def by (intro keeps_intro hub_db)

section \<open>What a login does\<close>

definition credentials :: "host \<Rightarrow> login_request \<Rightarrow> database \<Rightarrow> (string \<times> string) option" where
  "credentials h req d =
     (case fetch_optional (\<lambda>u. us_username u = lr_username req) (db_users d) of
        None \<Rightarrow> None
      | Some u \<Rightarrow> if verify_password h (us_password u) (lr_password req)
                  then Some (us_id u, us_role u) else None)"

definition note_failure :: "i64 \<Rightarrow> string \<Rightarrow> app_state \<Rightarrow> app_state" where
  "note_failure now key s = s\<lparr>st_login_failures := (st_login_failures s)(key :=
     Some (bump_failure now (case st_login_failures s key of
       None \<Rightarrow> \<lparr> lf_count = 0, lf_locked_until = 0 \<rparr> | Some e \<Rightarrow> e)))\<rparr>"

definition forget_failures :: "string \<Rightarrow> app_state \<Rightarrow> app_state" where
  "forget_failures key s = s\<lparr>st_login_failures := (st_login_failures s)(key := None)\<rparr>"

lemma record_login_failure_eq [simp]: "record_login_failure now key s = (Inr (), note_failure now key s)"
  by (simp add: record_login_failure_def note_failure_def Let_def)

lemma clear_login_failure_eq [simp]: "clear_login_failure key s = (Inr (), forget_failures key s)"
  by (simp add: clear_login_failure_def forget_failures_def)

lemma login_locked:
  "locked_out (fr_clock f 0) (login_failure_key fwd) s \<Longrightarrow>
     login h f fwd req s = (Inl TOO_MANY_REQUESTS, s)"
  by (simp add: login_def Let_def)

lemma login_eq:
  "\<not> locked_out (fr_clock f 0) (login_failure_key fwd) s \<Longrightarrow>
     login h f fwd req s =
       (case credentials h req (st_db s) of
          None \<Rightarrow> (Inl UNAUTHORIZED, note_failure (fr_clock f 1) (login_failure_key fwd) s)
        | Some (uid, role) \<Rightarrow>
            (case sign h (fr_clock f 1) uid (lr_username req) role of
               Inl _ \<Rightarrow> (Inl INTERNAL_SERVER_ERROR, forget_failures (login_failure_key fwd) s)
             | Inr token \<Rightarrow> (Inr token, forget_failures (login_failure_key fwd) s)))"
  by (auto simp: login_def Let_def credentials_def find_user_def andthen_def map_err_def
      split: option.splits sum.splits)

text \<open>A login under a key that is not locked: a failure is counted, a success forgets the failures.\<close>

lemma login_decides:
  assumes "\<not> locked_out (fr_clock f 0) (login_failure_key fwd) s"
  shows "(fst (login h f fwd req s) = Inl UNAUTHORIZED \<longleftrightarrow> credentials h req (st_db s) = None) \<and>
    (credentials h req (st_db s) = None \<longrightarrow>
      snd (login h f fwd req s) = note_failure (fr_clock f 1) (login_failure_key fwd) s) \<and>
    (credentials h req (st_db s) = Some (uid, role) \<longrightarrow>
      login h f fwd req s =
        (case sign h (fr_clock f 1) uid (lr_username req) role of
           Inl _ \<Rightarrow> Inl INTERNAL_SERVER_ERROR | Inr token \<Rightarrow> Inr token,
         forget_failures (login_failure_key fwd) s))"
  using login_eq [OF assms, of h req] by (auto split: option.splits sum.splits)

lemma st_db_note [simp]:
  "st_db (note_failure now key s) = st_db s" "st_db (forget_failures key s) = st_db s"
  by (simp_all add: note_failure_def forget_failures_def)

text \<open>Three failures of a key that has no entry, and what a login sees afterwards.\<close>

lemma third_failure:
  assumes "st_login_failures s key = None" and "0 \<le> t1" "0 \<le> t2" "0 \<le> t3" "is_i64 (t3 + 600)"
  shows "locked_out t key (note_failure t3 key (note_failure t2 key (note_failure t1 key s)))
      \<longleftrightarrow> t < t3 + 600"
    and "0 \<le> t \<Longrightarrow> \<not> locked_out t key (note_failure t2 key (note_failure t1 key s))"
    and "0 \<le> t \<Longrightarrow> \<not> locked_out t key (note_failure t1 key s)"
    and "\<not> locked_out t key s"
  using assms
  by (simp_all add: locked_out_def note_failure_def bump_failure_def Let_def i64_add_in_range
      word_le_nat_alt)

lemma other_key_not_locked:
  "key' \<noteq> key \<Longrightarrow> locked_out t key' (note_failure t' key s) = locked_out t key' s"
  by (simp add: locked_out_def note_failure_def)

section \<open>Registration, passwords and deletion\<close>

lemma register_result:
  assumes "register h f req s = (Inr uid, s')"
  shows "\<exists>hash. \<not> st_disable_register s \<and>
      validate_username_password (lr_username req) (lr_password req) = Inr () \<and>
      hash_password h (fr_salt f) (lr_password req) = Inr hash \<and> uid = fr_uuid f 0 \<and>
      lr_username req \<notin> us_username ` set (db_users (st_db s)) \<and>
      s' = s\<lparr>st_db := (st_db s)\<lparr>db_users := db_users (st_db s) @
        [\<lparr> us_id = uid, us_username = lr_username req, us_password = hash, us_role = ''user'',
           us_created_at = fr_clock f 0 \<rparr>]\<rparr>\<rparr>"
  using assms
  by (auto simp: register_def Let_def map_err_def andthen_def db_or_eq insert_user_def
      split: if_splits sum.splits)

lemma change_password_result:
  assumes "change_password h f user req s = (Inr (), s')"
  shows "\<exists>u hash. fetch_optional (\<lambda>u. us_username u = au_username user) (db_users (st_db s)) = Some u \<and>
      verify_password h (us_password u) (cp_old_password req) \<and>
      validate_password (cp_new_password req) = Inr () \<and>
      hash_password h (fr_salt f) (cp_new_password req) = Inr hash \<and>
      s' = s\<lparr>st_db := (st_db s)\<lparr>db_users := update_where (\<lambda>u. us_id u = au_id user)
        (\<lambda>u. u\<lparr>us_password := hash\<rparr>) (db_users (st_db s))\<rparr>\<rparr>"
  using assms
  by (auto simp: change_password_def map_err_def andthen_def db_or_eq find_user_def update_users_def
      split: option.splits if_splits sum.splits)

lemma fetch_optional_append:
  "fetch_optional P (t @ u) = (case fetch_optional P t of None \<Rightarrow> fetch_optional P u | Some r \<Rightarrow> Some r)"
  by (induction t) (simp_all add: fetch_optional_def)

lemma fetch_update_where:
  assumes "\<And>r. key (g r) = key r" and "fetch_optional (\<lambda>r. key r = k) t = Some r"
  shows "fetch_optional (\<lambda>r. key r = k) (update_where P g t) = Some (if P r then g r else r)"
  using assms(2)
  by (induction t) (auto simp: fetch_optional_def update_where_def assms(1) split: if_splits)

lemma change_password_new_login:
  assumes "change_password h f user req s = (Inr (), s')" and "argon2_laws h"
    and "fetch_optional (\<lambda>u. us_username u = au_username user) (db_users (st_db s)) = Some u"
    and "us_id u = au_id user"
  shows "credentials h \<lparr> lr_username = au_username user, lr_password = cp_new_password req \<rparr> (st_db s')
    = Some (us_id u, us_role u)"
proof -
  obtain hash where hash: "hash_password h (fr_salt f) (cp_new_password req) = Inr hash"
      and s': "s' = s\<lparr>st_db := (st_db s)\<lparr>db_users := update_where (\<lambda>u. us_id u = au_id user)
        (\<lambda>u. u\<lparr>us_password := hash\<rparr>) (db_users (st_db s))\<rparr>\<rparr>"
    using change_password_result [OF assms(1)] by blast
  have "fetch_optional (\<lambda>u. us_username u = au_username user) (db_users (st_db s')) =
      Some (u\<lparr>us_password := hash\<rparr>)"
    using fetch_update_where [of us_username _ _ _ _ "\<lambda>u. us_id u = au_id user", OF _ assms(3)] assms(4)
    by (simp add: s')
  then show ?thesis
    using verify_hash_password [OF assms(2) hash] by (simp add: credentials_def)
qed

lemma delete_account_eq:
  "delete_account user s =
     (if au_username user = ''admin'' \<or> au_role user = ''admin'' then (Inl FORBIDDEN, s)
      else if db_foreign_keys (st_db s) \<and> (\<exists>u \<in> set (db_users (st_db s)). us_id u = au_id user) \<and>
        ((\<exists>r \<in> set (db_rooms (st_db s)). rm_owner_id r = au_id user) \<or>
         (\<exists>x \<in> set (db_sessions (st_db s)). ss_user_id x = au_id user))
      then (Inl INTERNAL_SERVER_ERROR, s)
      else (Inr (), s\<lparr>st_db := (st_db s)\<lparr>db_users :=
        delete_where (\<lambda>u. us_id u = au_id user) (db_users (st_db s))\<rparr>\<rparr>))"
  by (auto simp: delete_account_def db_or_eq delete_users_def Let_def)

end
