(* ===== verification/Push.thy ===== *)
theory Push
  imports Accounts
begin

text \<open>
  The push of a configuration (\<open>push_config_to_device\<close> and \<open>push_group\<close> of \<open>src/api.rs\<close>): the
  effective configuration of a device is encrypted under a key that only the device shares,
  recorded, and sent when the device is connected.
\<close>

section \<open>The push\<close>

definition push_payload ::
    "host \<Rightarrow> string \<Rightarrow> string option \<Rightarrow> string option \<Rightarrow> i64 \<Rightarrow> vnt_client_config \<Rightarrow> json" where
  "push_payload h device_id group_id config_name version config = JObj
     [(''config'', h_config_value h config), (''config_name'', json_of_opt config_name),
      (''config_version'', json_of_i64 version), (''device_id'', JStr device_id),
      (''group_id'', json_of_opt group_id)]"

definition push_config_to_device ::
    "host \<Rightarrow> fresh \<Rightarrow> string \<Rightarrow> string option \<Rightarrow> (status_code, bool) app_op" where
  "push_config_to_device h f device_id group_id =
     andthen (db_or INTERNAL_SERVER_ERROR (device_config h device_id group_id)) (\<lambda>found.
     case found of
       None \<Rightarrow> fail NOT_FOUND
     | Some (effective_group_id, version, config) \<Rightarrow>
       andthen (reading (\<lambda>s. Option.bind effective_group_id (\<lambda>gid. map_option gr_name
           (fetch_optional (\<lambda>g. gr_id g = gid) (db_groups (st_db s)))))) (\<lambda>config_name.
       let payload = push_payload h device_id effective_group_id config_name version config in
       andthen (reading (\<lambda>s. map_option dv_device_token
           (fetch_optional (\<lambda>r. dv_id r = device_id) (db_devices (st_db s))))) (\<lambda>token.
       andthen (of_result (ok_or NOT_FOUND token)) (\<lambda>device_token.
       let push_version = i64_as_u32 version;
           master = device_push_key_material device_id device_token in
       andthen (map_err (of_result (encrypt_parts h (fr_random f 0) master
           (device_push_context device_id push_version) (h_json_text h payload)))
           (\<lambda>_. INTERNAL_SERVER_ERROR)) (\<lambda>(encrypted_config, nonce).
       andthen (db_or INTERNAL_SERVER_ERROR (insert_push
           \<lparr> pu_id = fr_uuid f 0, pu_device_id = device_id, pu_group_id = effective_group_id,
             pu_config_snapshot = encrypted_config, pu_pushed_at = fr_clock f 0, pu_acked = 0 \<rparr>)) (\<lambda>_.
       andthen (get_client device_id) (\<lambda>tx.
       case tx of
         None \<Rightarrow> ret False
       | Some c \<Rightarrow>
           andthen (send c (ConfigPush push_version encrypted_config nonce)) (\<lambda>_.
           ret True))))))))"

text \<open>The loop of \<open>push_group\<close> over the devices of the group, each with fresh values of its own.\<close>

fun push_each ::
    "host \<Rightarrow> fresh \<Rightarrow> string option \<Rightarrow> nat \<Rightarrow> string list \<Rightarrow> nat \<Rightarrow> (status_code, nat) app_op" where
  "push_each h f group_id i [] count = ret count"
| "push_each h f group_id i (device_id # ids) count =
     andthen (push_config_to_device h (fresh_from f i) device_id group_id) (\<lambda>pushed.
     push_each h f group_id (i + 1) ids (if pushed then count + 1 else count))"

section \<open>What a push does\<close>

text \<open>A push as one record: what is sent to the device, and the row it leaves.\<close>

definition push_row_of ::
    "fresh \<Rightarrow> string \<Rightarrow> string option \<Rightarrow> string \<Rightarrow> push_row" where
  "push_row_of f device_id gid snapshot = \<lparr> pu_id = fr_uuid f 0, pu_device_id = device_id,
     pu_group_id = gid, pu_config_snapshot = snapshot, pu_pushed_at = fr_clock f 0, pu_acked = 0 \<rparr>"

definition deliver :: "string \<Rightarrow> server_message \<Rightarrow> app_state \<Rightarrow> app_state" where
  "deliver device_id m s = (case st_clients s device_id of
     None \<Rightarrow> s | Some c \<Rightarrow> s\<lparr>st_sent := st_sent s @ [(c, m)]\<rparr>)"

lemma push_config_ok [keeps_intro]: "keeps hub_ok (push_config_to_device h f i g)"
  unfolding push_config_to_device_def Let_def by (intro keeps_intro hub_db)

lemma push_each_ok [keeps_intro]: "keeps hub_ok (push_each h f g i ids n)"
proof (induction ids arbitrary: i n)
  case Nil
  show ?case by (simp only: push_each.simps keeps_basic)
next
  case (Cons d ids)
  show ?case
    by (simp only: push_each.simps) (intro keeps_intro Cons.IH)
qed

lemma push_result:
  assumes "push_config_to_device h f i ov s = (Inr pushed, s')"
  shows "\<exists>r gid v c ct n. row_by dv_id i (db_devices (st_db s)) = Some r \<and>
    device_config h i ov (st_db s) = (Inr (Some (gid, v, c)), st_db s) \<and>
    encrypt_parts h (fr_random f 0) (device_push_key_material i (dv_device_token r))
      (device_push_context i (i64_as_u32 v))
      (h_json_text h (push_payload h i gid (Option.bind gid (\<lambda>k. map_option gr_name
         (row_by gr_id k (db_groups (st_db s))))) v c)) = Inr (ct, n) \<and>
    s' = deliver i (ConfigPush (i64_as_u32 v) ct n) (s\<lparr>st_db := (st_db s)\<lparr>db_pushes :=
           db_pushes (st_db s) @ [push_row_of f i gid ct]\<rparr>\<rparr>) \<and>
    pushed = (st_clients s i \<noteq> None)"
proof -
  obtain gid v c where cfg: "device_config h i ov (st_db s) = (Inr (Some (gid, v, c)), st_db s)"
    using assms device_config_state [of h i ov "st_db s"]
    by (auto simp: push_config_to_device_def andthen_def db_or_eq split: prod.splits sum.splits option.splits
       simp del: device_config_state)
  show ?thesis
    using assms cfg
    by (auto simp: push_config_to_device_def andthen_def db_or_eq Let_def map_err_def insert_push_def
        get_client_def send_def deliver_def push_row_of_def row_by_def fetch_optional_def
        split: prod.splits sum.splits option.splits if_splits)
qed

lemma push_error: "push_config_to_device h f i ov s = (Inl e, s') \<Longrightarrow> s' = s"
  using device_config_state [of h i ov "st_db s"]
  by (auto simp: push_config_to_device_def andthen_def db_or_eq Let_def map_err_def insert_push_def
      get_client_def send_def
      split: prod.splits sum.splits option.splits if_splits
      simp del: device_config_state)

end
