(* ===== verification/Room_Api.thy ===== *)
theory Room_Api
  imports Push
begin

text \<open>
  The handlers of \<open>src/api.rs\<close> for rooms, devices, groups, events and backups. Each one that
  names a room first checks that the caller may act on it.
\<close>

section \<open>Access\<close>

definition ensure_room_access :: "auth_user \<Rightarrow> string \<Rightarrow> (status_code, unit) app_op" where
  "ensure_room_access user rid =
     (if au_role user = ''admin'' then
        andthen (db_or INTERNAL_SERVER_ERROR (room_exists rid)) (\<lambda>ok.
        if ok then ret () else fail NOT_FOUND)
      else
        andthen (db_or INTERNAL_SERVER_ERROR (room_belongs_to rid (au_id user))) (\<lambda>ok.
        if ok then ret () else fail FORBIDDEN))"

definition ensure_device_in_room :: "string \<Rightarrow> string \<Rightarrow> (status_code, unit) app_op" where
  "ensure_device_in_room rid device_id =
     andthen (reading (\<lambda>s. count_where (\<lambda>r. dv_id r = device_id \<and> dv_room_id r = rid)
       (db_devices (st_db s)))) (\<lambda>n.
     if 0 < n then ret () else fail NOT_FOUND)"

definition ensure_group_in_room :: "string \<Rightarrow> string \<Rightarrow> (status_code, unit) app_op" where
  "ensure_group_in_room rid group_id =
     andthen (reading (\<lambda>s. count_where (\<lambda>g. gr_id g = group_id \<and> gr_room_id g = rid)
       (db_groups (st_db s)))) (\<lambda>n.
     if 0 < n then ret () else fail NOT_FOUND)"

section \<open>Rooms\<close>

definition api_list_rooms :: "auth_user \<Rightarrow> (status_code, room list) app_op" where
  "api_list_rooms user = db_or INTERNAL_SERVER_ERROR (list_rooms (au_id user))"

definition api_create_room :: "host \<Rightarrow> fresh \<Rightarrow> auth_user \<Rightarrow> string \<Rightarrow> (status_code, room) app_op" where
  "api_create_room h f user name =
     db_or INTERNAL_SERVER_ERROR (create_room h (fr_random f) (fr_clock f 0) (au_id user) name)"

definition api_delete_room :: "auth_user \<Rightarrow> string \<Rightarrow> (status_code, unit) app_op" where
  "api_delete_room user rid =
     andthen (ensure_room_access user rid) (\<lambda>_.
     db_or INTERNAL_SERVER_ERROR (delete_room rid))"

section \<open>Devices\<close>

text \<open>An error of the statement is answered with 500; a panic of \<open>device_from_row\<close> is not answered.\<close>

definition list_error :: "error \<Rightarrow> status_code" where
  "list_error e = (if e = Panic then NO_RESPONSE else INTERNAL_SERVER_ERROR)"

definition api_list_devices :: "auth_user \<Rightarrow> string \<Rightarrow> (status_code, device list) app_op" where
  "api_list_devices user rid =
     andthen (ensure_room_access user rid) (\<lambda>_.
     map_err (on_db (list_devices rid)) list_error)"

definition api_update_device ::
    "auth_user \<Rightarrow> string \<Rightarrow> string \<Rightarrow> update_device_request \<Rightarrow> (status_code, unit) app_op" where
  "api_update_device user rid did req =
     andthen (ensure_room_access user rid) (\<lambda>_.
     db_or NOT_FOUND (update_device rid did req))"

definition api_delete_device :: "auth_user \<Rightarrow> string \<Rightarrow> string \<Rightarrow> (status_code, unit) app_op" where
  "api_delete_device user rid did =
     andthen (ensure_room_access user rid) (\<lambda>_.
     andthen (db_or INTERNAL_SERVER_ERROR (delete_device rid did)) (\<lambda>_.
     remove_client did))"

definition api_regenerate_device_token ::
    "host \<Rightarrow> fresh \<Rightarrow> auth_user \<Rightarrow> string \<Rightarrow> string \<Rightarrow> (status_code, string) app_op" where
  "api_regenerate_device_token h f user rid did =
     andthen (ensure_room_access user rid) (\<lambda>_.
     andthen (db_or NOT_FOUND (regenerate_device_token h (fr_random f 0) rid did)) (\<lambda>token.
     andthen (remove_client did) (\<lambda>_.
     ret token)))"

definition kick_device :: "auth_user \<Rightarrow> string \<Rightarrow> string \<Rightarrow> (status_code, unit) app_op" where
  "kick_device user rid did =
     andthen (ensure_room_access user rid) (\<lambda>_.
     andthen (db_or INTERNAL_SERVER_ERROR
       (update_devices (\<lambda>r. dv_id r = did \<and> dv_room_id r = rid)
         (\<lambda>r. r\<lparr>dv_status := ''kicked''\<rparr>))) (\<lambda>rows_affected.
     if rows_affected = 0 then fail NOT_FOUND
     else
       andthen (get_client did) (\<lambda>tx.
       andthen (remove_client did) (\<lambda>_.
       case tx of
         None \<Rightarrow> ret ()
       | Some c \<Rightarrow> send c (Kick ''kicked by console'')))))"

definition push_device :: "host \<Rightarrow> fresh \<Rightarrow> auth_user \<Rightarrow> string \<Rightarrow> string \<Rightarrow> (status_code, bool) app_op" where
  "push_device h f user rid did =
     andthen (ensure_room_access user rid) (\<lambda>_.
     andthen (ensure_device_in_room rid did) (\<lambda>_.
     push_config_to_device h f did None))"

section \<open>Groups\<close>

definition api_list_groups :: "host \<Rightarrow> auth_user \<Rightarrow> string \<Rightarrow> (status_code, group list) app_op" where
  "api_list_groups h user rid =
     andthen (ensure_room_access user rid) (\<lambda>_.
     db_or INTERNAL_SERVER_ERROR (list_groups h rid))"

definition api_create_group ::
    "host \<Rightarrow> fresh \<Rightarrow> auth_user \<Rightarrow> string \<Rightarrow> string \<Rightarrow> vnt_client_config \<Rightarrow> (status_code, group) app_op" where
  "api_create_group h f user rid name config =
     andthen (ensure_room_access user rid) (\<lambda>_.
     db_or INTERNAL_SERVER_ERROR
       (create_group h (fr_uuid f 0) (fresh_nonces f) (fr_clock f 0) rid name config))"

definition api_update_group ::
    "host \<Rightarrow> fresh \<Rightarrow> auth_user \<Rightarrow> string \<Rightarrow> string \<Rightarrow> update_group_request \<Rightarrow> (status_code, group) app_op" where
  "api_update_group h f user rid gid req =
     andthen (ensure_room_access user rid) (\<lambda>_.
     db_or NOT_FOUND (update_group h (fresh_nonces f) (fr_clock f 0) rid gid req))"

definition api_delete_group :: "auth_user \<Rightarrow> string \<Rightarrow> string \<Rightarrow> (status_code, unit) app_op" where
  "api_delete_group user rid gid =
     andthen (ensure_room_access user rid) (\<lambda>_.
     db_or INTERNAL_SERVER_ERROR (delete_group rid gid))"

definition add_group_device ::
    "auth_user \<Rightarrow> string \<Rightarrow> string \<Rightarrow> string \<Rightarrow> (status_code, unit) app_op" where
  "add_group_device user rid gid device_id =
     andthen (ensure_room_access user rid) (\<lambda>_.
     db_or NOT_FOUND (set_device_group rid (Some gid) device_id))"

definition remove_group_device ::
    "auth_user \<Rightarrow> string \<Rightarrow> string \<Rightarrow> string \<Rightarrow> (status_code, unit) app_op" where
  "remove_group_device user rid gid device_id =
     andthen (ensure_room_access user rid) (\<lambda>_.
     db_or NOT_FOUND (set_device_group rid None device_id))"

definition push_group :: "host \<Rightarrow> fresh \<Rightarrow> auth_user \<Rightarrow> string \<Rightarrow> string \<Rightarrow> (status_code, nat) app_op" where
  "push_group h f user rid gid =
     andthen (ensure_room_access user rid) (\<lambda>_.
     andthen (ensure_group_in_room rid gid) (\<lambda>_.
     andthen (reading (\<lambda>s. map dv_id (select_where
       (\<lambda>r. dv_room_id r = rid \<and> dv_group_id r = Some gid) (db_devices (st_db s))))) (\<lambda>rows.
     push_each h f (Some gid) 0 rows 0)))"

section \<open>Events and backups\<close>

record event_query =
  eq_device_id :: "string option"
  eq_event_type :: "string option"
  eq_limit :: "i64 option"

definition api_list_events :: "auth_user \<Rightarrow> event_query \<Rightarrow> (status_code, event_item list) app_op" where
  "api_list_events user query =
     (let limit = max 1 (min 1000 (case eq_limit query of Some n \<Rightarrow> n | None \<Rightarrow> 200)) in
      db_or INTERNAL_SERVER_ERROR
        (if au_role user = ''admin''
         then list_events (eq_device_id query) (eq_event_type query) limit
         else list_events_for_owner (au_id user) (eq_device_id query) (eq_event_type query) limit))"

text \<open>The stream delivers what is published after the subscription: the result is its position.\<close>

definition events_stream :: "auth_user \<Rightarrow> (status_code, nat) app_op" where
  "events_stream user =
     (if au_role user \<noteq> ''admin'' then fail FORBIDDEN
      else reading (\<lambda>s. length (st_events s)))"

definition api_export_backup ::
    "fresh \<Rightarrow> auth_user \<Rightarrow> string option \<Rightarrow> (status_code, backup_envelope) app_op" where
  "api_export_backup f user query_scope =
     (let scope = (case query_scope of Some s \<Rightarrow> s
                   | None \<Rightarrow> if au_role user = ''admin'' then ''full'' else ''user'') in
      andthen
        (if scope = ''full'' then
           (if au_role user \<noteq> ''admin'' then fail FORBIDDEN
            else db_or INTERNAL_SERVER_ERROR export_backup)
         else if scope = ''user'' then
           db_or INTERNAL_SERVER_ERROR (export_user_backup (au_id user))
         else fail BAD_REQUEST) (\<lambda>data.
      ret \<lparr> be_format_version = 1, be_exported_at = fr_clock f 0, be_source_mode = ''sqlite'',
            be_scope = scope, be_data = data \<rparr>))"

definition api_import_backup ::
    "host \<Rightarrow> auth_user \<Rightarrow> string option \<Rightarrow> backup_envelope \<Rightarrow> (status_code, backup_import_report) app_op" where
  "api_import_backup h user mode backup =
     (if au_role user \<noteq> ''admin'' then fail FORBIDDEN
      else if be_format_version backup \<noteq> 1 then fail BAD_REQUEST
      else
        let overwrite = (mode = Some ''overwrite'') in
        db_or INTERNAL_SERVER_ERROR
          (import_backup h (be_data backup) overwrite (be_source_mode backup) (be_scope backup)))"

section \<open>Preservation of the invariant\<close>

lemma ensure_keeps [keeps_intro]:
  "keeps P (ensure_room_access user rid)" "keeps P (ensure_device_in_room rid i)"
  "keeps P (ensure_group_in_room rid g)"
  by (auto simp: keeps_def ensure_room_access_def ensure_device_in_room_def ensure_group_in_room_def
      andthen_def room_exists_def room_belongs_to_def)

lemma room_reads_ok [keeps_intro]:
  "keeps hub_ok (api_list_rooms user)" "keeps hub_ok (api_list_devices user rid)"
  "keeps hub_ok (api_list_groups h user rid)" "keeps hub_ok (api_list_events user q)"
  "keeps hub_ok (events_stream user)" "keeps hub_ok (api_export_backup f user sc)"
  unfolding api_list_rooms_def api_list_devices_def api_list_groups_def api_list_events_def Let_def
    events_stream_def api_export_backup_def list_rooms_def list_devices_def
  by (intro keeps_intro hub_db)+

lemma rooms_ok [keeps_intro]:
  "keeps hub_ok (api_create_room h f user n)" "keeps hub_ok (api_delete_room user rid)"
  unfolding api_create_room_def api_delete_room_def by (intro keeps_intro hub_db)+

lemma devices_ok [keeps_intro]:
  "keeps hub_ok (api_update_device user rid i ur)" "keeps hub_ok (api_delete_device user rid i)"
  "keeps hub_ok (api_regenerate_device_token h f user rid i)"
  "keeps hub_ok (kick_device user rid i)" "keeps hub_ok (push_device h f user rid i)"
  unfolding api_update_device_def api_delete_device_def api_regenerate_device_token_def
    kick_device_def push_device_def
  by (intro keeps_intro hub_db update_devices_ok; simp)+

lemma groups_ok [keeps_intro]:
  "keeps hub_ok (api_create_group h f user rid n c)"
  "keeps hub_ok (api_update_group h f user rid g gq)"
  "keeps hub_ok (api_delete_group user rid g)" "keeps hub_ok (add_group_device user rid g i)"
  "keeps hub_ok (remove_group_device user rid g i)" "keeps hub_ok (push_group h f user rid g)"
  unfolding api_create_group_def api_update_group_def api_delete_group_def add_group_device_def
    remove_group_device_def push_group_def
  by (intro keeps_intro hub_db)+

lemma api_import_backup_ok [keeps_intro]: "keeps hub_ok (api_import_backup h user mode b)"
  unfolding api_import_backup_def Let_def by (intro keeps_intro hub_db)

section \<open>What the access checks decide\<close>

text \<open>The reason why a caller may not act on a room, if there is one.\<close>

definition access_error :: "auth_user \<Rightarrow> string \<Rightarrow> database \<Rightarrow> status_code option" where
  "access_error user rid d =
     (if au_role user = ''admin''
      then (if rid \<in> room_ids d then None else Some NOT_FOUND)
      else (if \<exists>x \<in> set (db_rooms d). rm_id x = rid \<and> rm_owner_id x = au_id user
            then None else Some FORBIDDEN))"

lemma ensure_room_access_eq:
  "ensure_room_access user rid s =
     (case access_error user rid (st_db s) of None \<Rightarrow> (Inr (), s) | Some e \<Rightarrow> (Inl e, s))"
  by (auto simp: ensure_room_access_def access_error_def andthen_def db_or_eq room_exists_eq
      room_belongs_to_eq)

lemma ensure_device_in_room_eq:
  "ensure_device_in_room rid i s =
     (if \<exists>r \<in> set (db_devices (st_db s)). dv_id r = i \<and> dv_room_id r = rid
      then (Inr (), s) else (Inl NOT_FOUND, s))"
  by (auto simp: ensure_device_in_room_def count_where_pos)

lemma ensure_group_in_room_eq:
  "ensure_group_in_room rid g s =
     (if \<exists>r \<in> set (db_groups (st_db s)). gr_id r = g \<and> gr_room_id r = rid
      then (Inr (), s) else (Inl NOT_FOUND, s))"
  by (auto simp: ensure_group_in_room_def count_where_pos)

text \<open>
  The contract of a handler that acts on a room: a caller without access gets the reason, and the
  handler does nothing.
\<close>

locale room_scoped =
  fixes handler :: "auth_user \<Rightarrow> string \<Rightarrow> (status_code, 'a) app_op"
  assumes denied: "access_error user rid (st_db s) = Some e \<Longrightarrow> handler user rid s = (Inl e, s)"
begin

lemma stranger_forbidden:
  assumes "au_role user \<noteq> ''admin''"
    and "\<And>x. x \<in> set (db_rooms (st_db s)) \<Longrightarrow> rm_id x = rid \<Longrightarrow> rm_owner_id x \<noteq> au_id user"
  shows "handler user rid s = (Inl FORBIDDEN, s)"
  using assms by (intro denied) (auto simp: access_error_def)

lemma admin_not_found:
  assumes "au_role user = ''admin''" and "rid \<notin> room_ids (st_db s)"
  shows "handler user rid s = (Inl NOT_FOUND, s)"
  using assms by (intro denied) (auto simp: access_error_def)

lemma success_has_access: "handler user rid s = (Inr x, s') \<Longrightarrow> access_error user rid (st_db s) = None"
  using denied by (cases "access_error user rid (st_db s)") fastforce+

end

lemma denied_andthen:
  "access_error user rid (st_db s) = Some e \<Longrightarrow>
     andthen (ensure_room_access user rid) k s = (Inl e, s)"
  by (simp add: andthen_def ensure_room_access_eq)

lemmas room_handlers = api_delete_room_def api_list_devices_def api_update_device_def
  api_delete_device_def api_regenerate_device_token_def kick_device_def push_device_def
  api_list_groups_def api_create_group_def api_update_group_def api_delete_group_def
  add_group_device_def remove_group_device_def push_group_def

interpretation delete_room_s: room_scoped api_delete_room
  by unfold_locales (simp add: room_handlers denied_andthen)

interpretation list_devices_s: room_scoped api_list_devices
  by unfold_locales (simp add: room_handlers denied_andthen)

interpretation update_device_s: room_scoped "\<lambda>user rid. api_update_device user rid i req" for i req
  by unfold_locales (simp add: room_handlers denied_andthen)

interpretation delete_device_s: room_scoped "\<lambda>user rid. api_delete_device user rid i" for i
  by unfold_locales (simp add: room_handlers denied_andthen)

interpretation regenerate_s: room_scoped "\<lambda>user rid. api_regenerate_device_token h f user rid i" for h f i
  by unfold_locales (simp add: room_handlers denied_andthen)

interpretation kick_s: room_scoped "\<lambda>user rid. kick_device user rid i" for i
  by unfold_locales (simp add: room_handlers denied_andthen)

interpretation push_device_s: room_scoped "\<lambda>user rid. push_device h f user rid i" for h f i
  by unfold_locales (simp add: room_handlers denied_andthen)

interpretation list_groups_s: room_scoped "api_list_groups h" for h
  by unfold_locales (simp add: room_handlers denied_andthen)

interpretation create_group_s: room_scoped "\<lambda>user rid. api_create_group h f user rid n c" for h f n c
  by unfold_locales (simp add: room_handlers denied_andthen)

interpretation update_group_s: room_scoped "\<lambda>user rid. api_update_group h f user rid g q" for h f g q
  by unfold_locales (simp add: room_handlers denied_andthen)

interpretation delete_group_s: room_scoped "\<lambda>user rid. api_delete_group user rid g" for g
  by unfold_locales (simp add: room_handlers denied_andthen)

interpretation add_s: room_scoped "\<lambda>user rid. add_group_device user rid g i" for g i
  by unfold_locales (simp add: room_handlers denied_andthen)

interpretation remove_s: room_scoped "\<lambda>user rid. remove_group_device user rid g i" for g i
  by unfold_locales (simp add: room_handlers denied_andthen)

interpretation push_group_s: room_scoped "\<lambda>user rid. push_group h f user rid g" for h f g
  by unfold_locales (simp add: room_handlers denied_andthen)

section \<open>The events a caller sees\<close>

definition event_limit :: "i64 option \<Rightarrow> i64" where
  "event_limit n = max 1 (min 1000 (case n of Some n \<Rightarrow> n | None \<Rightarrow> 200))"

definition visible_event :: "auth_user \<Rightarrow> event_query \<Rightarrow> database \<Rightarrow> event_item \<Rightarrow> bool" where
  "visible_event user q d e \<longleftrightarrow> event_matches (eq_device_id q) (eq_event_type q) e \<and>
     (au_role user = ''admin'' \<or> device_owner d (ei_device_id e) = Some (au_id user))"

lemma api_list_events_eq:
  assumes "db_ok (st_db s)"
  shows "api_list_events user q s = (Inr (sql_limit (event_limit (eq_limit q))
    (order_desc ei_created_at (filter (visible_event user q (st_db s)) (db_events (st_db s))))), s)"
  using assms
  by (cases "au_role user = ''admin''")
    (simp_all add: api_list_events_def Let_def db_or_eq list_events_eq list_events_for_owner_eq
      event_limit_def visible_event_def [abs_def])

end
