(* ===== verification/Web_Api.thy ===== *)
theory Web_Api
  imports Room_Api
begin

text \<open>
  The router of \<open>src/api.rs\<close>: one constructor per route, with the parameters and the body that
  axum's extractors parsed, and the dispatch to the handlers. Every route but the page, the public
  configuration, login and registration first takes the identity from the token.
\<close>

section \<open>Requests and responses\<close>

datatype api_request =
    GetPublicConfig
  | PostLogin "string option" login_request
  | PostRegister login_request
  | PostChangePassword change_password_request
  | DeleteAccount
  | GetRooms
  | PostRooms string
  | DeleteRoom string
  | GetDevices string
  | PatchDevice string string update_device_request
  | DeleteDevice string string
  | PostKick string string
  | PostPushDevice string string
  | GetToken string string
  | GetGroups string
  | PostGroups string string vnt_client_config
  | PutGroup string string update_group_request
  | DeleteGroup string string
  | PostPushGroup string string
  | PostGroupAdd string string string
  | PostGroupRemove string string string
  | GetEvents event_query
  | GetEventsStream
  | GetBackup "string option"
  | PostBackup "string option" backup_envelope

datatype api_response =
    ROk
  | RPublicConfig public_config_body
  | RToken string
  | RId string
  | RRooms "room list"
  | RRoom room
  | RDevices "device list"
  | RDeviceToken string
  | RGroups "group list"
  | RGroup group
  | RPushed bool
  | RPushedCount nat
  | REvents "event_item list"
  | RStream nat
  | RBackup backup_envelope
  | RReport backup_import_report

definition answering :: "('a \<Rightarrow> 'b) \<Rightarrow> ('s, 'e, 'a) comp \<Rightarrow> ('s, 'e, 'b) comp" where
  "answering f m = andthen m (\<lambda>x. ret (f x))"

abbreviation ok_response :: "('s, 'e, unit) comp \<Rightarrow> ('s, 'e, api_response) comp" where
  "ok_response m \<equiv> answering (\<lambda>_. ROk) m"

section \<open>Dispatch\<close>

text \<open>The routes that take an identity.\<close>

fun user_route :: "host \<Rightarrow> fresh \<Rightarrow> auth_user \<Rightarrow> api_request \<Rightarrow> (status_code, api_response) app_op" where
  "user_route h f user (PostChangePassword req) = ok_response (change_password h f user req)"
| "user_route h f user DeleteAccount = ok_response (delete_account user)"
| "user_route h f user GetRooms = answering RRooms (api_list_rooms user)"
| "user_route h f user (PostRooms name) = answering RRoom (api_create_room h f user name)"
| "user_route h f user (DeleteRoom rid) = ok_response (api_delete_room user rid)"
| "user_route h f user (GetDevices rid) = answering RDevices (api_list_devices user rid)"
| "user_route h f user (PatchDevice rid i req) = ok_response (api_update_device user rid i req)"
| "user_route h f user (DeleteDevice rid i) = ok_response (api_delete_device user rid i)"
| "user_route h f user (PostKick rid i) = ok_response (kick_device user rid i)"
| "user_route h f user (PostPushDevice rid i) = answering RPushed (push_device h f user rid i)"
| "user_route h f user (GetToken rid i) =
     answering RDeviceToken (api_regenerate_device_token h f user rid i)"
| "user_route h f user (GetGroups rid) = answering RGroups (api_list_groups h user rid)"
| "user_route h f user (PostGroups rid name config) =
     answering RGroup (api_create_group h f user rid name config)"
| "user_route h f user (PutGroup rid g req) = answering RGroup (api_update_group h f user rid g req)"
| "user_route h f user (DeleteGroup rid g) = ok_response (api_delete_group user rid g)"
| "user_route h f user (PostPushGroup rid g) = answering RPushedCount (push_group h f user rid g)"
| "user_route h f user (PostGroupAdd rid g i) = ok_response (add_group_device user rid g i)"
| "user_route h f user (PostGroupRemove rid g i) = ok_response (remove_group_device user rid g i)"
| "user_route h f user (GetEvents q) = answering REvents (api_list_events user q)"
| "user_route h f user GetEventsStream = answering RStream (events_stream user)"
| "user_route h f user (GetBackup scope) = answering RBackup (api_export_backup f user scope)"
| "user_route h f user (PostBackup mode b) = answering RReport (api_import_backup h user mode b)"
| "user_route h f user _ = fail NOT_FOUND"

text \<open>\<open>now\<close> is the time at which the token is checked, \<open>authorization\<close> the header.\<close>

definition handle_request ::
    "host \<Rightarrow> fresh \<Rightarrow> i64 \<Rightarrow> string option \<Rightarrow> api_request \<Rightarrow> (status_code, api_response) app_op" where
  "handle_request h f now authorization req =
     (case req of
        GetPublicConfig \<Rightarrow> answering RPublicConfig public_config
      | PostLogin forwarded body \<Rightarrow> answering RToken (login h f forwarded body)
      | PostRegister body \<Rightarrow> answering RId (register h f body)
      | _ \<Rightarrow>
          andthen (of_result (from_request_parts h now authorization)) (\<lambda>user.
          user_route h f user req))"

text \<open>Whether a request goes through without an identity, and the room it names.\<close>

fun is_public :: "api_request \<Rightarrow> bool" where
  "is_public GetPublicConfig = True"
| "is_public (PostLogin _ _) = True"
| "is_public (PostRegister _) = True"
| "is_public _ = False"

fun request_room :: "api_request \<Rightarrow> string option" where
  "request_room (DeleteRoom rid) = Some rid"
| "request_room (GetDevices rid) = Some rid"
| "request_room (PatchDevice rid _ _) = Some rid"
| "request_room (DeleteDevice rid _) = Some rid"
| "request_room (PostKick rid _) = Some rid"
| "request_room (PostPushDevice rid _) = Some rid"
| "request_room (GetToken rid _) = Some rid"
| "request_room (GetGroups rid) = Some rid"
| "request_room (PostGroups rid _ _) = Some rid"
| "request_room (PutGroup rid _ _) = Some rid"
| "request_room (DeleteGroup rid _) = Some rid"
| "request_room (PostPushGroup rid _) = Some rid"
| "request_room (PostGroupAdd rid _ _) = Some rid"
| "request_room (PostGroupRemove rid _ _) = Some rid"
| "request_room _ = None"

section \<open>The invariant\<close>

lemma keeps_answering [keeps_intro]: "keeps P m \<Longrightarrow> keeps P (answering g m)"
  unfolding answering_def by (intro keeps_intro)

lemma user_route_ok [keeps_intro]: "keeps hub_ok (user_route h f user req)"
  by (cases req) (simp_all only: user_route.simps, (intro keeps_intro)+)

lemma public_config_ok [keeps_intro]: "keeps P public_config"
  unfolding public_config_def by (intro keeps_intro)

lemma handle_private:
  "\<not> is_public req \<Longrightarrow> handle_request h f now auth req =
     andthen (of_result (from_request_parts h now auth)) (\<lambda>user. user_route h f user req)"
  by (cases req) (simp_all add: handle_request_def)

lemma handle_request_ok: "keeps hub_ok (handle_request h f now auth req)"
proof (cases "is_public req")
  case True
  then show ?thesis
    by (cases req) (simp_all only: handle_request_def api_request.case is_public.simps,
      (intro keeps_intro)+)
next
  case False
  show ?thesis
    unfolding handle_private [OF False] by (intro keeps_intro)
qed

section \<open>Access\<close>

lemma answering_Inl: "m s = (Inl e, s') \<Longrightarrow> answering g m s = (Inl e, s')"
  by (simp add: answering_def andthen_def)

lemma user_route_denied:
  assumes "request_room req = Some rid" "access_error user rid (st_db s) = Some e"
  shows "user_route h f user req s = (Inl e, s)"
  using assms
  by (cases req)
    (auto intro!: answering_Inl delete_room_s.denied list_devices_s.denied update_device_s.denied
      delete_device_s.denied regenerate_s.denied kick_s.denied push_device_s.denied
      list_groups_s.denied create_group_s.denied update_group_s.denied delete_group_s.denied
      add_s.denied remove_s.denied push_group_s.denied)

end
