(* ===== verification/Web_Threads.thy ===== *)
theory Web_Threads
  imports Db_Threads Web_Api
begin

text \<open>
  The handlers of \<open>src/api.rs\<close> as threads: one step for each statement on the database and for each
  taking of a lock (a lock taken in the head of an \<open>if let\<close> is held in its body, so that looking up a
  channel and sending into it is one step). Run alone, each is the handler of the other theories. A
  handler of one step has no thread of its own.
\<close>

section \<open>Accounts\<close>

abbreviation db_or_t :: "status_code \<Rightarrow> (database, error + 'a) thread \<Rightarrow> (app_state, status_code + 'a) thread" where
  "db_or_t status t \<equiv> map_err_t (on_db_t t) (\<lambda>_. status)"

text \<open>\<open>login\<close>: the lock on the failures is taken for the check and given back before the account is
  looked up; it is taken again to record the outcome.\<close>

definition login_verify :: "host \<Rightarrow> fresh \<Rightarrow> string option \<Rightarrow> login_request \<Rightarrow>
    (string \<times> string \<times> string) option \<Rightarrow> (app_state, status_code + string) thread" where
  "login_verify h f forwarded req found =
     (let key = login_failure_key forwarded in
      case found of
        None \<Rightarrow> atomic (record_login_failure (fr_clock f 1) key) (\<lambda>_. stop UNAUTHORIZED)
      | Some (uid, password_hash, role) \<Rightarrow>
          if \<not> verify_password h password_hash (lr_password req) then
            atomic (record_login_failure (fr_clock f 1) key) (\<lambda>_. stop UNAUTHORIZED)
          else
            atomic (clear_login_failure key) (\<lambda>_.
            Done (case sign h (fr_clock f 1) uid (lr_username req) role of
                    Inl _ \<Rightarrow> Inl INTERNAL_SERVER_ERROR
                  | Inr access_token \<Rightarrow> Inr access_token)))"

definition login_lookup ::
    "host \<Rightarrow> fresh \<Rightarrow> string option \<Rightarrow> login_request \<Rightarrow> (app_state, status_code + string) thread" where
  "login_lookup h f forwarded req =
     atomic (db_or INTERNAL_SERVER_ERROR (find_user (lr_username req))) (login_verify h f forwarded req)"

definition login_thread ::
    "host \<Rightarrow> fresh \<Rightarrow> string option \<Rightarrow> login_request \<Rightarrow> (app_state, status_code + string) thread" where
  "login_thread h f forwarded req =
     (let key = login_failure_key forwarded; now = fr_clock f 0 in
      atomic (reading (locked_out now key)) (\<lambda>locked.
      if locked then stop TOO_MANY_REQUESTS else login_lookup h f forwarded req))"

lemma login_alone [simp]: "alone (login_thread h f fwd req) = login h f fwd req"
proof
  fix s
  show "alone (login_thread h f fwd req) s = login h f fwd req s"
    by (auto simp: login_thread_def login_lookup_def login_verify_def login_def Let_def find_user_def
        andthen_def map_err_def split: option.splits sum.splits)
qed

definition change_password_t ::
    "host \<Rightarrow> fresh \<Rightarrow> auth_user \<Rightarrow> change_password_request \<Rightarrow> (app_state, status_code + unit) thread" where
  "change_password_t h f user req =
     atomic (db_or INTERNAL_SERVER_ERROR (find_user (au_username user))) (\<lambda>found.
     case found of
       None \<Rightarrow> stop UNAUTHORIZED
     | Some (_, old_hash, _) \<Rightarrow>
         if \<not> verify_password h old_hash (cp_old_password req) then stop UNAUTHORIZED
         else
           checked (validate_password (cp_new_password req)) (\<lambda>_.
           checked (map_sum (\<lambda>_. INTERNAL_SERVER_ERROR) id
             (hash_password h (fr_salt f) (cp_new_password req))) (\<lambda>hash.
           atomic (db_or INTERNAL_SERVER_ERROR
             (update_users (\<lambda>u. us_id u = au_id user) (\<lambda>u. u\<lparr>us_password := hash\<rparr>))) (\<lambda>_.
           give ()))))"

section \<open>Rooms and devices\<close>

definition api_create_room_t ::
    "host \<Rightarrow> fresh \<Rightarrow> auth_user \<Rightarrow> string \<Rightarrow> (app_state, status_code + room) thread" where
  "api_create_room_t h f user name =
     db_or_t INTERNAL_SERVER_ERROR (create_room_t h (fr_random f) (fr_clock f 0) (au_id user) name)"

definition api_delete_room_t :: "auth_user \<Rightarrow> string \<Rightarrow> (app_state, status_code + unit) thread" where
  "api_delete_room_t user rid =
     atomic (ensure_room_access user rid) (\<lambda>_.
     stmt (db_or INTERNAL_SERVER_ERROR (delete_room rid)))"

definition api_list_devices_t :: "auth_user \<Rightarrow> string \<Rightarrow> (app_state, status_code + device list) thread" where
  "api_list_devices_t user rid =
     atomic (ensure_room_access user rid) (\<lambda>_.
     stmt (map_err (on_db (list_devices rid)) list_error))"

definition api_update_device_t ::
    "auth_user \<Rightarrow> string \<Rightarrow> string \<Rightarrow> update_device_request \<Rightarrow> (app_state, status_code + unit) thread" where
  "api_update_device_t user rid did req =
     atomic (ensure_room_access user rid) (\<lambda>_.
     db_or_t NOT_FOUND (update_device_t rid did req))"

definition api_delete_device_t :: "auth_user \<Rightarrow> string \<Rightarrow> string \<Rightarrow> (app_state, status_code + unit) thread" where
  "api_delete_device_t user rid did =
     atomic (ensure_room_access user rid) (\<lambda>_.
     atomic (db_or INTERNAL_SERVER_ERROR (delete_device rid did)) (\<lambda>_.
     stmt (remove_client did)))"

definition api_regenerate_device_token_t ::
    "host \<Rightarrow> fresh \<Rightarrow> auth_user \<Rightarrow> string \<Rightarrow> string \<Rightarrow> (app_state, status_code + string) thread" where
  "api_regenerate_device_token_t h f user rid did =
     atomic (ensure_room_access user rid) (\<lambda>_.
     atomic (db_or NOT_FOUND (regenerate_device_token h (fr_random f 0) rid did)) (\<lambda>token.
     atomic (remove_client did) (\<lambda>_.
     give token)))"

text \<open>The channel is removed and the last message sent under one taking of the lock.\<close>

definition drop_kicked :: "string \<Rightarrow> (status_code, unit) app_op" where
  "drop_kicked did =
     andthen (get_client did) (\<lambda>tx.
     andthen (remove_client did) (\<lambda>_.
     case tx of
       None \<Rightarrow> ret ()
     | Some c \<Rightarrow> send c (Kick ''kicked by console'')))"

definition kick_device_t :: "auth_user \<Rightarrow> string \<Rightarrow> string \<Rightarrow> (app_state, status_code + unit) thread" where
  "kick_device_t user rid did =
     atomic (ensure_room_access user rid) (\<lambda>_.
     atomic (db_or INTERNAL_SERVER_ERROR
       (update_devices (\<lambda>r. dv_id r = did \<and> dv_room_id r = rid)
         (\<lambda>r. r\<lparr>dv_status := ''kicked''\<rparr>))) (\<lambda>rows_affected.
     if rows_affected = 0 then stop NOT_FOUND
     else stmt (drop_kicked did)))"

section \<open>Pushes\<close>

text \<open>The last step of a push, under the lock on the channels.\<close>

definition send_config :: "string \<Rightarrow> server_message \<Rightarrow> (status_code, bool) app_op" where
  "send_config device_id message =
     andthen (get_client device_id) (\<lambda>tx.
     case tx of
       None \<Rightarrow> ret False
     | Some c \<Rightarrow>
         andthen (send c message) (\<lambda>_.
         ret True))"

definition config_name_of :: "string option \<Rightarrow> (status_code, string option) app_op" where
  "config_name_of group_id = reading (\<lambda>s. Option.bind group_id (\<lambda>gid. map_option gr_name
     (fetch_optional (\<lambda>g. gr_id g = gid) (db_groups (st_db s)))))"

definition push_config_to_device_t ::
    "host \<Rightarrow> fresh \<Rightarrow> string \<Rightarrow> string option \<Rightarrow> (app_state, status_code + bool) thread" where
  "push_config_to_device_t h f device_id group_id =
     then_t (db_or_t INTERNAL_SERVER_ERROR (device_config_t h device_id group_id)) (\<lambda>found.
     case found of
       None \<Rightarrow> stop NOT_FOUND
     | Some (effective_group_id, version, config) \<Rightarrow>
       atomic (config_name_of effective_group_id) (\<lambda>config_name.
       let payload = push_payload h device_id effective_group_id config_name version config in
       atomic (reading (\<lambda>s. map_option dv_device_token
         (fetch_optional (\<lambda>r. dv_id r = device_id) (db_devices (st_db s))))) (\<lambda>token.
       checked (ok_or NOT_FOUND token) (\<lambda>device_token.
       let push_version = i64_as_u32 version;
           master = device_push_key_material device_id device_token in
       checked (map_sum (\<lambda>_. INTERNAL_SERVER_ERROR) id (encrypt_parts h (fr_random f 0) master
           (device_push_context device_id push_version) (h_json_text h payload)))
         (\<lambda>(encrypted_config, nonce).
       atomic (db_or INTERNAL_SERVER_ERROR (insert_push
           \<lparr> pu_id = fr_uuid f 0, pu_device_id = device_id, pu_group_id = effective_group_id,
             pu_config_snapshot = encrypted_config, pu_pushed_at = fr_clock f 0, pu_acked = 0 \<rparr>)) (\<lambda>_.
       stmt (send_config device_id (ConfigPush push_version encrypted_config nonce))))))))"

fun push_each_t ::
    "host \<Rightarrow> fresh \<Rightarrow> string option \<Rightarrow> nat \<Rightarrow> string list \<Rightarrow> nat \<Rightarrow> (app_state, status_code + nat) thread" where
  "push_each_t h f group_id i [] count = give count"
| "push_each_t h f group_id i (device_id # ids) count =
     then_t (push_config_to_device_t h (fresh_from f i) device_id group_id) (\<lambda>pushed.
     push_each_t h f group_id (i + 1) ids (if pushed then count + 1 else count))"

definition push_device_t ::
    "host \<Rightarrow> fresh \<Rightarrow> auth_user \<Rightarrow> string \<Rightarrow> string \<Rightarrow> (app_state, status_code + bool) thread" where
  "push_device_t h f user rid did =
     atomic (ensure_room_access user rid) (\<lambda>_.
     atomic (ensure_device_in_room rid did) (\<lambda>_.
     push_config_to_device_t h f did None))"

definition push_group_t ::
    "host \<Rightarrow> fresh \<Rightarrow> auth_user \<Rightarrow> string \<Rightarrow> string \<Rightarrow> (app_state, status_code + nat) thread" where
  "push_group_t h f user rid gid =
     atomic (ensure_room_access user rid) (\<lambda>_.
     atomic (ensure_group_in_room rid gid) (\<lambda>_.
     atomic (reading (\<lambda>s. map dv_id (select_where
       (\<lambda>r. dv_room_id r = rid \<and> dv_group_id r = Some gid) (db_devices (st_db s))))) (\<lambda>rows.
     push_each_t h f (Some gid) 0 rows 0)))"

section \<open>Groups, events and backups\<close>

definition api_list_groups_t ::
    "host \<Rightarrow> auth_user \<Rightarrow> string \<Rightarrow> (app_state, status_code + group list) thread" where
  "api_list_groups_t h user rid =
     atomic (ensure_room_access user rid) (\<lambda>_.
     stmt (db_or INTERNAL_SERVER_ERROR (list_groups h rid)))"

definition api_create_group_t ::
    "host \<Rightarrow> fresh \<Rightarrow> auth_user \<Rightarrow> string \<Rightarrow> string \<Rightarrow> vnt_client_config \<Rightarrow>
     (app_state, status_code + group) thread" where
  "api_create_group_t h f user rid name config =
     atomic (ensure_room_access user rid) (\<lambda>_.
     stmt (db_or INTERNAL_SERVER_ERROR
       (create_group h (fr_uuid f 0) (fresh_nonces f) (fr_clock f 0) rid name config)))"

definition api_update_group_t ::
    "host \<Rightarrow> fresh \<Rightarrow> auth_user \<Rightarrow> string \<Rightarrow> string \<Rightarrow> update_group_request \<Rightarrow>
     (app_state, status_code + group) thread" where
  "api_update_group_t h f user rid gid req =
     atomic (ensure_room_access user rid) (\<lambda>_.
     db_or_t NOT_FOUND (update_group_thread h (fresh_nonces f) (fr_clock f 0) rid gid req))"

definition api_delete_group_t :: "auth_user \<Rightarrow> string \<Rightarrow> string \<Rightarrow> (app_state, status_code + unit) thread" where
  "api_delete_group_t user rid gid =
     atomic (ensure_room_access user rid) (\<lambda>_.
     stmt (db_or INTERNAL_SERVER_ERROR (delete_group rid gid)))"

definition add_group_device_t ::
    "auth_user \<Rightarrow> string \<Rightarrow> string \<Rightarrow> string \<Rightarrow> (app_state, status_code + unit) thread" where
  "add_group_device_t user rid gid device_id =
     atomic (ensure_room_access user rid) (\<lambda>_.
     db_or_t NOT_FOUND (set_device_group_t rid (Some gid) device_id))"

definition remove_group_device_t ::
    "auth_user \<Rightarrow> string \<Rightarrow> string \<Rightarrow> string \<Rightarrow> (app_state, status_code + unit) thread" where
  "remove_group_device_t user rid gid device_id =
     atomic (ensure_room_access user rid) (\<lambda>_.
     db_or_t NOT_FOUND (set_device_group_t rid None device_id))"

definition api_export_backup_t ::
    "fresh \<Rightarrow> auth_user \<Rightarrow> string option \<Rightarrow> (app_state, status_code + backup_envelope) thread" where
  "api_export_backup_t f user query_scope =
     (let scope = (case query_scope of Some s \<Rightarrow> s
                   | None \<Rightarrow> if au_role user = ''admin'' then ''full'' else ''user'') in
      then_t
        (if scope = ''full'' then
           (if au_role user \<noteq> ''admin'' then stop FORBIDDEN
            else db_or_t INTERNAL_SERVER_ERROR export_backup_t)
         else if scope = ''user'' then
           db_or_t INTERNAL_SERVER_ERROR (export_user_backup_t (au_id user))
         else stop BAD_REQUEST) (\<lambda>data.
      give \<lparr> be_format_version = 1, be_exported_at = fr_clock f 0, be_source_mode = ''sqlite'',
            be_scope = scope, be_data = data \<rparr>))"

section \<open>Dispatch\<close>

definition answering_t :: "('a \<Rightarrow> 'b) \<Rightarrow> ('s, 'e + 'a) thread \<Rightarrow> ('s, 'e + 'b) thread" where
  "answering_t f t = then_t t (\<lambda>x. give (f x))"

abbreviation ok_response_t :: "('s, 'e + unit) thread \<Rightarrow> ('s, 'e + api_response) thread" where
  "ok_response_t t \<equiv> answering_t (\<lambda>_. ROk) t"

fun user_route_t ::
    "host \<Rightarrow> fresh \<Rightarrow> auth_user \<Rightarrow> api_request \<Rightarrow> (app_state, status_code + api_response) thread" where
  "user_route_t h f user (PostChangePassword req) = ok_response_t (change_password_t h f user req)"
| "user_route_t h f user DeleteAccount = ok_response_t (stmt (delete_account user))"
| "user_route_t h f user GetRooms = answering_t RRooms (stmt (api_list_rooms user))"
| "user_route_t h f user (PostRooms name) = answering_t RRoom (api_create_room_t h f user name)"
| "user_route_t h f user (DeleteRoom rid) = ok_response_t (api_delete_room_t user rid)"
| "user_route_t h f user (GetDevices rid) = answering_t RDevices (api_list_devices_t user rid)"
| "user_route_t h f user (PatchDevice rid i req) = ok_response_t (api_update_device_t user rid i req)"
| "user_route_t h f user (DeleteDevice rid i) = ok_response_t (api_delete_device_t user rid i)"
| "user_route_t h f user (PostKick rid i) = ok_response_t (kick_device_t user rid i)"
| "user_route_t h f user (PostPushDevice rid i) = answering_t RPushed (push_device_t h f user rid i)"
| "user_route_t h f user (GetToken rid i) =
     answering_t RDeviceToken (api_regenerate_device_token_t h f user rid i)"
| "user_route_t h f user (GetGroups rid) = answering_t RGroups (api_list_groups_t h user rid)"
| "user_route_t h f user (PostGroups rid name config) =
     answering_t RGroup (api_create_group_t h f user rid name config)"
| "user_route_t h f user (PutGroup rid g req) = answering_t RGroup (api_update_group_t h f user rid g req)"
| "user_route_t h f user (DeleteGroup rid g) = ok_response_t (api_delete_group_t user rid g)"
| "user_route_t h f user (PostPushGroup rid g) = answering_t RPushedCount (push_group_t h f user rid g)"
| "user_route_t h f user (PostGroupAdd rid g i) = ok_response_t (add_group_device_t user rid g i)"
| "user_route_t h f user (PostGroupRemove rid g i) = ok_response_t (remove_group_device_t user rid g i)"
| "user_route_t h f user (GetEvents q) = answering_t REvents (stmt (api_list_events user q))"
| "user_route_t h f user GetEventsStream = answering_t RStream (stmt (events_stream user))"
| "user_route_t h f user (GetBackup scope) = answering_t RBackup (api_export_backup_t f user scope)"
| "user_route_t h f user (PostBackup mode b) = answering_t RReport (stmt (api_import_backup h user mode b))"
| "user_route_t h f user _ = stop NOT_FOUND"

definition handle_request_t ::
    "host \<Rightarrow> fresh \<Rightarrow> i64 \<Rightarrow> string option \<Rightarrow> api_request \<Rightarrow>
     (app_state, status_code + api_response) thread" where
  "handle_request_t h f now authorization req =
     (case req of
        GetPublicConfig \<Rightarrow> answering_t RPublicConfig (stmt public_config)
      | PostLogin forwarded body \<Rightarrow> answering_t RToken (login_thread h f forwarded body)
      | PostRegister body \<Rightarrow> answering_t RId (stmt (register h f body))
      | _ \<Rightarrow>
          checked (from_request_parts h now authorization) (\<lambda>user.
          user_route_t h f user req))"

section \<open>Run alone\<close>

lemma of_map_sum: "of_result (map_sum f id r) = map_err (of_result r) f"
  by (auto simp: fun_eq_iff map_err_def split: sum.splits)

lemma answering_alone [simp]: "alone (answering_t f t) = answering f (alone t)"
  by (simp add: answering_t_def answering_def)

lemma change_password_alone [simp]: "alone (change_password_t h f user cp) = change_password h f user cp"
  by (simp add: change_password_t_def change_password_def of_map_sum cong: alone_cong)

lemma room_handlers_alone [simp]:
  "alone (api_create_room_t h f user n) = api_create_room h f user n"
  "alone (api_delete_room_t user rid) = api_delete_room user rid"
  "alone (api_list_devices_t user rid) = api_list_devices user rid"
  "alone (api_update_device_t user rid i ur) = api_update_device user rid i ur"
  "alone (api_delete_device_t user rid i) = api_delete_device user rid i"
  "alone (api_regenerate_device_token_t h f user rid i) = api_regenerate_device_token h f user rid i"
  "alone (kick_device_t user rid i) = kick_device user rid i"
  by (simp_all add: api_create_room_t_def api_create_room_def db_or_def api_delete_room_t_def
      api_delete_room_def api_list_devices_t_def api_list_devices_def api_update_device_t_def
      api_update_device_def api_delete_device_t_def api_delete_device_def
      api_regenerate_device_token_t_def api_regenerate_device_token_def kick_device_t_def
      kick_device_def drop_kicked_def cong: alone_cong)

lemma push_config_alone [simp]: "alone (push_config_to_device_t h f i g) = push_config_to_device h f i g"
  by (simp add: push_config_to_device_t_def push_config_to_device_def db_or_def Let_def of_map_sum
      config_name_of_def send_config_def cong: alone_cong)

lemma push_each_alone [simp]: "alone (push_each_t h f g i ids n) = push_each h f g i ids n"
  by (induction ids arbitrary: i n) simp_all

lemma pushes_alone [simp]:
  "alone (push_device_t h f user rid i) = push_device h f user rid i"
  "alone (push_group_t h f user rid g) = push_group h f user rid g"
  by (simp_all add: push_device_t_def push_device_def push_group_t_def push_group_def)

lemma group_handlers_alone [simp]:
  "alone (api_list_groups_t h user rid) = api_list_groups h user rid"
  "alone (api_create_group_t h f user rid n c) = api_create_group h f user rid n c"
  "alone (api_update_group_t h f user rid g q) = api_update_group h f user rid g q"
  "alone (api_delete_group_t user rid g) = api_delete_group user rid g"
  "alone (add_group_device_t user rid g i) = add_group_device user rid g i"
  "alone (remove_group_device_t user rid g i) = remove_group_device user rid g i"
  by (simp_all add: api_list_groups_t_def api_list_groups_def api_create_group_t_def
      api_create_group_def api_update_group_t_def api_update_group_def update_group_alone
      api_delete_group_t_def api_delete_group_def add_group_device_t_def add_group_device_def
      remove_group_device_t_def remove_group_device_def db_or_def)

lemma export_alone [simp]: "alone (api_export_backup_t f user scope) = api_export_backup f user scope"
  by (simp add: api_export_backup_t_def api_export_backup_def db_or_def Let_def cong: alone_cong)

lemma user_route_alone: "alone (user_route_t h f user req) = user_route h f user req"
  by (cases req) simp_all

theorem request_alone: "alone (handle_request_t h f now auth req) = handle_request h f now auth req"
  by (cases req) (simp_all add: handle_request_t_def handle_request_def user_route_alone
      del: user_route_t.simps user_route.simps)

end
