(* ===== verification/Client_Api.thy ===== *)
theory Client_Api
  imports Web_Api
begin

text \<open>
  The handlers of \<open>src/client_api.rs\<close> for the messages of connected devices: the hello, the
  reports (events, traffic, status, configuration state), the acknowledgement, and the pushes
  they lead to.
\<close>

section \<open>Payloads of events\<close>

definition value_u64 :: "json \<Rightarrow> u64 option" where
  "value_u64 value =
     (case as_u64 value of
        Some w \<Rightarrow> Some w
      | None \<Rightarrow>
          (case Option.bind (as_i64 value) (\<lambda>v. if 0 \<le> v then Some (word_of_int v) else None) of
             Some w \<Rightarrow> Some w
           | None \<Rightarrow> Option.bind (as_str value) parse_u64))"

fun payload_u64 :: "json \<Rightarrow> string list \<Rightarrow> u64 option" where
  "payload_u64 payload [] = None"
| "payload_u64 payload (key # keys) =
     (case Option.bind (json_get key payload) value_u64 of
        Some w \<Rightarrow> Some w
      | None \<Rightarrow> payload_u64 payload keys)"

definition traffic_from_payload :: "string \<Rightarrow> json \<Rightarrow> (u64 \<times> u64) option" where
  "traffic_from_payload event_type payload =
     (if event_type \<notin> {''traffic_stats'', ''traffic'', ''status'', ''client_status''} then None
      else
        Option.bind (payload_u64 payload
          [''up_stream'', ''up_bytes'', ''upload'', ''tx'', ''tx_bytes'']) (\<lambda>up.
        Option.bind (payload_u64 payload
          [''down_stream'', ''down_bytes'', ''download'', ''rx'', ''rx_bytes'']) (\<lambda>down.
        Some (up, down))))"

definition vnts_status_from_payload :: "string \<Rightarrow> json \<Rightarrow> (string \<times> string option) option" where
  "vnts_status_from_payload event_type payload =
     (if event_type \<noteq> ''vnts_status'' then None
      else
        Option.bind (Option.bind (json_get ''status'' payload) as_str) (\<lambda>raw.
        let status = trim raw in
        if status = [] then None
        else
          let error = Option.bind (Option.bind (json_get ''error'' payload) as_str)
                        (\<lambda>v. if trim v \<noteq> [] then Some (trim v) else None)
          in Some (status, error)))"

section \<open>The hello\<close>

text \<open>A result that the code looks at instead of returning it.\<close>

definition attempt :: "('s, 'e, 'a) comp \<Rightarrow> ('s, 'f, 'e + 'a) comp" where
  "attempt m s = (case m s of (r, s') \<Rightarrow> (Inr r, s'))"

definition handle_client_hello ::
    "host \<Rightarrow> fresh \<Rightarrow> string \<Rightarrow> client_message \<Rightarrow> conn \<Rightarrow> (error, (string \<times> string) option) app_op" where
  "handle_client_hello h f peer_ip hello outbound =
     (case hello of
        Hello rid device_id device_token device_name protocol_version client_version \<Rightarrow>
          if protocol_version \<noteq> 1 then
            andthen (send outbound (Kick ''unsupported protocol version'')) (\<lambda>_. ret None)
          else
            andthen (attempt (on_db (room_exists rid))) (\<lambda>known.
            if known \<noteq> Inr True then ret None
            else
              andthen (attempt (on_db (upsert_device_hello h (fr_uuid f 0) (fr_random f 0)
                (fr_clock f 0) rid device_id device_token device_name client_version
                (Some peer_ip)))) (\<lambda>r.
              case r of
                Inl e \<Rightarrow> ret None
              | Inr (i, new_token, status) \<Rightarrow>
                  andthen (send outbound (HelloAck i new_token status ''0.1.0'')) (\<lambda>_.
                  ret (Some (i, status)))))
      | _ \<Rightarrow> ret None)"

definition mark_device_offline :: "string \<Rightarrow> ('e, unit) app_op" where
  "mark_device_offline i =
     andthen (attempt (on_db (update_devices (\<lambda>r. dv_id r = i)
       (\<lambda>r. r\<lparr>dv_status := offline_unless_kicked (dv_status r)\<rparr>)))) (\<lambda>_. ret ())"

section \<open>Pushes that follow a message\<close>

text \<open>A status as it is displayed: its number and its reason phrase.\<close>

fun status_reason :: "status_code \<Rightarrow> string" where
  "status_reason BAD_REQUEST = ''Bad Request''"
| "status_reason UNAUTHORIZED = ''Unauthorized''"
| "status_reason FORBIDDEN = ''Forbidden''"
| "status_reason NOT_FOUND = ''Not Found''"
| "status_reason CONFLICT = ''Conflict''"
| "status_reason TOO_MANY_REQUESTS = ''Too Many Requests''"
| "status_reason INTERNAL_SERVER_ERROR = ''Internal Server Error''"
| "status_reason NO_RESPONSE = []"

definition status_text :: "status_code \<Rightarrow> string" where
  "status_text s = show_nat (status_number s) @ '' '' @ status_reason s"

definition push_device_config :: "host \<Rightarrow> fresh \<Rightarrow> string \<Rightarrow> (error, bool) app_op" where
  "push_device_config h f device_id =
     map_err (push_config_to_device h f device_id None)
       (\<lambda>status. Bail (''push config failed: '' @ status_text status))"

definition push_current_config_if_needed :: "host \<Rightarrow> fresh \<Rightarrow> string \<Rightarrow> (error, unit) app_op" where
  "push_current_config_if_needed h f device_id =
     andthen (reading (\<lambda>s. fetch_optional (\<lambda>r. dv_id r = device_id) (db_devices (st_db s)))) (\<lambda>row.
     case row of
       None \<Rightarrow> ret ()
     | Some row \<Rightarrow>
         if dv_group_id row = None then ret ()
         else
           andthen (on_db (device_config h device_id None)) (\<lambda>found.
           case found of
             None \<Rightarrow> ret ()
           | Some (_, config_version, _) \<Rightarrow>
               if dv_config_version row < config_version then
                 andthen (push_device_config h f device_id) (\<lambda>_. ret ())
               else ret ()))"

definition push_if_console_config_differs ::
    "host \<Rightarrow> fresh \<Rightarrow> string \<Rightarrow> u32 \<Rightarrow> (error, unit) app_op" where
  "push_if_console_config_differs h f device_id reported_version =
     andthen (on_db (device_config h device_id None)) (\<lambda>found.
     case found of
       None \<Rightarrow> ret ()
     | Some (_, console_version, _) \<Rightarrow>
         if i64_as_u32 console_version \<noteq> reported_version then
           andthen (push_device_config h f device_id) (\<lambda>_. ret ())
         else ret ())"

text \<open>The default name of a group made from a reported configuration, as its UTF-8 bytes.\<close>

definition cached_config_name :: string where
  "cached_config_name = map char_of [0xE5 :: nat, 0xAE, 0xA2, 0xE6, 0x88, 0xB7, 0xE7, 0xAB, 0xAF,
     0xE7, 0xBC, 0x93, 0xE5, 0xAD, 0x98, 0xE9, 0x85, 0x8D, 0xE7, 0xBD, 0xAE]"

definition set_reported_version :: "i64 \<Rightarrow> string \<Rightarrow> u32 \<Rightarrow> (error, nat) app_op" where
  "set_reported_version now device_id config_version =
     on_db (update_devices (\<lambda>r. dv_id r = device_id)
       (\<lambda>r. r\<lparr>dv_config_version := u32_as_i64 config_version, dv_last_seen := SInt now,
              dv_status := online_unless_kicked (dv_status r)\<rparr>))"

definition sync_reported_config_state ::
    "host \<Rightarrow> fresh \<Rightarrow> string \<Rightarrow> u32 \<Rightarrow> string option \<Rightarrow> string option \<Rightarrow> vnt_client_config \<Rightarrow> bool \<Rightarrow>
     (error, unit) app_op" where
  "sync_reported_config_state h f device_id config_version group_id config_name config running =
     andthen (if running
              then andthen (set_reported_version (fr_clock f 0) device_id config_version) (\<lambda>_. ret ())
              else ret ()) (\<lambda>_.
     andthen (reading (\<lambda>s. fetch_optional (\<lambda>r. dv_id r = device_id) (db_devices (st_db s)))) (\<lambda>row.
     case row of
       None \<Rightarrow> ret ()
     | Some row \<Rightarrow>
       let rid = dv_room_id row in
       if dv_group_id row \<noteq> None then
         push_if_console_config_differs h (fresh_from f 1) device_id config_version
       else
         let reported = Option.bind group_id (\<lambda>v. if trim v \<noteq> [] then Some v else None) in
         andthen (reading (\<lambda>s. case reported of
             None \<Rightarrow> None
           | Some gid \<Rightarrow> if 0 < count_where (\<lambda>g. gr_id g = gid \<and> gr_room_id g = rid) (db_groups (st_db s))
                         then Some gid else None)) (\<lambda>existing.
         case existing of
           Some gid \<Rightarrow>
             andthen (on_db (set_device_group rid (Some gid) device_id)) (\<lambda>_.
             push_if_console_config_differs h (fresh_from f 1) device_id config_version)
         | None \<Rightarrow>
             let name = (case Option.bind config_name (\<lambda>v. if trim v \<noteq> [] then Some v else None) of
                           Some v \<Rightarrow> v | None \<Rightarrow> cached_config_name) in
             andthen (on_db (create_group_with_version h (fr_uuid f 0) (fresh_nonces f)
               (fr_clock f 1) (fr_clock f 2) rid name config (u32_as_i64 config_version))) (\<lambda>group.
             andthen (on_db (set_device_group rid (Some (grp_id group)) device_id)) (\<lambda>_.
             andthen (on_db (update_devices (\<lambda>r. dv_id r = device_id)
               (\<lambda>r. r\<lparr>dv_config_version := u32_as_i64 config_version\<rparr>))) (\<lambda>_.
             ret ()))))))"

section \<open>Messages\<close>

text \<open>The newest push of the device that is not acknowledged yet.\<close>

definition newest_unacked :: "string \<Rightarrow> database \<Rightarrow> string option" where
  "newest_unacked device_id d =
     (case sql_limit 1 (order_desc pu_pushed_at
         (select_where (\<lambda>p. pu_device_id p = device_id \<and> pu_acked p = 0) (db_pushes d))) of
        [] \<Rightarrow> None
      | p # _ \<Rightarrow> Some (pu_id p))"

definition acknowledge_push :: "string \<Rightarrow> nat db_op" where
  "acknowledge_push device_id =
     andthen (reading (newest_unacked device_id)) (\<lambda>newest.
     update_pushes (\<lambda>p. Some (pu_id p) = newest) (\<lambda>p. p\<lparr>pu_acked := 1\<rparr>))"

definition event_json :: "string \<Rightarrow> string \<Rightarrow> string \<Rightarrow> json \<Rightarrow> i64 \<Rightarrow> json" where
  "event_json event_id device_id event_type payload created_at = JObj
     [(''created_at'', json_of_i64 created_at), (''device_id'', JStr device_id),
      (''event_type'', JStr event_type), (''id'', JStr event_id), (''payload'', payload)]"

definition handle_event_report ::
    "host \<Rightarrow> fresh \<Rightarrow> string \<Rightarrow> string \<Rightarrow> json \<Rightarrow> (error, unit) app_op" where
  "handle_event_report h f device_id event_type payload =
     andthen (case traffic_from_payload event_type payload of
         Some (up_stream, down_stream) \<Rightarrow>
           on_db (update_device_traffic (fr_clock f 0) device_id up_stream down_stream)
       | None \<Rightarrow> ret ()) (\<lambda>_.
     andthen (case vnts_status_from_payload event_type payload of
         Some (status, error) \<Rightarrow>
           on_db (update_device_vnts_status (fr_clock f 1) device_id status error)
       | None \<Rightarrow> ret ()) (\<lambda>_.
     let event_id = fr_uuid f 0; created_at = fr_clock f 2 in
     andthen (on_db (insert_event
       \<lparr> ei_id = event_id, ei_device_id = device_id, ei_event_type = event_type,
         ei_payload = Some (h_json_text h payload), ei_created_at = created_at \<rparr>)) (\<lambda>_.
     publish (h_json_text h (event_json event_id device_id event_type payload created_at)))))"

fun handle_client_message ::
    "host \<Rightarrow> fresh \<Rightarrow> string \<Rightarrow> client_message \<Rightarrow> (error, unit) app_op" where
  "handle_client_message h f device_id (EventReport event_type payload _) =
     handle_event_report h f device_id event_type payload"
| "handle_client_message h f device_id (ConfigAck config_version) =
     andthen (set_reported_version (fr_clock f 0) device_id config_version) (\<lambda>_.
     andthen (on_db (acknowledge_push device_id)) (\<lambda>_.
     ret ()))"
| "handle_client_message h f device_id (ConfigState config_version group_id config_name config running) =
     sync_reported_config_state h f device_id config_version group_id config_name config running"
| "handle_client_message h f device_id (Heartbeat _) =
     andthen (on_db (update_devices (\<lambda>r. dv_id r = device_id)
       (\<lambda>r. r\<lparr>dv_last_seen := SInt (fr_clock f 0)\<rparr>))) (\<lambda>_.
     ret ())"
| "handle_client_message h f device_id (Disconnect _) =
     andthen (remove_client device_id) (\<lambda>_.
     mark_device_offline device_id)"
| "handle_client_message h f device_id (TrafficStats up_stream down_stream _) =
     on_db (update_device_traffic (fr_clock f 0) device_id up_stream down_stream)"
| "handle_client_message h f device_id (Hello _ _ _ _ _ _) = ret ()"

section \<open>Preservation of the invariant\<close>

lemma keeps_attempt [keeps_intro]: "keeps P m \<Longrightarrow> keeps P (attempt m)"
  by (auto simp: keeps_def attempt_def split: prod.splits)

lemma keeps_sum [keeps_intro]:
  "(\<And>e. keeps P (m e)) \<Longrightarrow> (\<And>x. keeps P (k x)) \<Longrightarrow>
     keeps P (case z of Inl e \<Rightarrow> m e | Inr x \<Rightarrow> k x)"
  by (simp split: sum.splits)

lemma hello_ok [keeps_intro]: "keeps hub_ok (handle_client_hello h f ip m c)"
  unfolding handle_client_hello_def
  by (cases m; simp only: client_message.case; intro keeps_intro hub_db)

lemma mark_device_offline_ok [keeps_intro]: "keeps hub_ok (mark_device_offline i)"
  unfolding mark_device_offline_def by (intro keeps_intro hub_db update_devices_ok; simp)

lemma client_push_ok [keeps_intro]:
  "keeps hub_ok (push_device_config h f i)" "keeps hub_ok (push_current_config_if_needed h f i)"
  "keeps hub_ok (push_if_console_config_differs h f i v)"
  unfolding push_device_config_def push_current_config_if_needed_def push_if_console_config_differs_def
  by (intro keeps_intro hub_db)+

lemma set_reported_version_ok [keeps_intro]: "keeps hub_ok (set_reported_version t i v)"
  unfolding set_reported_version_def by (intro keeps_intro hub_db update_devices_ok; simp)

lemma sync_ok [keeps_intro]: "keeps hub_ok (sync_reported_config_state h f i v g n c run)"
  unfolding sync_reported_config_state_def Let_def
  by (intro keeps_intro hub_db update_devices_ok; simp)

lemma acknowledge_ok [keeps_intro]: "keeps db_ok (acknowledge_push i)"
  unfolding acknowledge_push_def by (intro keeps_intro update_pushes_ok; simp)

lemma event_report_ok [keeps_intro]: "keeps hub_ok (handle_event_report h f i ty p)"
  unfolding handle_event_report_def Let_def by (intro keeps_intro hub_db)

lemma handle_client_message_ok [keeps_intro]: "keeps hub_ok (handle_client_message h f i m)"
  by (cases m; simp only: handle_client_message.simps;
      intro keeps_intro hub_db update_devices_ok; simp)

end
