(* ===== verification/Client_Session.thy ===== *)
theory Client_Session
  imports Client_Api
begin

text \<open>
  The three transports of \<open>src/client_api.rs\<close>: a session over a WebSocket or a raw TCP stream
  opens with a hello, handles the messages one by one and closes; a UDP datagram is a step of the
  loop of \<open>serve_udp\<close>, which remembers the device of every peer. Frames, lines and datagrams that
  do not parse are skipped.
\<close>

section \<open>Sessions\<close>

text \<open>The parts of \<open>handle_client_session\<close>: what it does before its loop (the result is the
  device, when the loop is entered), for a message, and after the loop.\<close>

definition session_open ::
    "host \<Rightarrow> fresh \<Rightarrow> string \<Rightarrow> client_message \<Rightarrow> conn \<Rightarrow> (error, string option) app_op" where
  "session_open h f peer_ip hello outbound =
     andthen (handle_client_hello h f peer_ip hello outbound) (\<lambda>r.
     case r of
       None \<Rightarrow> ret None
     | Some (i, status) \<Rightarrow>
         if status = ''kicked'' then ret None
         else
           andthen (insert_client i outbound) (\<lambda>_.
           andthen (attempt (push_current_config_if_needed h (fresh_from f 1) i)) (\<lambda>_.
           ret (Some i))))"

definition session_message :: "host \<Rightarrow> fresh \<Rightarrow> string \<Rightarrow> client_message \<Rightarrow> (error, unit) app_op" where
  "session_message h f i message = andthen (attempt (handle_client_message h f i message)) (\<lambda>_. ret ())"

definition session_close :: "string \<Rightarrow> (error, unit) app_op" where
  "session_close i = andthen (remove_client i) (\<lambda>_. mark_device_offline i)"

fun session_loop :: "host \<Rightarrow> (nat \<Rightarrow> fresh) \<Rightarrow> string \<Rightarrow> nat \<Rightarrow> client_message list \<Rightarrow> (error, unit) app_op" where
  "session_loop h fs i n [] = ret ()"
| "session_loop h fs i n (m # ms) =
     andthen (session_message h (fs n) i m) (\<lambda>_. session_loop h fs i (n + 1) ms)"

text \<open>A whole session without the steps of others in between; \<open>inbound\<close> is what arrives.\<close>

definition handle_client_session ::
    "host \<Rightarrow> (nat \<Rightarrow> fresh) \<Rightarrow> string \<Rightarrow> client_message \<Rightarrow> conn \<Rightarrow> client_message list \<Rightarrow>
     (error, unit) app_op" where
  "handle_client_session h fs peer_ip hello outbound inbound =
     andthen (session_open h (fs 0) peer_ip hello outbound) (\<lambda>r.
     case r of
       None \<Rightarrow> ret ()
     | Some i \<Rightarrow>
         andthen (session_loop h fs i 1 inbound) (\<lambda>_.
         session_close i))"

section \<open>WebSocket and raw TCP\<close>

datatype ws_item = WsText string | WsOther | WsError

definition ws_messages :: "host \<Rightarrow> ws_item list \<Rightarrow> client_message list" where
  "ws_messages h items = List.map_filter
     (\<lambda>item. case item of WsText text \<Rightarrow> h_client_message h text | _ \<Rightarrow> None) items"

definition handle_socket ::
    "host \<Rightarrow> (nat \<Rightarrow> fresh) \<Rightarrow> string \<Rightarrow> conn \<Rightarrow> ws_item list \<Rightarrow> (error, unit) app_op" where
  "handle_socket h fs peer_ip c items =
     (case items of
        WsText first # rest \<Rightarrow>
          (case h_client_message h first of
             None \<Rightarrow> ret ()
           | Some hello \<Rightarrow> handle_client_session h fs peer_ip hello c (ws_messages h rest))
      | _ \<Rightarrow> ret ())"

text \<open>The lines of a stream, up to its end or the first read error.\<close>

definition raw_messages :: "host \<Rightarrow> string list \<Rightarrow> client_message list" where
  "raw_messages h lines = List.map_filter (h_client_message h) lines"

definition handle_raw_tcp ::
    "host \<Rightarrow> (nat \<Rightarrow> fresh) \<Rightarrow> string \<Rightarrow> conn \<Rightarrow> string list \<Rightarrow> (error, unit) app_op" where
  "handle_raw_tcp h fs peer_ip c lines =
     (case lines of
        [] \<Rightarrow> ret ()
      | first # rest \<Rightarrow>
          andthen (of_result (lib ''serde_json'' (h_client_message h first))) (\<lambda>hello.
          handle_client_session h fs peer_ip hello c (raw_messages h rest)))"

section \<open>UDP\<close>

type_synonym sock_addr = "string \<times> nat"

record udp_state =
  ud_peers :: "sock_addr \<Rightarrow> string option"
  ud_app :: app_state

type_synonym 'a udp_op = "(udp_state, error, 'a) comp"

definition on_app :: "(error, 'a) app_op \<Rightarrow> 'a udp_op" where
  "on_app m u = (case m (ud_app u) of (r, s) \<Rightarrow> (r, u\<lparr>ud_app := s\<rparr>))"

definition set_peer :: "sock_addr \<Rightarrow> string option \<Rightarrow> unit udp_op" where
  "set_peer peer v = writing (\<lambda>u. u\<lparr>ud_peers := (ud_peers u)(peer := v)\<rparr>)"

text \<open>\<open>c\<close> is the channel for the answer to the hello, \<open>c'\<close> the one that stays registered.\<close>

definition handle_udp_hello ::
    "host \<Rightarrow> fresh \<Rightarrow> conn \<Rightarrow> conn \<Rightarrow> sock_addr \<Rightarrow> client_message \<Rightarrow> unit udp_op" where
  "handle_udp_hello h f c c' peer hello =
     andthen (on_app (handle_client_hello h f (fst peer) hello c)) (\<lambda>r.
     case r of
       None \<Rightarrow> ret ()
     | Some (i, status) \<Rightarrow>
         if status = ''kicked'' then ret ()
         else
           andthen (set_peer peer (Some i)) (\<lambda>_.
           andthen (on_app (insert_client i c')) (\<lambda>_.
           andthen (on_app (attempt (push_current_config_if_needed h (fresh_from f 1) i))) (\<lambda>_.
           ret ()))))"

fun is_hello :: "client_message \<Rightarrow> bool" where
  "is_hello (Hello _ _ _ _ _ _) = True"
| "is_hello _ = False"

fun is_disconnect :: "client_message \<Rightarrow> bool" where
  "is_disconnect (Disconnect _) = True"
| "is_disconnect _ = False"

text \<open>One round of the loop of \<open>serve_udp\<close>, for the datagram \<open>buf[..len]\<close>.\<close>

definition udp_datagram ::
    "host \<Rightarrow> fresh \<Rightarrow> conn \<Rightarrow> conn \<Rightarrow> sock_addr \<Rightarrow> bytes \<Rightarrow> unit udp_op" where
  "udp_datagram h f c c' peer buf =
     (case from_utf8 buf of
        None \<Rightarrow> ret ()
      | Some text \<Rightarrow>
          (case h_client_message h text of
             None \<Rightarrow> ret ()
           | Some message \<Rightarrow>
               if is_hello message then handle_udp_hello h f c c' peer message
               else
                 andthen (reading (\<lambda>u. ud_peers u peer)) (\<lambda>known.
                 case known of
                   None \<Rightarrow> ret ()
                 | Some device_id \<Rightarrow>
                     andthen (on_app (attempt (handle_client_message h f device_id message))) (\<lambda>_.
                     if is_disconnect message then set_peer peer None else ret ()))))"

section \<open>Preservation of the invariant\<close>

lemma session_ok [keeps_intro]:
  "keeps hub_ok (session_open h f ip m c)" "keeps hub_ok (session_message h f i m)"
  "keeps hub_ok (session_close i)"
  unfolding session_open_def session_message_def session_close_def by (intro keeps_intro)+

lemma session_loop_ok [keeps_intro]: "keeps hub_ok (session_loop h fs i n ms)"
proof (induction ms arbitrary: n)
  case Nil
  show ?case by (simp only: session_loop.simps keeps_basic)
next
  case (Cons m ms)
  show ?case
    by (simp only: session_loop.simps) (intro keeps_intro Cons.IH)
qed

lemma handle_client_session_ok [keeps_intro]: "keeps hub_ok (handle_client_session h fs ip m c ms)"
  unfolding handle_client_session_def by (intro keeps_intro)

lemma keeps_list:
  "keeps P m \<Longrightarrow> (\<And>x xs. keeps P (k x xs)) \<Longrightarrow> keeps P (case l of [] \<Rightarrow> m | x # xs \<Rightarrow> k x xs)"
  by (simp split: list.splits)

lemma keeps_item:
  "(\<And>x. keeps P (m x)) \<Longrightarrow> keeps P n \<Longrightarrow>
     keeps P (case item of WsText x \<Rightarrow> m x | WsOther \<Rightarrow> n | WsError \<Rightarrow> n)"
  by (simp split: ws_item.splits)

lemma streams_ok [keeps_intro]:
  "keeps hub_ok (handle_socket h fs ip c items)" "keeps hub_ok (handle_raw_tcp h fs ip c lines)"
  unfolding handle_socket_def handle_raw_tcp_def by (intro keeps_intro keeps_list keeps_item)+

lemma keeps_on_app: "keeps P m \<Longrightarrow> keeps (\<lambda>u. P (ud_app u)) (on_app m)"
  by (auto simp: keeps_def on_app_def split: prod.splits)

lemma keeps_set_peer [keeps_intro]: "keeps (\<lambda>u. P (ud_app u)) (set_peer peer v)"
  by (simp add: keeps_def set_peer_def)

lemma udp_ok: "keeps (\<lambda>u. hub_ok (ud_app u)) (udp_datagram h f c c' peer buf)"
  unfolding udp_datagram_def handle_udp_hello_def by (intro keeps_intro keeps_on_app)

text \<open>A datagram before any hello, and one that does not parse, changes nothing.\<close>

lemma udp_before_hello:
  assumes "ud_peers u peer = None"
    and "\<And>t m. from_utf8 buf = Some t \<Longrightarrow> h_client_message h t = Some m \<Longrightarrow> \<not> is_hello m"
  shows "udp_datagram h f c c' peer buf u = (Inr (), u)"
  using assms by (auto simp: udp_datagram_def split: option.splits)

end
