(* ===== verification/Client_Threads.thy ===== *)
theory Client_Threads
  imports Web_Threads Client_Session
begin

text \<open>
  The handlers of \<open>src/client_api.rs\<close> as threads, with the steps of \<open>Web_Threads\<close>: the hello, the
  messages, the pushes that follow them, the opening and the end of a session, and a datagram.
\<close>

section \<open>The hello\<close>

definition handle_client_hello_t ::
    "host \<Rightarrow> fresh \<Rightarrow> string \<Rightarrow> client_message \<Rightarrow> conn \<Rightarrow>
     (app_state, error + (string \<times> string) option) thread" where
  "handle_client_hello_t h f peer_ip hello outbound =
     (case hello of
        Hello rid device_id device_token device_name protocol_version client_version \<Rightarrow>
          if protocol_version \<noteq> 1 then
            atomic (send outbound (Kick ''unsupported protocol version'')) (\<lambda>_. give None)
          else
            atomic (attempt (on_db (room_exists rid))) (\<lambda>known.
            if known \<noteq> Inr True then give None
            else
              then_t (attempt_t (on_db_t (upsert_device_hello_t h (fr_uuid f 0) (fr_random f 0)
                (fr_clock f 0) rid device_id device_token device_name client_version
                (Some peer_ip)))) (\<lambda>r.
              case r of
                Inl e \<Rightarrow> give None
              | Inr (i, new_token, status) \<Rightarrow>
                  atomic (send outbound (HelloAck i new_token status ''0.1.0'')) (\<lambda>_.
                  give (Some (i, status)))))
      | _ \<Rightarrow> give None)"

section \<open>Pushes that follow a message\<close>

definition push_device_config_t :: "host \<Rightarrow> fresh \<Rightarrow> string \<Rightarrow> (app_state, error + bool) thread" where
  "push_device_config_t h f device_id =
     map_err_t (push_config_to_device_t h f device_id None)
       (\<lambda>status. Bail (''push config failed: '' @ status_text status))"

definition push_current_config_if_needed_t ::
    "host \<Rightarrow> fresh \<Rightarrow> string \<Rightarrow> (app_state, error + unit) thread" where
  "push_current_config_if_needed_t h f device_id =
     atomic (reading (\<lambda>s. fetch_optional (\<lambda>r. dv_id r = device_id) (db_devices (st_db s)))) (\<lambda>row.
     case row of
       None \<Rightarrow> give ()
     | Some row \<Rightarrow>
         if dv_group_id row = None then give ()
         else
           then_t (on_db_t (device_config_t h device_id None)) (\<lambda>found.
           case found of
             None \<Rightarrow> give ()
           | Some (_, config_version, _) \<Rightarrow>
               if dv_config_version row < config_version then
                 then_t (push_device_config_t h f device_id) (\<lambda>_. give ())
               else give ()))"

definition push_if_console_config_differs_t ::
    "host \<Rightarrow> fresh \<Rightarrow> string \<Rightarrow> u32 \<Rightarrow> (app_state, error + unit) thread" where
  "push_if_console_config_differs_t h f device_id reported_version =
     then_t (on_db_t (device_config_t h device_id None)) (\<lambda>found.
     case found of
       None \<Rightarrow> give ()
     | Some (_, console_version, _) \<Rightarrow>
         if i64_as_u32 console_version \<noteq> reported_version then
           then_t (push_device_config_t h f device_id) (\<lambda>_. give ())
         else give ())"

definition sync_reported_config_state_t ::
    "host \<Rightarrow> fresh \<Rightarrow> string \<Rightarrow> u32 \<Rightarrow> string option \<Rightarrow> string option \<Rightarrow> vnt_client_config \<Rightarrow> bool \<Rightarrow>
     (app_state, error + unit) thread" where
  "sync_reported_config_state_t h f device_id config_version group_id config_name config running =
     then_t (if running
             then atomic (set_reported_version (fr_clock f 0) device_id config_version) (\<lambda>_. give ())
             else give ()) (\<lambda>_.
     atomic (reading (\<lambda>s. fetch_optional (\<lambda>r. dv_id r = device_id) (db_devices (st_db s)))) (\<lambda>row.
     case row of
       None \<Rightarrow> give ()
     | Some row \<Rightarrow>
       let rid = dv_room_id row in
       if dv_group_id row \<noteq> None then
         push_if_console_config_differs_t h (fresh_from f 1) device_id config_version
       else
         let reported = Option.bind group_id (\<lambda>v. if trim v \<noteq> [] then Some v else None) in
         atomic (reading (\<lambda>s. case reported of
             None \<Rightarrow> None
           | Some gid \<Rightarrow> if 0 < count_where (\<lambda>g. gr_id g = gid \<and> gr_room_id g = rid) (db_groups (st_db s))
                         then Some gid else None)) (\<lambda>existing.
         case existing of
           Some gid \<Rightarrow>
             then_t (on_db_t (set_device_group_t rid (Some gid) device_id)) (\<lambda>_.
             push_if_console_config_differs_t h (fresh_from f 1) device_id config_version)
         | None \<Rightarrow>
             let name = (case Option.bind config_name (\<lambda>v. if trim v \<noteq> [] then Some v else None) of
                           Some v \<Rightarrow> v | None \<Rightarrow> cached_config_name) in
             then_t (on_db_t (create_group_with_version_t h (fr_uuid f 0) (fresh_nonces f)
               (fr_clock f 1) (fr_clock f 2) rid name config (u32_as_i64 config_version))) (\<lambda>group.
             then_t (on_db_t (set_device_group_t rid (Some (grp_id group)) device_id)) (\<lambda>_.
             atomic (on_db (update_devices (\<lambda>r. dv_id r = device_id)
               (\<lambda>r. r\<lparr>dv_config_version := u32_as_i64 config_version\<rparr>))) (\<lambda>_.
             give ()))))))"

section \<open>Messages\<close>

definition handle_event_report_t ::
    "host \<Rightarrow> fresh \<Rightarrow> string \<Rightarrow> string \<Rightarrow> json \<Rightarrow> (app_state, error + unit) thread" where
  "handle_event_report_t h f device_id event_type payload =
     then_t (case traffic_from_payload event_type payload of
         Some (up_stream, down_stream) \<Rightarrow>
           stmt (on_db (update_device_traffic (fr_clock f 0) device_id up_stream down_stream))
       | None \<Rightarrow> give ()) (\<lambda>_.
     then_t (case vnts_status_from_payload event_type payload of
         Some (status, error) \<Rightarrow>
           stmt (on_db (update_device_vnts_status (fr_clock f 1) device_id status error))
       | None \<Rightarrow> give ()) (\<lambda>_.
     let event_id = fr_uuid f 0; created_at = fr_clock f 2 in
     atomic (on_db (insert_event
       \<lparr> ei_id = event_id, ei_device_id = device_id, ei_event_type = event_type,
         ei_payload = Some (h_json_text h payload), ei_created_at = created_at \<rparr>)) (\<lambda>_.
     stmt (publish (h_json_text h (event_json event_id device_id event_type payload created_at))))))"

fun handle_client_message_t ::
    "host \<Rightarrow> fresh \<Rightarrow> string \<Rightarrow> client_message \<Rightarrow> (app_state, error + unit) thread" where
  "handle_client_message_t h f device_id (EventReport event_type payload _) =
     handle_event_report_t h f device_id event_type payload"
| "handle_client_message_t h f device_id (ConfigAck config_version) =
     atomic (set_reported_version (fr_clock f 0) device_id config_version) (\<lambda>_.
     atomic (on_db (acknowledge_push device_id)) (\<lambda>_.
     give ()))"
| "handle_client_message_t h f device_id (ConfigState config_version group_id config_name config running) =
     sync_reported_config_state_t h f device_id config_version group_id config_name config running"
| "handle_client_message_t h f device_id (Heartbeat _) =
     atomic (on_db (update_devices (\<lambda>r. dv_id r = device_id)
       (\<lambda>r. r\<lparr>dv_last_seen := SInt (fr_clock f 0)\<rparr>))) (\<lambda>_.
     give ())"
| "handle_client_message_t h f device_id (Disconnect _) =
     atomic (remove_client device_id) (\<lambda>_.
     stmt (mark_device_offline device_id))"
| "handle_client_message_t h f device_id (TrafficStats up_stream down_stream _) =
     stmt (on_db (update_device_traffic (fr_clock f 0) device_id up_stream down_stream))"
| "handle_client_message_t h f device_id (Hello _ _ _ _ _ _) = give ()"

section \<open>Sessions and datagrams\<close>

definition session_open_t ::
    "host \<Rightarrow> fresh \<Rightarrow> string \<Rightarrow> client_message \<Rightarrow> conn \<Rightarrow> (app_state, error + string option) thread" where
  "session_open_t h f peer_ip hello outbound =
     then_t (handle_client_hello_t h f peer_ip hello outbound) (\<lambda>r.
     case r of
       None \<Rightarrow> give None
     | Some (i, status) \<Rightarrow>
         if status = ''kicked'' then give None
         else
           atomic (insert_client i outbound) (\<lambda>_.
           then_t (attempt_t (push_current_config_if_needed_t h (fresh_from f 1) i)) (\<lambda>_.
           give (Some i))))"

definition session_message_t ::
    "host \<Rightarrow> fresh \<Rightarrow> string \<Rightarrow> client_message \<Rightarrow> (app_state, error + unit) thread" where
  "session_message_t h f i message =
     then_t (attempt_t (handle_client_message_t h f i message)) (\<lambda>_. give ())"

definition session_close_t :: "string \<Rightarrow> (app_state, error + unit) thread" where
  "session_close_t i = atomic (remove_client i) (\<lambda>_. stmt (mark_device_offline i))"

fun session_loop_t ::
    "host \<Rightarrow> (nat \<Rightarrow> fresh) \<Rightarrow> string \<Rightarrow> nat \<Rightarrow> client_message list \<Rightarrow> (app_state, error + unit) thread" where
  "session_loop_t h fs i n [] = give ()"
| "session_loop_t h fs i n (m # ms) =
     then_t (session_message_t h (fs n) i m) (\<lambda>_. session_loop_t h fs i (n + 1) ms)"

text \<open>A session is one thread: its messages are handled one after the other.\<close>

definition handle_client_session_t ::
    "host \<Rightarrow> (nat \<Rightarrow> fresh) \<Rightarrow> string \<Rightarrow> client_message \<Rightarrow> conn \<Rightarrow> client_message list \<Rightarrow>
     (app_state, error + unit) thread" where
  "handle_client_session_t h fs peer_ip hello outbound inbound =
     then_t (session_open_t h (fs 0) peer_ip hello outbound) (\<lambda>r.
     case r of
       None \<Rightarrow> give ()
     | Some i \<Rightarrow>
         then_t (session_loop_t h fs i 1 inbound) (\<lambda>_.
         session_close_t i))"

definition on_app_t :: "(app_state, 'r) thread \<Rightarrow> (udp_state, 'r) thread" where
  "on_app_t = focus_t ud_app (\<lambda>s u. u\<lparr>ud_app := s\<rparr>)"

definition handle_udp_hello_t ::
    "host \<Rightarrow> fresh \<Rightarrow> conn \<Rightarrow> conn \<Rightarrow> sock_addr \<Rightarrow> client_message \<Rightarrow> (udp_state, error + unit) thread" where
  "handle_udp_hello_t h f c c' peer hello =
     then_t (on_app_t (handle_client_hello_t h f (fst peer) hello c)) (\<lambda>r.
     case r of
       None \<Rightarrow> give ()
     | Some (i, status) \<Rightarrow>
         if status = ''kicked'' then give ()
         else
           atomic (set_peer peer (Some i)) (\<lambda>_.
           then_t (on_app_t (stmt (insert_client i c'))) (\<lambda>_.
           then_t (on_app_t (attempt_t (push_current_config_if_needed_t h (fresh_from f 1) i))) (\<lambda>_.
           give ()))))"

definition udp_datagram_t ::
    "host \<Rightarrow> fresh \<Rightarrow> conn \<Rightarrow> conn \<Rightarrow> sock_addr \<Rightarrow> bytes \<Rightarrow> (udp_state, error + unit) thread" where
  "udp_datagram_t h f c c' peer buf =
     (case from_utf8 buf of
        None \<Rightarrow> give ()
      | Some text \<Rightarrow>
          (case h_client_message h text of
             None \<Rightarrow> give ()
           | Some message \<Rightarrow>
               if is_hello message then handle_udp_hello_t h f c c' peer message
               else
                 atomic (reading (\<lambda>u. ud_peers u peer)) (\<lambda>known.
                 case known of
                   None \<Rightarrow> give ()
                 | Some device_id \<Rightarrow>
                     then_t (on_app_t (attempt_t (handle_client_message_t h f device_id message))) (\<lambda>_.
                     if is_disconnect message then stmt (set_peer peer None) else give ()))))"

section \<open>Transports\<close>

definition handle_socket_t ::
    "host \<Rightarrow> (nat \<Rightarrow> fresh) \<Rightarrow> string \<Rightarrow> conn \<Rightarrow> ws_item list \<Rightarrow> (app_state, error + unit) thread" where
  "handle_socket_t h fs peer_ip c items =
     (case items of
        WsText first # rest \<Rightarrow>
          (case h_client_message h first of
             None \<Rightarrow> give ()
           | Some hello \<Rightarrow> handle_client_session_t h fs peer_ip hello c (ws_messages h rest))
      | _ \<Rightarrow> give ())"

definition handle_raw_tcp_t ::
    "host \<Rightarrow> (nat \<Rightarrow> fresh) \<Rightarrow> string \<Rightarrow> conn \<Rightarrow> string list \<Rightarrow> (app_state, error + unit) thread" where
  "handle_raw_tcp_t h fs peer_ip c lines =
     (case lines of
        [] \<Rightarrow> give ()
      | first # rest \<Rightarrow>
          checked (lib ''serde_json'' (h_client_message h first)) (\<lambda>hello.
          handle_client_session_t h fs peer_ip hello c (raw_messages h rest)))"

text \<open>The loop of \<open>serve_udp\<close> over the datagrams that arrive, each with its fresh values and the two
  connections it may open.\<close>

type_synonym datagram = "fresh \<times> conn \<times> conn \<times> sock_addr \<times> bytes"

fun serve_udp_t :: "host \<Rightarrow> datagram list \<Rightarrow> (udp_state, error + unit) thread" where
  "serve_udp_t h [] = give ()"
| "serve_udp_t h ((f, c, c', peer, buf) # ds) =
     then_t (udp_datagram_t h f c c' peer buf) (\<lambda>_. serve_udp_t h ds)"

section \<open>Run alone\<close>

lemma alone_attempt [simp]: "alone (attempt_t t) = attempt (alone t)"
  by (simp add: fun_eq_iff attempt_t_def alone_map attempt_def map_prod_def split: prod.splits)

lemma alone_on_app [simp]: "alone (on_app_t t) = on_app (alone t)"
  by (simp add: fun_eq_iff on_app_t_def alone_focus on_app_def)

lemma alone_sum [simp]:
  "alone (case w of Inl e \<Rightarrow> t e | Inr x \<Rightarrow> u x) = (case w of Inl e \<Rightarrow> alone (t e) | Inr x \<Rightarrow> alone (u x))"
  by (simp split: sum.split)

lemma hello_alone [simp]: "alone (handle_client_hello_t h f ip m c) = handle_client_hello h f ip m c"
  by (cases m) (simp_all add: handle_client_hello_t_def handle_client_hello_def cong: alone_cong sum.case_cong)

lemma client_pushes_alone [simp]:
  "alone (push_device_config_t h f i) = push_device_config h f i"
  "alone (push_current_config_if_needed_t h f i) = push_current_config_if_needed h f i"
  "alone (push_if_console_config_differs_t h f i v) = push_if_console_config_differs h f i v"
  by (simp_all add: push_device_config_t_def push_device_config_def push_current_config_if_needed_t_def
      push_current_config_if_needed_def push_if_console_config_differs_t_def
      push_if_console_config_differs_def cong: alone_cong)

lemma sync_alone [simp]:
  "alone (sync_reported_config_state_t h f i v g n c run) = sync_reported_config_state h f i v g n c run"
  by (simp add: sync_reported_config_state_t_def sync_reported_config_state_def Let_def cong: alone_cong)

lemma event_report_alone [simp]: "alone (handle_event_report_t h f i ty p) = handle_event_report h f i ty p"
  by (simp add: handle_event_report_t_def handle_event_report_def Let_def cong: alone_cong)

lemma message_alone [simp]: "alone (handle_client_message_t h f i m) = handle_client_message h f i m"
  by (cases m) simp_all

lemma session_alone [simp]:
  "alone (session_open_t h f ip m c) = session_open h f ip m c"
  "alone (session_message_t h f i m) = session_message h f i m"
  "alone (session_close_t i) = session_close i"
  by (simp_all add: session_open_t_def session_open_def session_message_t_def session_message_def
      session_close_t_def session_close_def cong: alone_cong)

lemma session_loop_alone [simp]: "alone (session_loop_t h fs i n ms) = session_loop h fs i n ms"
  by (induction ms arbitrary: n) simp_all

lemma client_session_alone [simp]:
  "alone (handle_client_session_t h fs ip m c ms) = handle_client_session h fs ip m c ms"
  by (simp add: handle_client_session_t_def handle_client_session_def cong: alone_cong)

lemma streams_alone:
  "alone (handle_socket_t h fs ip c items) = handle_socket h fs ip c items"
  "alone (handle_raw_tcp_t h fs ip c lines) = handle_raw_tcp h fs ip c lines"
  by (simp_all add: handle_socket_t_def handle_socket_def handle_raw_tcp_t_def handle_raw_tcp_def
      split: list.split ws_item.split option.split)

lemma datagram_alone: "alone (udp_datagram_t h f c c' peer buf) = udp_datagram h f c c' peer buf"
  by (simp add: udp_datagram_t_def udp_datagram_def handle_udp_hello_t_def handle_udp_hello_def
      cong: alone_cong)

end
