(* ===== verification/Device_Flow.thy ===== *)
theory Device_Flow
  imports Client_Session
begin

text \<open>
  How a device goes through the hub: what authenticates its hello, how a new configuration
  reaches it when it connects and that an acknowledged one is not pushed again, what its
  reports change, and that kicking it lasts.
\<close>

section \<open>Hello\<close>

lemma hello_result:
  assumes ok: "db_ok (st_db s)" and res: "handle_client_hello h f ip m c s = (Inr (Some (i, status)), s')"
  shows "\<exists>rid did tok name cv. m = Hello rid did tok name 1 cv \<and> rid \<in> room_ids (st_db s) \<and>
    ((\<exists>r. did = Some i \<and> tok = Some (dv_device_token r) \<and>
        row_by dv_id i (db_devices (st_db s)) = Some r \<and> dv_room_id r = rid \<and> status = dv_status r \<and>
        s' = s\<lparr>st_db := (st_db s)\<lparr>db_devices := update_where (\<lambda>r. dv_id r = i)
               (hello_update name cv (Some ip) (fr_clock f 0)) (db_devices (st_db s))\<rparr>,
               st_sent := st_sent s @ [(c, HelloAck i None status ''0.1.0'')]\<rparr>) \<or>
     ((did = None \<or> tok = None) \<and> i = fr_uuid f 0 \<and> i \<notin> device_ids (st_db s) \<and> status = ''pending'' \<and>
        s' = s\<lparr>st_db := (st_db s)\<lparr>db_devices := db_devices (st_db s) @
               [new_device i rid name cv (Some ip) (random_base64 h (take 32 (fr_random f 0)))
                 (fr_clock f 0)]\<rparr>,
               st_sent := st_sent s @ [(c, HelloAck i
                 (Some (random_base64 h (take 32 (fr_random f 0)))) status ''0.1.0'')]\<rparr>))"
proof (cases m)
  case (Hello rid did tok name pv cv)
  show ?thesis
  proof (cases "did = None \<or> tok = None")
    case True
    with res Hello show ?thesis
      by (auto simp: handle_client_hello_def attempt_def on_db_def andthen_def room_exists_eq send_def
          upsert_new insert_device_def Let_def new_device_def split: if_splits sum.splits prod.splits)
  next
    case False
    then obtain a b where "did = Some a" "tok = Some b"
      by auto
    with res Hello show ?thesis
      by (auto simp: handle_client_hello_def attempt_def on_db_def andthen_def room_exists_eq send_def
          upsert_known [OF ok] split: if_splits sum.splits prod.splits option.splits)
  qed
qed (use res in \<open>simp_all add: handle_client_hello_def\<close>)

lemma hello_known:
  assumes ok: "db_ok (st_db s)" and res: "handle_client_hello h f ip m c s = (Inr (Some (i, status)), s')"
    and known: "i \<in> device_ids (st_db s)"
  shows "\<exists>name cv. st_db s' = (st_db s)\<lparr>db_devices := update_where (\<lambda>r. dv_id r = i)
    (hello_update name cv (Some ip) (fr_clock f 0)) (db_devices (st_db s))\<rparr>"
proof -
  obtain name cv where "s' = s\<lparr>st_db := (st_db s)\<lparr>db_devices := update_where (\<lambda>r. dv_id r = i)
      (hello_update name cv (Some ip) (fr_clock f 0)) (db_devices (st_db s))\<rparr>,
      st_sent := st_sent s @ [(c, HelloAck i None status ''0.1.0'')]\<rparr>"
    using hello_result [OF ok res] known by metis
  then have "st_db s' = (st_db s)\<lparr>db_devices := update_where (\<lambda>r. dv_id r = i)
      (hello_update name cv (Some ip) (fr_clock f 0)) (db_devices (st_db s))\<rparr>"
    by simp
  then show ?thesis by blast
qed

section \<open>Pushing the current configuration\<close>

lemma push_eq:
  assumes "device_config h i ov (st_db s) = (Inr (Some (gid, v, c)), st_db s)"
    and "row_by dv_id i (db_devices (st_db s)) = Some r"
    and "encrypt_parts h (fr_random f 0) (device_push_key_material i (dv_device_token r))
      (device_push_context i (i64_as_u32 v))
      (h_json_text h (push_payload h i gid (Option.bind gid (\<lambda>k. map_option gr_name
         (row_by gr_id k (db_groups (st_db s))))) v c)) = Inr (ct, n)"
    and "fr_uuid f 0 \<notin> pu_id ` set (db_pushes (st_db s))"
  shows "push_config_to_device h f i ov s = (Inr (st_clients s i \<noteq> None),
    deliver i (ConfigPush (i64_as_u32 v) ct n) (s\<lparr>st_db := (st_db s)\<lparr>db_pushes :=
      db_pushes (st_db s) @ [push_row_of f i gid ct]\<rparr>\<rparr>))"
proof -
  have "i \<in> device_ids (st_db s)"
    using assms(2) by (auto dest: row_by_Some)
  then have "\<not> dangling (st_db s) (device_ids (st_db s)) i"
    by (simp add: dangling_def)
  with assms show ?thesis
    by (auto simp: push_config_to_device_def andthen_def db_or_eq Let_def map_err_def insert_push_def
        get_client_def send_def deliver_def push_row_of_def row_by_def fetch_optional_def
        split: option.splits)
qed

text \<open>A device in a group whose configuration can be decrypted, and its version.\<close>

definition grouped :: "host \<Rightarrow> database \<Rightarrow> string \<Rightarrow> string \<Rightarrow> i64 \<Rightarrow> bool" where
  "grouped h d i k v \<longleftrightarrow>
     (\<exists>r g c. row_by dv_id i (db_devices d) = Some r \<and> dv_group_id r = Some k \<and>
        row_by gr_id k (db_groups d) = Some g \<and> decrypt_row h g = Inr c \<and> gr_config_version g = v)"

lemma grouped_config:
  "grouped h d i k v \<Longrightarrow> \<exists>c. device_config h i None d = (Inr (Some (Some k, v, c)), d)"
  by (auto simp: grouped_def device_config_grouped)

lemma push_current_skips:
  assumes "grouped h (st_db s) i k v" and "row_by dv_id i (db_devices (st_db s)) = Some r"
    and "v \<le> dv_config_version r"
  shows "push_current_config_if_needed h f i s = (Inr (), s)"
  using grouped_config [OF assms(1)] assms(1-3)
  by (auto simp: push_current_config_if_needed_def fetch_optional_key on_db_def andthen_def grouped_def)

lemma push_current_pushes:
  assumes "grouped h (st_db s) i k v" and "row_by dv_id i (db_devices (st_db s)) = Some r"
    and "dv_config_version r < v" and "fr_uuid f 0 \<notin> pu_id ` set (db_pushes (st_db s))"
    and "\<And>x. \<exists>y. encrypt_parts h (fr_random f 0) (device_push_key_material i (dv_device_token r))
      (device_push_context i (i64_as_u32 v)) x = Inr y"
    and "st_clients s i = Some c"
  shows "\<exists>ct n s'. push_current_config_if_needed h f i s = (Inr (), s') \<and>
    st_sent s' = st_sent s @ [(c, ConfigPush (i64_as_u32 v) ct n)]"
proof -
  obtain cfg where cfg: "device_config h i None (st_db s) = (Inr (Some (Some k, v, cfg)), st_db s)"
    using grouped_config [OF assms(1)] by blast
  obtain ct n where "encrypt_parts h (fr_random f 0) (device_push_key_material i (dv_device_token r))
      (device_push_context i (i64_as_u32 v))
      (h_json_text h (push_payload h i (Some k) (Option.bind (Some k) (\<lambda>k. map_option gr_name
         (row_by gr_id k (db_groups (st_db s))))) v cfg)) = Inr (ct, n)"
    using assms(5) by (metis surj_pair)
  from push_eq [OF cfg assms(2) this assms(4)]
  have "push_config_to_device h f i None s = (Inr True,
      deliver i (ConfigPush (i64_as_u32 v) ct n) (s\<lparr>st_db := (st_db s)\<lparr>db_pushes :=
        db_pushes (st_db s) @ [push_row_of f i (Some k) ct]\<rparr>\<rparr>))"
    by (simp add: assms(6))
  moreover have "dv_group_id r \<noteq> None"
    using assms(1,2) by (auto simp: grouped_def)
  ultimately show ?thesis
    using cfg assms(2,3,6)
    by (auto simp: push_current_config_if_needed_def fetch_optional_key on_db_def andthen_def
        push_device_config_def map_err_def deliver_def)
qed

lemma grouped_update:
  assumes "grouped h d i k v" and "\<And>r. dv_id (g r) = dv_id r" "\<And>r. dv_group_id (g r) = dv_group_id r"
    and "db_groups d' = db_groups d" "db_devices d' = update_where P g (db_devices d)"
  shows "grouped h d' i k v"
proof -
  obtain r where r: "row_by dv_id i (db_devices d) = Some r" "dv_group_id r = Some k"
    using assms(1) by (auto simp: grouped_def)
  then have "row_by dv_id i (db_devices d') = Some (if P r then g r else r)"
    by (simp add: assms(2,5) row_by_update_where)
  moreover have "dv_group_id (if P r then g r else r) = Some k"
    by (simp add: assms(3) r(2))
  ultimately show ?thesis
    using assms(1,4) r unfolding grouped_def by metis
qed

section \<open>Acknowledgement\<close>

lemma ack_result:
  "handle_client_message h f i (ConfigAck w) s = (Inr (), s\<lparr>st_db := (st_db s)\<lparr>
     db_devices := update_where (\<lambda>r. dv_id r = i)
       (\<lambda>r. r\<lparr>dv_config_version := u32_as_i64 w, dv_last_seen := SInt (fr_clock f 0),
              dv_status := online_unless_kicked (dv_status r)\<rparr>) (db_devices (st_db s)),
     db_pushes := update_where (\<lambda>p. Some (pu_id p) = newest_unacked i (st_db s))
       (\<lambda>p. p\<lparr>pu_acked := 1\<rparr>) (db_pushes (st_db s))\<rparr>\<rparr>)"
  by (simp add: set_reported_version_def acknowledge_push_def on_db_def andthen_def update_devices_def
      update_pushes_def newest_unacked_def)

lemma acked_grouped:
  assumes "grouped h (st_db s) i k v" "handle_client_message h f i (ConfigAck w) s = (Inr (), s')"
  shows "grouped h (st_db s') i k v"
    and "\<exists>r. row_by dv_id i (db_devices (st_db s')) = Some r \<and> dv_config_version r = u32_as_i64 w"
proof -
  let ?g = "\<lambda>r. r\<lparr>dv_config_version := u32_as_i64 w, dv_last_seen := SInt (fr_clock f 0),
    dv_status := online_unless_kicked (dv_status r)\<rparr>"
  have devs: "db_devices (st_db s') = update_where (\<lambda>r. dv_id r = i) ?g (db_devices (st_db s))"
      and groups: "db_groups (st_db s') = db_groups (st_db s)"
    using assms(2) by (auto simp: ack_result simp del: handle_client_message.simps)
  show "grouped h (st_db s') i k v"
    by (rule grouped_update [OF assms(1) _ _ groups devs]) simp_all
  show "\<exists>r. row_by dv_id i (db_devices (st_db s')) = Some r \<and> dv_config_version r = u32_as_i64 w"
  proof -
    obtain r where r: "row_by dv_id i (db_devices (st_db s)) = Some r"
      using assms(1) by (auto simp: grouped_def)
    then have "row_by dv_id i (db_devices (st_db s')) = Some (?g r)"
      by (simp add: devs row_by_update_where row_by_Some)
    then show ?thesis by simp
  qed
qed

section \<open>Kicked devices\<close>

abbreviation kicked :: "string \<Rightarrow> app_state \<Rightarrow> bool" where
  "kicked i s \<equiv> is_kicked i (db_devices (st_db s))"

lemma kicked_db [keeps_intro]:
  "keeps (\<lambda>d. is_kicked i (db_devices d)) (upsert_device_hello h u b t rid di dt n v ip)"
  "keeps (\<lambda>d. is_kicked i (db_devices d)) (update_device_traffic t j x y)"
  "keeps (\<lambda>d. is_kicked i (db_devices d)) (update_device_vnts_status t j st e)"
  "keeps (\<lambda>d. is_kicked i (db_devices d)) (acknowledge_push j)"
  "keeps (\<lambda>d. is_kicked i (db_devices d)) (set_device_group rid g j)"
  "keeps (\<lambda>d. is_kicked i (db_devices d)) (create_group_with_version h u' ns t t' rid n' c' v')"
  "keeps (\<lambda>d. is_kicked i (db_devices d)) (insert_event e')"
  "keeps (\<lambda>d. is_kicked i (db_devices d)) (insert_push p')"
  unfolding upsert_device_hello_def update_device_traffic_def update_device_vnts_status_def
    acknowledge_push_def set_device_group_def create_group_with_version_def create_group_def Let_def
  by (intro keeps_intro frame_intro update_devices_kicked; simp)+

lemma kicked_ops [keeps_intro]:
  "keeps (kicked i) (push_config_to_device h f j g)" "keeps (kicked i) (mark_device_offline j)"
  "keeps (kicked i) (set_reported_version t j w)"
  unfolding push_config_to_device_def mark_device_offline_def set_reported_version_def Let_def
  by (intro keeps_intro keeps_db update_devices_kicked; simp)+

lemma kicked_client [keeps_intro]:
  "keeps (kicked i) (push_device_config h f j)" "keeps (kicked i) (push_current_config_if_needed h f j)"
  "keeps (kicked i) (push_if_console_config_differs h f j v)"
  "keeps (kicked i) (handle_event_report h f j ty p)"
  unfolding push_device_config_def push_current_config_if_needed_def push_if_console_config_differs_def
    handle_event_report_def Let_def
  by (intro keeps_intro keeps_db)+

lemma kicked_sync [keeps_intro]: "keeps (kicked i) (sync_reported_config_state h f j v g n c run)"
  unfolding sync_reported_config_state_def Let_def
  by (intro keeps_intro keeps_db update_devices_kicked; simp)

lemma kicked_message [keeps_intro]: "keeps (kicked i) (handle_client_message h f j m)"
  by (cases m; simp only: handle_client_message.simps;
      intro keeps_intro keeps_db update_devices_kicked; simp)

lemma kicked_hello [keeps_intro]: "keeps (kicked i) (handle_client_hello h f ip m c)"
  unfolding handle_client_hello_def
  by (cases m; simp only: client_message.case; intro keeps_intro keeps_db)

lemma kicked_session:
  "keeps (kicked i) (session_open h f ip m c)" "keeps (kicked i) (session_message h f j m)"
  "keeps (kicked i) (session_close j)"
  unfolding session_open_def session_message_def session_close_def by (intro keeps_intro)+

lemma kicked_udp: "keeps (\<lambda>u. kicked i (ud_app u)) (udp_datagram h f c c' peer buf)"
  unfolding udp_datagram_def handle_udp_hello_def
  by (intro keeps_intro keeps_on_app keeps_set_peer)

text \<open>A kicked device gets no session.\<close>

lemma session_open_Some:
  assumes "session_open h f ip m c s = (Inr (Some i), s')"
  shows "\<exists>status s1 r. handle_client_hello h f ip m c s = (Inr (Some (i, status)), s1) \<and>
    status \<noteq> ''kicked'' \<and>
    push_current_config_if_needed h (fresh_from f 1) i
      (s1\<lparr>st_clients := (st_clients s1)(i := Some c)\<rparr>) = (r, s')"
  using assms
  by (auto simp: session_open_def andthen_def insert_client_def attempt_def
      split: prod.splits sum.splits option.splits if_splits)

lemma hello_of_kicked:
  assumes ok: "db_ok (st_db s)" and k: "kicked i s"
    and hello: "handle_client_hello h f ip m c s = (Inr (Some (i, status)), s1)"
  shows "status = ''kicked''"
proof -
  obtain x where x: "x \<in> set (db_devices (st_db s))" "dv_id x = i" "dv_status x = ''kicked''"
    using k by (auto simp: is_kicked_def)
  then have "i \<in> device_ids (st_db s)"
    by (metis image_eqI)
  then obtain r where r: "row_by dv_id i (db_devices (st_db s)) = Some r" "status = dv_status r"
    using hello_result [OF ok hello] by metis
  have "r = x"
    using row_by_Some [OF r(1)] devices_t.row_unique [OF ok _ x(1)] x(2) by simp
  with r(2) x(3) show ?thesis
    by simp
qed

lemma kicked_no_session:
  assumes "db_ok (st_db s)" and "kicked i s"
  shows "fst (session_open h f ip m c s) \<noteq> Inr (Some i)"
proof
  assume "fst (session_open h f ip m c s) = Inr (Some i)"
  then obtain s' where "session_open h f ip m c s = (Inr (Some i), s')"
    by (metis prod.collapse)
  from session_open_Some [OF this] hello_of_kicked [OF assms] show False
    by blast
qed

section \<open>The channel of a kicked device\<close>

text \<open>Nothing is registered for \<open>i\<close>: its channel is the one it had, or gone.\<close>

abbreviation unopened :: "string \<Rightarrow> conn option \<Rightarrow> app_state \<Rightarrow> bool" where
  "unopened i x s \<equiv> st_clients s i = x \<or> st_clients s i = None"

lemma unopened_parts:
  "keeps (unopened i x) (on_db m)" "keeps (unopened i x) (db_or e m)"
  "keeps (unopened i x) (send k w)" "keeps (unopened i x) (get_client n)"
  "keeps (unopened i x) (publish t)" "keeps (unopened i x) (remove_client n)"
  "n \<noteq> i \<Longrightarrow> keeps (unopened i x) (insert_client n c)"
  by (auto simp: keeps_def on_db_def db_or_def map_err_def send_def get_client_def publish_def
      remove_client_def insert_client_def split: prod.splits sum.splits)

lemma unopened_pushes:
  "keeps (unopened i x) (push_config_to_device h f j g)" "keeps (unopened i x) (push_device_config h f j)"
  "keeps (unopened i x) (push_current_config_if_needed h f j)"
  "keeps (unopened i x) (push_if_console_config_differs h f j v)"
  unfolding push_current_config_if_needed_def push_if_console_config_differs_def push_device_config_def
    push_config_to_device_def Let_def
  by (intro keeps_intro unopened_parts)+

lemma unopened_message: "keeps (unopened i x) (handle_client_message h f j m)"
proof -
  have "keeps (unopened i x) (set_reported_version t j v)" "keeps (unopened i x) (mark_device_offline j)" for t v
    unfolding set_reported_version_def mark_device_offline_def by (intro keeps_intro unopened_parts)+
  moreover from this have "keeps (unopened i x) (sync_reported_config_state h f j v g n c b)" for v g n c b
    unfolding sync_reported_config_state_def Let_def by (intro keeps_intro unopened_parts unopened_pushes)
  moreover have "keeps (unopened i x) (handle_event_report h f j ty p)" for ty p
    unfolding handle_event_report_def Let_def by (intro keeps_intro unopened_parts)
  ultimately show ?thesis
    by (cases m; simp only: handle_client_message.simps; intro keeps_intro unopened_parts)
qed

lemma unopened_hello: "keeps (unopened i x) (handle_client_hello h f ip m c)"
  unfolding handle_client_hello_def
  by (cases m; simp only: client_message.case; intro keeps_intro unopened_parts)

lemma unopened_session:
  assumes "db_ok (st_db s)" and "kicked i s"
  shows "unopened i (st_clients s i) (snd (session_open h f ip m c s))"
proof (cases "handle_client_hello h f ip m c s")
  case (Pair r s1)
  let ?K = "unopened i (st_clients s i)"
  have s1: "?K s1"
    using keepsD [OF unopened_hello Pair] by simp
  show ?thesis
  proof (cases "\<exists>j status. r = Inr (Some (j, status)) \<and> status \<noteq> ''kicked''")
    case True
    then obtain j status where j: "r = Inr (Some (j, status))" "status \<noteq> ''kicked''"
      by blast
    then have "j \<noteq> i"
      using hello_of_kicked [OF assms] Pair by blast
    then have "keeps ?K (andthen (insert_client j c) (\<lambda>_.
        andthen (attempt (push_current_config_if_needed h (fresh_from f 1) j)) (\<lambda>_. ret (Some j))))"
      by (intro keeps_intro unopened_parts unopened_pushes)
    from keeps_snd [OF this s1] j show ?thesis
      by (simp add: session_open_def andthen_def Pair)
  qed (use s1 in \<open>auto simp: session_open_def andthen_def Pair split: sum.splits option.splits\<close>)
qed

text \<open>The same for the datagrams, and no address is taken for the device that was not.\<close>

abbreviation udp_unopened :: "string \<Rightarrow> udp_state \<Rightarrow> udp_state \<Rightarrow> bool" where
  "udp_unopened i u u' \<equiv> unopened i (st_clients (ud_app u) i) (ud_app u') \<and>
     (\<forall>p. ud_peers u' p = Some i \<longrightarrow> ud_peers u p = Some i)"

lemma udp_unopened_parts:
  "keeps (unopened i (st_clients (ud_app u) i)) m \<Longrightarrow> keeps (udp_unopened i u) (on_app m)"
  "v \<noteq> Some i \<Longrightarrow> keeps (udp_unopened i u) (set_peer p v)"
proof -
  assume m: "keeps (unopened i (st_clients (ud_app u) i)) m"
  show "keeps (udp_unopened i u) (on_app m)"
    using keeps_snd [OF m] by (simp add: keeps_def on_app_def split: prod.splits) (metis snd_conv)
qed (auto simp: keeps_def set_peer_def)

lemma unopened_udp_hello:
  assumes "db_ok (st_db (ud_app u))" and "kicked i (ud_app u)"
  shows "udp_unopened i u (snd (handle_udp_hello h f c c' peer m u))"
proof (cases "handle_client_hello h f (fst peer) m c (ud_app u)")
  case (Pair r s1)
  have u1: "udp_unopened i u (u\<lparr>ud_app := s1\<rparr>)"
    using keepsD [OF unopened_hello Pair, of i "st_clients (ud_app u) i"] by simp
  show ?thesis
  proof (cases "\<exists>j status. r = Inr (Some (j, status)) \<and> status \<noteq> ''kicked''")
    case True
    then obtain j status where j: "r = Inr (Some (j, status))" "status \<noteq> ''kicked''"
      by blast
    then have "j \<noteq> i"
      using hello_of_kicked [OF assms] Pair by blast
    then have "keeps (udp_unopened i u) (andthen (set_peer peer (Some j)) (\<lambda>_.
        andthen (on_app (insert_client j c')) (\<lambda>_.
        andthen (on_app (attempt (push_current_config_if_needed h (fresh_from f 1) j))) (\<lambda>_. ret ()))))"
      by (intro udp_unopened_parts keeps_andthen keeps_attempt keeps_basic unopened_parts unopened_pushes; simp)
    from keeps_snd [OF this u1] j show ?thesis
      by (simp add: handle_udp_hello_def andthen_def on_app_def Pair)
  next
    case False
    then have "snd (handle_udp_hello h f c c' peer m u) = u\<lparr>ud_app := s1\<rparr>"
      by (auto simp: handle_udp_hello_def andthen_def on_app_def Pair split: sum.splits option.splits)
    with u1 show ?thesis
      by simp
  qed
qed

lemma unopened_udp_message:
  "keeps (udp_unopened i u) (andthen (reading (\<lambda>u. ud_peers u peer)) (\<lambda>known. case known of
      None \<Rightarrow> ret ()
    | Some j \<Rightarrow> andthen (on_app (attempt (handle_client_message h f j m))) (\<lambda>_.
        if is_disconnect m then set_peer peer None else ret ())))"
  by (intro udp_unopened_parts keeps_andthen keeps_attempt keeps_basic keeps_if keeps_option unopened_message; simp)

lemma unopened_datagram:
  assumes "db_ok (st_db (ud_app u))" and "kicked i (ud_app u)"
  shows "udp_unopened i u (snd (udp_datagram h f c c' peer buf u))"
proof (cases "Option.bind (from_utf8 buf) (h_client_message h)")
  case None
  then have "snd (udp_datagram h f c c' peer buf u) = u"
    by (auto simp: udp_datagram_def split: option.split)
  then show ?thesis
    by simp
next
  case (Some m)
  then have step: "udp_datagram h f c c' peer buf = (if is_hello m then handle_udp_hello h f c c' peer m
      else andthen (reading (\<lambda>u. ud_peers u peer)) (\<lambda>known. case known of
        None \<Rightarrow> ret ()
      | Some j \<Rightarrow> andthen (on_app (attempt (handle_client_message h f j m))) (\<lambda>_.
          if is_disconnect m then set_peer peer None else ret ())))"
    by (auto simp: udp_datagram_def split: option.splits)
  show ?thesis
  proof (cases "is_hello m")
    case True
    show ?thesis
      unfolding step if_P [OF True] by (rule unopened_udp_hello [OF assms])
  next
    case False
    show ?thesis
      unfolding step if_not_P [OF False] by (rule keeps_snd [OF unopened_udp_message]) simp
  qed
qed

section \<open>A new token\<close>

lemma regenerate_result:
  "api_regenerate_device_token h f user rid i s = (Inr token, s') \<Longrightarrow>
     token = random_base64 h (take 32 (fr_random f 0)) \<and> rid \<in> room_ids (st_db s) \<and>
     s' = s\<lparr>st_clients := (st_clients s)(i := None), st_db := (st_db s)\<lparr>db_devices :=
       update_where (\<lambda>x. dv_id x = i \<and> dv_room_id x = rid) (\<lambda>x. x\<lparr>dv_device_token := token\<rparr>)
         (db_devices (st_db s))\<rparr>\<rparr>"
  by (auto simp: api_regenerate_device_token_def ensure_room_access_eq access_error_def andthen_def db_or_eq
      regenerate_device_token_def update_devices_def remove_client_def Let_def split: if_splits)

lemma update_in_room:
  assumes "db_ok d" "row_by dv_id i (db_devices d) = Some r"
  shows "update_where (\<lambda>x. dv_id x = i \<and> dv_room_id x = rid) g (db_devices d) =
    (if dv_room_id r = rid then update_where (\<lambda>x. dv_id x = i) g (db_devices d) else db_devices d)"
proof -
  have "x = r" if "x \<in> set (db_devices d)" "dv_id x = i" for x
    using devices_t.row_unique [OF assms(1) that(1)] row_by_Some [OF assms(2)] that(2) by simp
  then have "dv_id x = i \<and> dv_room_id x = rid \<longleftrightarrow> dv_id x = i \<and> dv_room_id r = rid"
    if "x \<in> set (db_devices d)" for x
    using that by blast
  then have same: "update_where (\<lambda>x. dv_id x = i \<and> dv_room_id x = rid) g (db_devices d) =
      update_where (\<lambda>x. dv_id x = i \<and> dv_room_id r = rid) g (db_devices d)"
    unfolding update_where_def by (intro map_cong) simp_all
  show ?thesis
    unfolding same by (simp add: update_where_def)
qed

lemma hello_of_row:
  assumes "db_ok (st_db s)" "row_by dv_id i (db_devices (st_db s)) = Some r"
  shows "tok \<noteq> dv_device_token r \<Longrightarrow>
      handle_client_hello h f ip (Hello rid (Some i) (Some tok) name 1 cv) c s = (Inr None, s)"
    and "dv_room_id r \<in> room_ids (st_db s) \<Longrightarrow>
      \<exists>s'. handle_client_hello h f ip (Hello (dv_room_id r) (Some i) (Some (dv_device_token r)) name 1 cv) c s =
        (Inr (Some (i, dv_status r)), s')"
  using upsert_known [OF assms(1)] assms(2)
  by (auto simp: handle_client_hello_def attempt_def on_db_def andthen_def room_exists_eq send_def)

section \<open>A configuration reported by a device without a group\<close>

text \<open>The group that a reported state names, when it is a group of the room.\<close>

definition reported_group :: "database \<Rightarrow> string \<Rightarrow> string option \<Rightarrow> string option" where
  "reported_group d rid group_id =
     (case Option.bind group_id (\<lambda>v. if trim v \<noteq> [] then Some v else None) of
        None \<Rightarrow> None
      | Some gid \<Rightarrow> if \<exists>g \<in> set (db_groups d). gr_id g = gid \<and> gr_room_id g = rid
                    then Some gid else None)"

lemma set_group_result:
  assumes "set_device_group rid (Some k) i d = (Inr (), d')" "row_by dv_id i (db_devices d) = Some r"
    "dv_room_id r = rid"
  shows "row_by dv_id i (db_devices d') = Some (r\<lparr>dv_group_id := Some k\<rparr>) \<and> db_groups d' = db_groups d"
proof -
  have "dv_id r = i"
    using assms(2) by (simp add: row_by_Some)
  then show ?thesis
    using assms by (auto simp: set_device_group_eq row_by_update_where split: if_splits)
qed

lemma adopt_tail:
  assumes run: "andthen (on_db (create_group_with_version h u ns t t' rid name c (u32_as_i64 w))) (\<lambda>group.
      andthen (on_db (set_device_group rid (Some (grp_id group)) i)) (\<lambda>_.
      andthen (on_db (update_devices (\<lambda>r. dv_id r = i)
        (\<lambda>r. r\<lparr>dv_config_version := u32_as_i64 w\<rparr>))) (\<lambda>_. ret ()))) s = (Inr (), s')"
    and row: "row_by dv_id i (db_devices (st_db s)) = Some r" "dv_room_id r = rid"
    and laws: "cipher_laws h" "nonces_ok ns" "config_storable h c"
  shows "row_by dv_id i (db_devices (st_db s')) =
      Some (r\<lparr>dv_group_id := Some u, dv_config_version := u32_as_i64 w\<rparr>) \<and>
    (\<exists>g. row_by gr_id u (db_groups (st_db s')) = Some g \<and> gr_room_id g = rid \<and> gr_name g = name \<and>
       gr_config_version g = max (u32_as_i64 w) 1 \<and> decrypt_row h g = Inr (Some c))"
proof -
  obtain grp d1 d2 where
    1: "create_group_with_version h u ns t t' rid name c (u32_as_i64 w) (st_db s) = (Inr grp, d1)"
    and 2: "set_device_group rid (Some (grp_id grp)) i d1 = (Inr (), d2)"
    and 3: "st_db s' = d2\<lparr>db_devices := update_where (\<lambda>r. dv_id r = i)
      (\<lambda>r. r\<lparr>dv_config_version := u32_as_i64 w\<rparr>) (db_devices d2)\<rparr>"
    using run
    by (auto simp: andthen_def on_db_def update_devices_def split: prod.splits sum.splits)
  obtain g where d1: "d1 = (st_db s)\<lparr>db_groups := db_groups (st_db s) @ [g]\<rparr>"
      and g: "gr_id g = u" "gr_room_id g = rid" "gr_name g = name"
        "gr_config_version g = max (u32_as_i64 w) 1" "grp_id grp = u" "u \<notin> group_ids (st_db s)"
      and holds: "\<exists>et es ep ec. row_holds h ns u c et es ep ec \<and> gr_encrypted_token g = Some et \<and>
        gr_encrypted_server g = Some es \<and> gr_encrypted_password g = ep \<and> gr_extra_config g = Some ec"
    using create_group_with_version_Inr [OF 1] by blast
  have "decrypt_row h g = Inr (Some c)"
    using decrypt_row_holds [OF laws] holds g(1) by (auto simp: decrypt_row_def)
  moreover have "row_by gr_id u (db_groups d1) = Some g"
  proof -
    have "row_by gr_id u (db_groups (st_db s)) = None"
      using g(6) by (auto simp: row_by_None)
    then show ?thesis
      using g(1) by (simp add: d1 row_by_append)
  qed
  moreover have "row_by dv_id i (db_devices d2) = Some (r\<lparr>dv_group_id := Some u\<rparr>) \<and>
      db_groups d2 = db_groups d1"
    using set_group_result [OF 2] row g(5) by (simp add: d1)
  moreover have "dv_id r = i"
    using row(1) by (simp add: row_by_Some)
  ultimately show ?thesis
    using g(2-4) by (simp add: 3 row_by_update_where)
qed

lemma sync_adopts:
  assumes run: "sync_reported_config_state h f i w gid name c running s = (Inr (), s')"
    and row: "row_by dv_id i (db_devices (st_db s)) = Some r" "dv_group_id r = None"
    and none: "reported_group (st_db s) (dv_room_id r) gid = None"
    and laws: "cipher_laws h" "nonces_ok (fresh_nonces f)" "config_storable h c"
  shows "\<exists>r' g. row_by dv_id i (db_devices (st_db s')) = Some r' \<and> dv_group_id r' = Some (fr_uuid f 0) \<and>
    dv_config_version r' = u32_as_i64 w \<and>
    row_by gr_id (fr_uuid f 0) (db_groups (st_db s')) = Some g \<and> gr_room_id g = dv_room_id r \<and>
    gr_config_version g = max (u32_as_i64 w) 1 \<and> decrypt_row h g = Inr (Some c)"
proof -
  let ?up = "\<lambda>r. r\<lparr>dv_config_version := u32_as_i64 w, dv_last_seen := SInt (fr_clock f 0),
    dv_status := online_unless_kicked (dv_status r)\<rparr>"
  let ?name = "case Option.bind name (\<lambda>v. if trim v \<noteq> [] then Some v else None) of
    Some v \<Rightarrow> v | None \<Rightarrow> cached_config_name"
  have "dv_id r = i"
    using row(1) by (simp add: row_by_Some)
  define s1 where "s1 = (if running then s\<lparr>st_db := (st_db s)\<lparr>db_devices :=
    update_where (\<lambda>r. dv_id r = i) ?up (db_devices (st_db s))\<rparr>\<rparr> else s)"
  define r1 where "r1 = (if running then ?up r else r)"
  have r1: "row_by dv_id i (db_devices (st_db s1)) = Some r1" "dv_room_id r1 = dv_room_id r"
      "dv_group_id r1 = None" "db_groups (st_db s1) = db_groups (st_db s)"
    using row \<open>dv_id r = i\<close> by (simp_all add: s1_def r1_def row_by_update_where)
  have first: "andthen (if running then andthen (set_reported_version (fr_clock f 0) i w) (\<lambda>_. ret ())
      else ret ()) k s = k () s1" for k :: "unit \<Rightarrow> (error, unit) app_op"
    by (simp add: s1_def set_reported_version_def on_db_def andthen_def update_devices_def)
  have "andthen (on_db (create_group_with_version h (fr_uuid f 0) (fresh_nonces f) (fr_clock f 1)
      (fr_clock f 2) (dv_room_id r1) ?name c (u32_as_i64 w))) (\<lambda>group.
      andthen (on_db (set_device_group (dv_room_id r1) (Some (grp_id group)) i)) (\<lambda>_.
      andthen (on_db (update_devices (\<lambda>r. dv_id r = i)
        (\<lambda>r. r\<lparr>dv_config_version := u32_as_i64 w\<rparr>))) (\<lambda>_. ret ()))) s1 = (Inr (), s')"
    using run none r1
    by (auto simp: sync_reported_config_state_def first fetch_optional_key
        Let_def reported_group_def count_where_pos split: option.splits if_splits)
  from adopt_tail [OF this r1(1) refl laws] show ?thesis
    using r1(2) by fastforce
qed

section \<open>Reported events\<close>

definition report_update :: "fresh \<Rightarrow> string \<Rightarrow> string \<Rightarrow> json \<Rightarrow> (error, unit) app_op" where
  "report_update f i ty p = andthen (case traffic_from_payload ty p of
         Some (up_stream, down_stream) \<Rightarrow> on_db (update_device_traffic (fr_clock f 0) i up_stream down_stream)
       | None \<Rightarrow> ret ()) (\<lambda>_. case vnts_status_from_payload ty p of
         Some (status, error) \<Rightarrow> on_db (update_device_vnts_status (fr_clock f 1) i status error)
       | None \<Rightarrow> ret ())"

text \<open>What precedes the insertion of an event changes columns of the device only.\<close>

lemma report_update_frame:
  "fst (report_update f i ty p s) = Inr ()"
  "db_events (st_db (snd (report_update f i ty p s))) = db_events (st_db s)"
  "st_events (snd (report_update f i ty p s)) = st_events s"
  "device_ids (st_db (snd (report_update f i ty p s))) = device_ids (st_db s)"
  by (auto simp: report_update_def andthen_def on_db_def update_device_traffic_def
      update_device_vnts_status_def update_devices_def image_key_update_where split: option.splits prod.splits)

lemma event_report_eq:
  "handle_client_message h f i (EventReport ty p t) s =
     andthen (on_db (insert_event \<lparr> ei_id = fr_uuid f 0, ei_device_id = i, ei_event_type = ty,
        ei_payload = Some (h_json_text h p), ei_created_at = fr_clock f 2 \<rparr>)) (\<lambda>_.
     publish (h_json_text h (event_json (fr_uuid f 0) i ty p (fr_clock f 2))))
     (snd (report_update f i ty p s))"
proof -
  have "handle_client_message h f i (EventReport ty p t) s =
      andthen (report_update f i ty p) (\<lambda>_. andthen (on_db (insert_event \<lparr> ei_id = fr_uuid f 0,
        ei_device_id = i, ei_event_type = ty, ei_payload = Some (h_json_text h p),
        ei_created_at = fr_clock f 2 \<rparr>)) (\<lambda>_.
      publish (h_json_text h (event_json (fr_uuid f 0) i ty p (fr_clock f 2))))) s"
    by (simp add: handle_event_report_def report_update_def Let_def)
  moreover have "report_update f i ty p s = (Inr (), snd (report_update f i ty p s))"
    using report_update_frame(1) [of f i ty p s] by (metis prod.collapse)
  ultimately show ?thesis
    by (metis andthen_simps(2))
qed

end
