(* ===== verification/Delivery.thy ===== *)
theory Delivery
  imports Device_Flow
begin

text \<open>
  Who receives a configuration: a channel is registered for the device its connection was opened
  for, and every configuration put into a channel is encrypted for that device, under a token that the
  device had. \<open>owner\<close> says which device a connection was opened for, \<open>tok\<close> which tokens a device had.
\<close>

section \<open>The property of the channels\<close>

definition encrypted_for ::
    "host \<Rightarrow> (string \<Rightarrow> string \<Rightarrow> bool) \<Rightarrow> string \<Rightarrow> u32 \<Rightarrow> string \<Rightarrow> string \<Rightarrow> bool" where
  "encrypted_for h tok i v ct n \<longleftrightarrow>
     (\<exists>token nonce gid name v' cfg. tok i token \<and> v = i64_as_u32 v' \<and>
        encrypt_parts h nonce (device_push_key_material i token) (device_push_context i v)
          (h_json_text h (push_payload h i gid name v' cfg)) = Inr (ct, n))"

fun message_for ::
    "host \<Rightarrow> (string \<Rightarrow> string \<Rightarrow> bool) \<Rightarrow> string option \<Rightarrow> server_message \<Rightarrow> bool" where
  "message_for h tok who (ConfigPush v ct n) =
     (case who of None \<Rightarrow> False | Some i \<Rightarrow> encrypted_for h tok i v ct n)"
| "message_for h tok who _ = True"

definition channels_ok ::
    "host \<Rightarrow> (string \<Rightarrow> string \<Rightarrow> bool) \<Rightarrow> (conn \<Rightarrow> string option) \<Rightarrow> app_state \<Rightarrow> bool" where
  "channels_ok h tok owner s \<longleftrightarrow>
     (\<forall>i c. st_clients s i = Some c \<longrightarrow> owner c = Some i) \<and>
     (\<forall>(c, m) \<in> set (st_sent s). message_for h tok (owner c) m)"

text \<open>The tokens of the devices are among those of \<open>tok\<close>.\<close>

definition known_tokens :: "(string \<Rightarrow> string \<Rightarrow> bool) \<Rightarrow> app_state \<Rightarrow> bool" where
  "known_tokens tok s \<longleftrightarrow> (\<forall>r \<in> set (db_devices (st_db s)). tok (dv_id r) (dv_device_token r))"

lemma channels_ok_other_fields [simp]:
  "channels_ok h tok ow (s\<lparr>st_db := d\<rparr>) = channels_ok h tok ow s"
  "channels_ok h tok ow (s\<lparr>st_events := ev\<rparr>) = channels_ok h tok ow s"
  "channels_ok h tok ow (s\<lparr>st_login_failures := lf\<rparr>) = channels_ok h tok ow s"
  by (simp_all add: channels_ok_def)

end
