(* ===== verification/Device_Status.thy ===== *)
theory Device_Status
  imports Client_Session
begin

text \<open>
  The life of a device as an abstract state machine over its status (\<open>None\<close>: there is no such
  device), and the proof that the operations of the database refine it, short of the import of a
  backup: the status column only moves along the edges of the machine.
\<close>

section \<open>The abstract machine\<close>

inductive status_step :: "string option \<Rightarrow> string option \<Rightarrow> bool" where
  register: "status_step None (Some ''pending'')"
| online: "s \<noteq> ''kicked'' \<Longrightarrow> status_step (Some s) (Some ''online'')"
| offline: "s \<noteq> ''kicked'' \<Longrightarrow> status_step (Some s) (Some ''offline'')"
| kick: "status_step (Some s) (Some ''kicked'')"
| remove: "status_step (Some s) None"

inductive_cases status_step_NoneE: "status_step None s"
inductive_cases status_step_SomeE: "status_step (Some s) t"

text \<open>
  What one statement may do to the status of a device that is there, or leave as it is: \<open>lives\<close>. It is
  transitive, other than the machine, in which a device that was removed can be registered again.
\<close>

definition lives :: "string option \<Rightarrow> string option \<Rightarrow> bool" where
  "lives s s' \<longleftrightarrow> s' = s \<or> s \<noteq> None \<and> status_step s s'"

lemma lives_refl [simp]: "lives s s"
  by (simp add: lives_def)

lemma lives_trans: "lives s t \<Longrightarrow> lives t v \<Longrightarrow> lives s v"
  by (auto simp: lives_def elim!: status_step_SomeE intro: status_step.intros)

lemma lives_kicked: "lives (Some ''kicked'') s \<Longrightarrow> s = Some ''kicked'' \<or> s = None"
  by (auto simp: lives_def elim: status_step_SomeE)

lemma step_kicked: "status_step (Some ''kicked'') s \<Longrightarrow> s = Some ''kicked'' \<or> s = None"
  by (auto elim: status_step_SomeE)

lemma step_known: "status_step s t \<Longrightarrow> pred_option known_status t"
  by (erule status_step.cases) (simp_all add: known_status_def)

section \<open>The abstraction\<close>

definition status_of :: "database \<Rightarrow> string \<Rightarrow> string option" where
  "status_of d i = map_option dv_status (row_by dv_id i (db_devices d))"

text \<open>The devices \<open>t\<close> are those of \<open>t0\<close>, with other statuses or removed.\<close>

definition moved :: "device_row list \<Rightarrow> device_row list \<Rightarrow> bool" where
  "moved t0 t \<longleftrightarrow> distinct (map dv_id t) \<and>
     (\<forall>i. lives (map_option dv_status (row_by dv_id i t0)) (map_option dv_status (row_by dv_id i t)))"

abbreviation status_moves :: "database \<Rightarrow> database \<Rightarrow> bool" where
  "status_moves d0 d \<equiv> moved (db_devices d0) (db_devices d)"

lemma movedD:
  "moved t0 t \<Longrightarrow> lives (map_option dv_status (row_by dv_id i t0)) (map_option dv_status (row_by dv_id i t))"
  by (simp add: moved_def)

lemma moved_start: "db_ok d \<Longrightarrow> status_moves d d"
  by (simp add: moved_def db_ok_def keys_ok_def)

lemma moved_status: "status_moves d0 d \<Longrightarrow> lives (status_of d0 i) (status_of d i)"
  by (simp add: moved_def status_of_def)

lemma moved_update:
  assumes "\<And>r. dv_id (f r) = dv_id r"
    and "\<And>r. P r \<Longrightarrow> lives (Some (dv_status r)) (Some (dv_status (f r)))"
    and "moved t0 t"
  shows "moved t0 (update_where P f t)"
proof -
  have "lives (map_option dv_status (row_by dv_id i t0))
      (map_option dv_status (row_by dv_id i (update_where P f t)))" for i
  proof (cases "row_by dv_id i t")
    case None
    then show ?thesis
      using movedD [OF assms(3), of i] assms(1) by (simp add: row_by_update_where)
  next
    case (Some r)
    have "lives (map_option dv_status (row_by dv_id i t0)) (Some (dv_status r))"
      using movedD [OF assms(3), of i] Some by simp
    with Some assms(1,2) show ?thesis
      by (auto simp: row_by_update_where intro: lives_trans)
  qed
  with assms(1,3) show ?thesis
    by (simp add: moved_def map_key_update_where)
qed

lemma lives_removed: "lives s t \<Longrightarrow> lives s None"
  by (cases s; cases t) (auto simp: lives_def intro: status_step.remove elim: status_step_NoneE)

lemma moved_delete:
  assumes "moved t0 t"
  shows "moved t0 (delete_where P t)"
proof -
  have "lives (map_option dv_status (row_by dv_id i t0))
      (map_option dv_status (row_by dv_id i (delete_where P t)))" for i
  proof -
    have "distinct (map dv_id t)"
      using assms by (simp add: moved_def)
    with movedD [OF assms, of i] show ?thesis
      by (auto simp: row_by_delete_where split: option.splits dest: lives_removed)
  qed
  with assms show ?thesis
    by (simp add: moved_def distinct_map_delete_where)
qed

text \<open>A registration adds one pending device and touches no other.\<close>

definition enrols :: "device_row list \<Rightarrow> device_row list \<Rightarrow> bool" where
  "enrols t t' \<longleftrightarrow> (\<exists>v. t' = t @ [v] \<and> dv_status v = ''pending'' \<and> dv_id v \<notin> dv_id ` set t)"

lemma enrols_status:
  assumes "enrols (db_devices d) (db_devices d')"
  shows "status_of d' i = status_of d i \<or> status_step (status_of d i) (status_of d' i)"
proof -
  obtain v where v: "db_devices d' = db_devices d @ [v]" "dv_status v = ''pending''"
      "dv_id v \<notin> device_ids d"
    using assms by (auto simp: enrols_def)
  show ?thesis
  proof (cases "i = dv_id v")
    case True
    then have "row_by dv_id i (db_devices d) = None"
      using v(3) by (simp add: row_by_None)
    with v(1,2) True show ?thesis
      by (simp add: status_of_def row_by_append status_step.register)
  next
    case False
    with v(1) show ?thesis
      by (simp add: status_of_def row_by_append split: option.splits)
  qed
qed

section \<open>Statements and operations\<close>

lemma moves_statements:
  "(\<And>r. dv_id (f r) = dv_id r) \<Longrightarrow>
     (\<And>r. P r \<Longrightarrow> lives (Some (dv_status r)) (Some (dv_status (f r)))) \<Longrightarrow>
     keeps (status_moves d0) (update_devices P f)"
  "(\<And>r. dv_id (f r) = dv_id r) \<Longrightarrow>
     (\<And>r. P r \<Longrightarrow> lives (Some (dv_status r)) (Some (dv_status (f r)))) \<Longrightarrow>
     keeps (status_moves d0) (update_devices_group P f)"
  "keeps (status_moves d0) (delete_devices P)"
  by (auto simp: keeps_def update_devices_def update_devices_group_def
      delete_devices_def Let_def intro!: moved_update moved_delete)

text \<open>The two forms of \<open>CASE WHEN status = 'kicked'\<close>, and the kick.\<close>

lemma unless_kicked_lives [simp]:
  "lives (Some s) (Some (online_unless_kicked s))"
  "lives (Some s) (Some (offline_unless_kicked s))"
  by (auto simp: lives_def online_unless_kicked_def offline_unless_kicked_def intro: status_step.intros)

lemma kick_lives [simp]: "lives (Some s) (Some ''kicked'')"
  by (simp add: lives_def status_step.kick)

lemma moves_operations [keeps_intro]:
  "keeps (status_moves d0) (delete_device rid i)" "keeps (status_moves d0) (regenerate_device_token h b rid i)"
  "keeps (status_moves d0) (update_device_traffic t i x y)"
  "keeps (status_moves d0) (update_device_vnts_status t i st e)"
  "keeps (status_moves d0) (create_group h u ns t rid n c)" "keeps (status_moves d0) (delete_group rid g)"
  "keeps (status_moves d0) (delete_room rid)" "keeps (status_moves d0) (acknowledge_push i)"
  unfolding delete_device_def regenerate_device_token_def update_device_traffic_def
    update_device_vnts_status_def create_group_def delete_group_def delete_room_def
    acknowledge_push_def Let_def
  by (intro keeps_intro frame_intro moves_statements; simp)+

end
