(* ===== verification/Typed_Rows.thy ===== *)
theory Typed_Rows
  imports Client_Session
begin

text \<open>
  The integer columns are \<open>int\<close> in the model and \<open>i64\<close> in the code. Here is the proof that every
  integer the hub ever stores is an \<open>i64\<close>, given a clock and JSON numbers that are: what the
  code adds wraps, and what it casts is in range.
\<close>

section \<open>Rows\<close>

abbreviation opt_i64 :: "i64 option \<Rightarrow> bool" where
  "opt_i64 x \<equiv> pred_option is_i64 x"

lemma columns_ok_Cons [simp]:
  "columns_ok []" "columns_ok ((n, v) # cs) = (value_ok n v \<and> columns_ok cs)"
  by (simp_all add: columns_ok_def)

lemma value_ok_simps [simp]:
  "value_ok n SNull" "value_ok n (SInt i) = is_i64 i"
  by (simp_all add: value_ok_def)

text \<open>Of the columns of a row, only the integers and the texts in an INTEGER column can be out of range.\<close>

lemma value_ok_text [simp]:
  "n \<notin> set [''last_seen'', ''vnts_updated_at'', ''up_stream'', ''down_stream'', ''traffic_updated_at'']
     \<Longrightarrow> value_ok n (SText s)"
  "n \<notin> set [''last_seen'', ''vnts_updated_at'', ''up_stream'', ''down_stream'', ''traffic_updated_at'']
     \<Longrightarrow> value_ok n (sql_opt_text t)"
  by (simp_all add: value_ok_def sql_opt_text_def split: option.splits)

lemmas row_columns = user_columns_def room_columns_def group_columns_def device_columns_def
  event_columns_def push_columns_def system_columns_def

lemma small_i64 [simp]: "is_i64 0" "is_i64 1"
  by (simp_all add: is_i64_def)

lemma casts_i64 [simp]:
  "is_i64 (u32_as_i64 w)" "is_i64 (u64_as_i64 x)" "is_i64 (i64_add a b)"
  "is_i64 (max (u32_as_i64 w) 1)"
proof -
  show "is_i64 (u32_as_i64 w)" "is_i64 (max (u32_as_i64 w) 1)"
    using u32_as_i64_range [of w] by (simp_all add: is_i64_def)
  show "is_i64 (u64_as_i64 x)"
    using sint_ge [of x] sint_lt [of x] by (simp add: u64_as_i64_def is_i64_def)
  show "is_i64 (i64_add a b)"
    by (rule is_i64_i64_add)
qed

lemma uint_i64: "uint (w :: u64) < 2 ^ 63 \<Longrightarrow> is_i64 (uint w)"
  unfolding is_i64_def by (rule conjI, rule order_trans [OF _ uint_ge_0]) simp_all

section \<open>Statements\<close>

lemma ints_statements:
  "columns_ok (user_columns u) \<Longrightarrow> keeps ints_ok (insert_user u)"
  "columns_ok (room_columns r) \<Longrightarrow> keeps ints_ok (insert_room r)"
  "columns_ok (group_columns g) \<Longrightarrow> keeps ints_ok (insert_group g)"
  "columns_ok (device_columns v) \<Longrightarrow> keeps ints_ok (insert_device v)"
  "columns_ok (event_columns e) \<Longrightarrow> keeps ints_ok (insert_event e)"
  "columns_ok (push_columns p) \<Longrightarrow> keeps ints_ok (insert_push p)"
  "columns_ok (system_columns s) \<Longrightarrow> keeps ints_ok (insert_system s)"
  "is_i64 now \<Longrightarrow> keeps ints_ok (system_set k x now)"
  by (auto simp: keeps_def insert_user_def insert_room_def insert_group_def insert_device_def
      insert_event_def insert_push_def insert_system_def system_set_def ints_ok_def set_update_where
      row_columns)

lemma ints_updates:
  "(\<And>r. columns_ok (user_columns r) \<Longrightarrow> columns_ok (user_columns (fu r))) \<Longrightarrow>
     keeps ints_ok (update_users Pu fu)"
  "(\<And>r. columns_ok (group_columns r) \<Longrightarrow> columns_ok (group_columns (fg r))) \<Longrightarrow>
     keeps ints_ok (update_groups Pg fg)"
  "(\<And>r. columns_ok (device_columns r) \<Longrightarrow> columns_ok (device_columns (fd r))) \<Longrightarrow>
     keeps ints_ok (update_devices Pd fd)"
  "(\<And>r. columns_ok (device_columns r) \<Longrightarrow> columns_ok (device_columns (fd r))) \<Longrightarrow>
     keeps ints_ok (update_devices_group Pd fd)"
  "(\<And>r. columns_ok (push_columns r) \<Longrightarrow> columns_ok (push_columns (fp r))) \<Longrightarrow>
     keeps ints_ok (update_pushes Pp fp)"
  by (auto simp: keeps_def update_users_def update_groups_def update_devices_def
      update_devices_group_def update_pushes_def ints_ok_def set_update_where)

lemma ints_deletes [keeps_intro]:
  "keeps ints_ok (delete_users Pu)" "keeps ints_ok (delete_rooms Pr)" "keeps ints_ok (delete_groups Pg)"
  "keeps ints_ok (delete_devices Pd)" "keeps ints_ok (delete_events Pe)"
  "keeps ints_ok (delete_pushes Pp)" "keeps ints_ok (delete_sessions Ps)"
  "keeps ints_ok (delete_system Py)"
  by (auto simp: keeps_def delete_users_def delete_rooms_def delete_groups_def delete_devices_def
      delete_events_def delete_pushes_def delete_sessions_def delete_system_def Let_def ints_ok_def)

section \<open>Operations of the database\<close>

lemma ints_admin:
  assumes "is_i64 t"
  shows "keeps ints_ok (ensure_admin h u salt t)"
  unfolding ensure_admin_def by (intro keeps_intro ints_statements; simp add: row_columns assms)

lemma ints_tls:
  assumes "is_i64 t" "is_i64 t'"
  shows "keeps ints_ok (ensure_tls_cert h g t t')"
  unfolding ensure_tls_cert_def system_get_def
  by (intro keeps_intro ints_statements; simp add: assms)

lemma ints_devices:
  assumes "is_i64 t"
  shows "keeps ints_ok (update_device_traffic t i x y)" "keeps ints_ok (update_device_vnts_status t i st e)"
    and "keeps ints_ok (create_group h u ns t rid n c)"
  unfolding update_device_traffic_def update_device_vnts_status_def create_group_def Let_def
  by (intro keeps_intro ints_statements ints_updates; simp add: row_columns assms)+

lemma ints_timeless [keeps_intro]:
  "keeps ints_ok (delete_device rid i)" "keeps ints_ok (regenerate_device_token h b rid i)"
  "keeps ints_ok (delete_group rid k)" "keeps ints_ok (delete_room rid)"
  "keeps ints_ok (acknowledge_push i)"
  unfolding delete_device_def regenerate_device_token_def delete_group_def delete_room_def
    acknowledge_push_def Let_def
  by (intro keeps_intro ints_updates; simp add: row_columns)+

section \<open>Import\<close>

text \<open>\<open>serde_json\<close> keeps a negative number as an \<open>i64\<close>.\<close>

fun json_int_ok :: "json \<Rightarrow> bool" where
  "json_int_ok (JNeg v) = is_i64 v"
| "json_int_ok _ = True"

fun json_row_ok :: "json \<Rightarrow> bool" where
  "json_row_ok (JObj es) = (\<forall>(n, v) \<in> set es. json_int_ok v)"
| "json_row_ok _ = True"

definition backup_ints_ok :: "backup_data \<Rightarrow> bool" where
  "backup_ints_ok b \<longleftrightarrow>
     (\<forall>rows \<in> {bd_users b, bd_rooms b, bd_groups b, bd_devices b, bd_events b, bd_config_pushes b,
        bd_system_config b}. \<forall>row \<in> set rows. json_row_ok row)"

definition binding_ok :: "binding \<Rightarrow> bool" where
  "binding_ok b \<longleftrightarrow> (\<forall>c v. b c = SInt v \<longrightarrow> is_i64 v)"

lemma bind_row_ok: "json_row_ok (JObj obj) \<Longrightarrow> binding_ok (bind_row h columns obj)"
proof -
  have "bind_value h j = SInt v \<Longrightarrow> json_int_ok j \<Longrightarrow> is_i64 v" for j v
    by (cases j) (auto simp: bind_value_def uint_i64 split: if_splits)
  then show "json_row_ok (JObj obj) \<Longrightarrow> binding_ok (bind_row h columns obj)"
    by (fastforce simp: binding_ok_def bind_row_def split: if_splits option.splits dest: map_of_SomeD)
qed

lemma int_columns:
  assumes "binding_ok b"
  shows "int_column (b c) = Inr x \<Longrightarrow> value_ok n x"
    and "int_value (b c) = Inr y \<Longrightarrow> not_null ow dflt y = Inr i \<Longrightarrow> opt_i64 dflt \<Longrightarrow> is_i64 i"
  using assms
  by (cases "b c"; auto simp: binding_ok_def value_ok_def not_null_def coalesce_def
      split: if_splits option.splits)+

lemma bound_rows:
  assumes "binding_ok b"
  shows "user_of_binding ow b = Inr u \<Longrightarrow> columns_ok (user_columns u)"
    "room_of_binding ow b = Inr r \<Longrightarrow> columns_ok (room_columns r)"
    "group_of_binding ow b = Inr g \<Longrightarrow> columns_ok (group_columns g)"
    "device_of_binding ow b = Inr v \<Longrightarrow> columns_ok (device_columns v)"
    "event_of_binding ow b = Inr e \<Longrightarrow> columns_ok (event_columns e)"
    "push_of_binding ow b = Inr p \<Longrightarrow> columns_ok (push_columns p)"
    "system_of_binding ow b = Inr s \<Longrightarrow> columns_ok (system_columns s)"
  unfolding user_of_binding_def room_of_binding_def group_of_binding_def device_of_binding_def
    event_of_binding_def push_of_binding_def system_of_binding_def
  by (auto simp: result_then_Inr row_columns dest: int_columns [OF assms])

lemma ints_insert_or:
  assumes "\<And>r. row = Inr r \<Longrightarrow> keeps ints_ok (ins r)"
    and "\<And>r d. ints_ok d \<Longrightarrow> ints_ok (del r d)"
  shows "keeps ints_ok (insert_or ins del orphans ow row)"
proof (cases row)
  case (Inr r)
  show ?thesis
    unfolding Inr
    using keepsD [OF assms(1) [OF Inr]] assms(2)
    by (intro insert_or_keeps [where P = ints_ok] assms(1) [OF Inr]) blast
qed (simp add: insert_or_Inl)

lemma ints_insert_binding:
  assumes "binding_ok b"
  shows "keeps ints_ok (insert_or_user ow (user_of_binding ow b))"
    "keeps ints_ok (insert_or_room ow (room_of_binding ow b))"
    "keeps ints_ok (insert_or_group ow (group_of_binding ow b))"
    "keeps ints_ok (insert_or_device ow (device_of_binding ow b))"
    "keeps ints_ok (insert_or_event ow (event_of_binding ow b))"
    "keeps ints_ok (insert_or_push ow (push_of_binding ow b))"
    "keeps ints_ok (insert_or_system ow (system_of_binding ow b))"
  unfolding insert_or_user_def insert_or_room_def insert_or_group_def insert_or_device_def
    insert_or_event_def insert_or_push_def insert_or_system_def
  by (rule ints_insert_or; (rule ints_statements, erule bound_rows [OF assms] | simp add: ints_ok_def))+

lemma ints_import_rows:
  assumes "\<And>b. binding_ok b \<Longrightarrow> keeps ints_ok (stmt ow b)" and "\<forall>row \<in> set rows. json_row_ok row"
  shows "keeps ints_ok (import_rows h table columns stmt rows sk ow)"
proof -
  have "keeps ints_ok (import_loop h table columns stmt sk ow n m rows)" for n m
    using assms(2)
  proof (induction rows arbitrary: n m)
    case Nil
    show ?case by (simp only: import_loop.simps keeps_basic)
  next
    case (Cons row rows)
    show ?case
    proof (cases "as_object row")
      case (Some obj)
      then have "row = JObj obj"
        by (cases row) simp_all
      then have "binding_ok (bind_row h columns obj)"
        using Cons.prems by (intro bind_row_ok) simp
      then show ?thesis
        using Cons Some by (simp only: import_loop.simps option.case)
          (intro keeps_intro assms(1); simp)
    qed (use Cons in simp)
  qed
  then show ?thesis
    unfolding import_rows_def by (intro keeps_intro)
qed

lemma ints_import:
  assumes "backup_ints_ok data"
  shows "keeps ints_ok (import_backup h data ow src scope)"
  unfolding import_backup_def import_tables_def clear_tables_def
  by (intro keeps_intro ints_import_rows ints_insert_binding;
      use assms in \<open>simp add: backup_ints_ok_def\<close>)

section \<open>The clock\<close>

definition clock_ok :: "fresh \<Rightarrow> bool" where
  "clock_ok f \<longleftrightarrow> (\<forall>i. is_i64 (fr_clock f i))"

lemma clock_i64: "clock_ok f \<Longrightarrow> is_i64 (fr_clock f i)"
  by (simp add: clock_ok_def)

lemma clock_from [simp]: "clock_ok f \<Longrightarrow> clock_ok (fresh_from f n)"
  by (simp add: clock_ok_def fresh_from_def)

end
