(* ===== verification/Hub_Steps.thy ===== *)
theory Hub_Steps
  imports Client_Threads Delivery Device_Status Typed_Rows
begin

text \<open>
  What a statement of any handler does to the shared state: the abstract steps \<open>hub_move\<close>, and the
  proof that each step of each handler's thread is a sequence of them. Whatever holds of these steps
  holds of every schedule of the handlers.
\<close>

section \<open>The abstract steps\<close>

text \<open>
  The database keeps its constraints; the status of a device moves along its machine, unless backups
  are imported (\<open>im\<close>); its integers stay in range where the inputs do (\<open>ty\<close>). \<open>mine i c\<close>: the
  connection \<open>c\<close> was opened for the device \<open>i\<close>; \<open>tok i t\<close>: the device \<open>i\<close> had the token \<open>t\<close>. The
  registration of a device is a step of its own, apart from these (\<open>hub_step\<close>).
\<close>

definition db_move :: "bool \<Rightarrow> bool \<Rightarrow> database \<Rightarrow> database \<Rightarrow> bool" where
  "db_move im ty d d' \<longleftrightarrow> (db_ok d \<longrightarrow> db_ok d') \<and>
     (\<not> im \<longrightarrow> (\<forall>d0. status_moves d0 d \<longrightarrow> status_moves d0 d')) \<and> (ty \<longrightarrow> ints_ok d \<longrightarrow> ints_ok d')"

inductive hub_move ::
    "host \<Rightarrow> (string \<Rightarrow> string \<Rightarrow> bool) \<Rightarrow> bool \<Rightarrow> bool \<Rightarrow> (string \<Rightarrow> conn \<Rightarrow> bool) \<Rightarrow>
     app_state \<Rightarrow> app_state \<Rightarrow> bool"
  for h tok im ty mine where
  data: "db_move im ty (st_db s) d \<Longrightarrow> hub_move h tok im ty mine s (s\<lparr>st_db := d\<rparr>)"
| register: "mine i c \<Longrightarrow> hub_move h tok im ty mine s (s\<lparr>st_clients := (st_clients s)(i := Some c)\<rparr>)"
| unregister: "hub_move h tok im ty mine s (s\<lparr>st_clients := (st_clients s)(i := None)\<rparr>)"
| answer: "(\<And>v ct n. m \<noteq> ConfigPush v ct n) \<Longrightarrow>
    hub_move h tok im ty mine s (s\<lparr>st_sent := st_sent s @ [(c, m)]\<rparr>)"
| push: "st_clients s i = Some c \<Longrightarrow> encrypted_for h tok i v ct n \<Longrightarrow>
    hub_move h tok im ty mine s (s\<lparr>st_sent := st_sent s @ [(c, ConfigPush v ct n)]\<rparr>)"
| event: "hub_move h tok im ty mine s (s\<lparr>st_events := st_events s @ [t]\<rparr>)"
| failures: "(failures_ok s \<longrightarrow> failures_ok (s\<lparr>st_login_failures := lf\<rparr>)) \<Longrightarrow>
    hub_move h tok im ty mine s (s\<lparr>st_login_failures := lf\<rparr>)"

abbreviation hub_does where
  "hub_does h tok im ty mine \<equiv> (hub_move h tok im ty mine)\<^sup>*\<^sup>*"

lemma transp_hub_does: "transp (hub_does h tok im ty mine)"
  by (auto intro: transpI)

definition db_step :: "bool \<Rightarrow> bool \<Rightarrow> database \<Rightarrow> database \<Rightarrow> bool" where
  "db_step im ty d d' \<longleftrightarrow>
     db_move im ty d d' \<or> db_move True ty d d' \<and> enrols (db_devices d) (db_devices d')"

definition hub_step ::
    "host \<Rightarrow> (string \<Rightarrow> string \<Rightarrow> bool) \<Rightarrow> bool \<Rightarrow> bool \<Rightarrow> (string \<Rightarrow> conn \<Rightarrow> bool) \<Rightarrow>
     app_state \<Rightarrow> app_state \<Rightarrow> bool" where
  "hub_step h tok im ty mine s s' \<longleftrightarrow>
     hub_does h tok im ty mine s s' \<or>
     hub_move h tok True ty mine s s' \<and> enrols (db_devices (st_db s)) (db_devices (st_db s'))"

lemma hub_stepI: "hub_does h tok im ty mine s s' \<Longrightarrow> hub_step h tok im ty mine s s'"
  by (simp add: hub_step_def)

lemma hub_step_data: "db_step im ty (st_db s) d \<Longrightarrow> hub_step h tok im ty mine s (s\<lparr>st_db := d\<rparr>)"
  by (auto simp: db_step_def hub_step_def intro: hub_move.data)

lemma hub_step_True: "hub_step h tok True ty mine s s' \<Longrightarrow> hub_does h tok True ty mine s s'"
  by (auto simp: hub_step_def)

section \<open>Statements on the database\<close>

abbreviation db_thread :: "bool \<Rightarrow> bool \<Rightarrow> (database, 'r) thread \<Rightarrow> bool" where
  "db_thread im ty t \<equiv> guards (\<lambda>_. True) (db_move im ty) (\<lambda>_. True) t"

lemma db_moves:
  "keeps db_ok m \<Longrightarrow> (\<And>d0. keeps (status_moves d0) m) \<Longrightarrow> (ty \<Longrightarrow> keeps ints_ok m) \<Longrightarrow>
     obeys (\<lambda>_. True) (db_move im ty) m"
  by (auto simp: obeys_def db_move_def keeps_def)

lemma db_reads [keeps_intro]: "obeys (\<lambda>_. True) (db_move im ty) (reading f)"
  by (intro db_moves keeps_intro)

lemma create_room_db:
  assumes "ty \<Longrightarrow> clock_ok f"
  shows "db_thread im ty (create_room_t h draw (fr_clock f i) o' n)"
proof -
  have "db_thread im ty (create_room_loop_t h draw (fr_clock f i) o' n is)" for "is"
  proof (induction "is")
    case (Cons i "is")
    then show ?case
      by (simp only: create_room_loop_t.simps Let_def)
        (intro keeps_intro db_moves frame_intro ints_statements; simp add: row_columns clock_i64 assms)
  qed (simp only: create_room_loop_t.simps, intro keeps_intro)
  then show ?thesis
    by (simp add: create_room_t_def)
qed

lemma db_step_move: "obeys J (db_move im ty) m \<Longrightarrow> obeys J (db_step im ty) m"
  by (simp add: obeys_def db_step_def)

text \<open>Of a hello, the update is a step on the rows that are there, the insertion a registration.\<close>

lemma insert_device_enrols:
  assumes "dv_status v = ''pending''" "ty \<Longrightarrow> columns_ok (device_columns v)"
  shows "obeys (\<lambda>_. True) (db_step im ty) (insert_device v)"
proof -
  have "db_move True ty d (snd (insert_device v d))" for d
    using keeps_snd [OF insert_device_ok, of d v] keeps_snd [OF ints_statements(4), of v d] assms(2)
    by (simp add: db_move_def)
  moreover have "snd (insert_device v d) = d \<or> enrols (db_devices d) (db_devices (snd (insert_device v d)))" for d
    using assms(1) by (auto simp: insert_device_def enrols_def)
  moreover have "db_move im ty d d" for d
    by (simp add: db_move_def)
  ultimately have "db_step im ty d (snd (insert_device v d))" for d
    unfolding db_step_def by metis
  then show ?thesis
    by (simp add: obeys_def)
qed

lemma hello_db:
  assumes "ty \<Longrightarrow> clock_ok f"
  shows "guards (\<lambda>_. True) (db_step im ty) (\<lambda>_. True)
    (upsert_device_hello_t h u rnd (fr_clock f i) rid di dt n v ip)"
proof -
  have "obeys (\<lambda>_. True) (db_step im ty) (update_devices P (hello_update n v ip (fr_clock f i)))" for P
    by (intro db_step_move db_moves moves_statements update_devices_ok ints_updates;
        simp add: row_columns hello_update_def clock_i64 assms)
  moreover have "obeys (\<lambda>_. True) (db_step im ty) (insert_device (new_device u rid n v ip token (fr_clock f i)))"
    for token
    by (rule insert_device_enrols) (simp_all add: row_columns new_device_def clock_i64 assms)
  ultimately show ?thesis
    unfolding upsert_device_hello_t_def Let_def
    by (auto simp: split_beta intro!: guards_atomic db_step_move [OF db_reads] split: option.splits)
qed

lemma devices_db [keeps_intro]:
  "db_thread im ty (update_device_t rid j ur)" "db_thread im ty (set_device_group_t rid g j)"
  unfolding update_device_t_def set_device_group_t_def Let_def
  by (intro keeps_intro db_moves moves_statements update_devices_ok ints_updates; simp add: row_columns)+

lemma groups_db:
  assumes "ty \<Longrightarrow> clock_ok f"
  shows "db_thread im ty (create_group_with_version_t h u ns (fr_clock f i) (fr_clock f j) rid n c (u32_as_i64 w))"
    "db_thread im ty (update_group_thread h ns (fr_clock f i) rid gid q)"
  unfolding create_group_with_version_t_def update_group_thread_def Let_def
  by (intro keeps_intro db_moves frame_intro moves_statements ints_devices ints_updates;
      simp add: row_columns clock_i64 assms)+

lemma reads_db [keeps_intro]:
  "db_thread im ty (device_config_t h i g)" "db_thread im ty export_backup_t"
  "db_thread im ty (export_user_backup_t u)"
  unfolding device_config_t_def export_backup_t_def export_user_backup_t_def Let_def
  by (intro keeps_intro)+


section \<open>Steps on the shared state\<close>

abbreviation hub_thread ::
    "host \<Rightarrow> (string \<Rightarrow> string \<Rightarrow> bool) \<Rightarrow> bool \<Rightarrow> bool \<Rightarrow> (string \<Rightarrow> conn \<Rightarrow> bool) \<Rightarrow>
     (app_state, 'r) thread \<Rightarrow> bool" where
  "hub_thread h tok im ty mine t \<equiv> guards (known_tokens tok) (hub_does h tok im ty mine) (\<lambda>_. True) t"

lemma does_nothing: "(\<And>s. snd (m s) = s) \<Longrightarrow> obeys J (hub_does h tok im ty mine) m"
  by (simp add: obeys_def)

lemma does_one: "(\<And>s. hub_move h tok im ty mine s (snd (m s))) \<Longrightarrow> obeys J (hub_does h tok im ty mine) m"
  by (auto simp: obeys_def)

lemma does_then [keeps_intro]:
  assumes "obeys (\<lambda>_. True) (hub_does h tok im ty mine) m"
    and "\<And>x. obeys (\<lambda>_. True) (hub_does h tok im ty mine) (k x)"
  shows "obeys J (hub_does h tok im ty mine) (andthen m k)"
  using obeys_andthen [OF transp_hub_does assms] by (simp add: obeys_def)

lemma snd_map_err [simp]: "snd (map_err m g s) = snd (m s)"
  by (simp add: map_err_def split: prod.splits sum.splits)

lemma does_cases [keeps_intro]:
  "obeys J G m \<Longrightarrow> obeys J G n \<Longrightarrow> obeys J G (if b then m else n)"
  "obeys J G m \<Longrightarrow> (\<And>x. obeys J G (k x)) \<Longrightarrow> obeys J G (case z of None \<Rightarrow> m | Some x \<Rightarrow> k x)"
  "obeys J G m \<Longrightarrow> obeys J G (map_err m g)"
  by (simp_all add: obeys_def split: option.splits)

lemma does_parts [keeps_intro]:
  "obeys J (hub_does h tok im ty mine) (ret x)" "obeys J (hub_does h tok im ty mine) (fail e)"
  "obeys J (hub_does h tok im ty mine) (reading g)"
  "obeys J (hub_does h tok im ty mine) (of_result r)"
  "obeys J (hub_does h tok im ty mine) (get_client i)"
  "obeys J (hub_does h tok im ty mine) (remove_client i)"
  "obeys J (hub_does h tok im ty mine) (publish t)"
  "obeys J (hub_does h tok im ty mine) (send c (Kick w))"
  "obeys J (hub_does h tok im ty mine) (send c (HelloAck a b d v))"
  "obeys J (hub_does h tok im ty mine) (record_login_failure now key)"
  "obeys J (hub_does h tok im ty mine) (clear_login_failure key)"
  "mine i c \<Longrightarrow> obeys J (hub_does h tok im ty mine) (insert_client i c)"
  subgoal by (rule does_nothing) simp
  subgoal by (rule does_nothing) simp
  subgoal by (rule does_nothing) simp
  subgoal by (rule does_nothing) simp
  subgoal by (rule does_nothing) (simp add: get_client_def)
  subgoal by (rule does_one) (simp add: remove_client_def hub_move.unregister)
  subgoal by (rule does_one) (simp add: publish_def hub_move.event)
  subgoal by (rule does_one) (simp add: send_def hub_move.answer)
  subgoal by (rule does_one) (simp add: send_def hub_move.answer)
  subgoal
    by (rule does_one) (auto simp: record_login_failure_def failures_ok_def Let_def bump_failure_def not_le
        split: option.splits intro!: hub_move.failures)
  subgoal by (rule does_one) (auto simp: clear_login_failure_def failures_ok_def intro!: hub_move.failures)
  subgoal by (rule does_one) (simp add: insert_client_def hub_move.register)
  done

lemma does_db [keeps_intro]:
  assumes "obeys (\<lambda>_. True) (db_move im ty) m"
  shows "obeys J (hub_does h tok im ty mine) (on_db m)"
    and "obeys J (hub_does h tok im ty mine) (db_or e m)"
    and "obeys J (hub_does h tok im ty mine) (attempt (on_db m))"
proof -
  have "hub_move h tok im ty mine s (s\<lparr>st_db := snd (m (st_db s))\<rparr>)" for s
    using assms by (auto simp: obeys_def intro: hub_move.data)
  then show "obeys J (hub_does h tok im ty mine) (on_db m)"
    and "obeys J (hub_does h tok im ty mine) (db_or e m)"
    and "obeys J (hub_does h tok im ty mine) (attempt (on_db m))"
    by (auto simp: on_db_def db_or_def map_err_def attempt_def split: prod.splits sum.splits
        intro!: does_one) (metis snd_conv)+
qed

lemma thread_on_db [keeps_intro]:
  "db_thread im ty t \<Longrightarrow> hub_thread h tok im ty mine (on_db_t t)"
  unfolding on_db_t_def by (erule guards_focus) (auto intro: hub_move.data)

section \<open>The handlers of the web API\<close>

lemma send_config_does:
  assumes "encrypted_for h tok i v ct n"
  shows "obeys J (hub_does h tok im ty mine) (send_config i (ConfigPush v ct n))"
proof -
  have "hub_does h tok im ty mine s (snd (send_config i (ConfigPush v ct n) s))" for s
    using hub_move.push [of s i _ h tok v ct n im ty mine] assms
    by (auto simp: send_config_def get_client_def send_def split: option.splits)
  then show ?thesis
    by (simp add: obeys_def)
qed

lemma drop_kicked_does [keeps_intro]: "obeys J (hub_does h tok im ty mine) (drop_kicked i)"
  unfolding drop_kicked_def by (intro keeps_intro)

lemma config_name_does [keeps_intro]: "obeys J (hub_does h tok im ty mine) (config_name_of g)"
  unfolding config_name_of_def by (intro keeps_intro)

lemma ensure_does [keeps_intro]:
  "obeys J (hub_does h tok im ty mine) (ensure_room_access user rid)"
  "obeys J (hub_does h tok im ty mine) (ensure_device_in_room rid i)"
  "obeys J (hub_does h tok im ty mine) (ensure_group_in_room rid g)"
  unfolding ensure_room_access_def ensure_device_in_room_def ensure_group_in_room_def
    room_exists_def room_belongs_to_def
  by (intro keeps_intro)+

lemma push_does:
  assumes "ty \<Longrightarrow> clock_ok f"
  shows "hub_thread h tok im ty mine (push_config_to_device_t h f i g)"
proof -
  have push: "obeys (known_tokens tok) (hub_does h tok im ty mine)
      (db_or e (insert_push \<lparr> pu_id = u, pu_device_id = i, pu_group_id = g, pu_config_snapshot = ct,
        pu_pushed_at = fr_clock f 0, pu_acked = 0 \<rparr>))" for e u g ct
    by (intro keeps_intro db_moves frame_intro ints_statements) (simp add: row_columns clock_i64 assms)
  have token: "tok i t"
    if "known_tokens tok s" "map_option dv_device_token
      (fetch_optional (\<lambda>r. dv_id r = i) (db_devices (st_db s))) = Some t" for s t
    using that by (auto simp: known_tokens_def dest: fetch_optional_Some)
  have "hub_thread h tok im ty mine (stmt (send_config i (ConfigPush (i64_as_u32 v) ct n)))"
    if "tok i t" "encrypt_parts h (fr_random f 0) (device_push_key_material i t)
        (device_push_context i (i64_as_u32 v)) (h_json_text h (push_payload h i gid name v cfg)) = Inr (ct, n)"
    for t v gid name cfg ct n
  proof -
    have "encrypted_for h tok i (i64_as_u32 v) ct n"
      using that unfolding encrypted_for_def by blast
    then show ?thesis
      by (intro keeps_intro send_config_does)
  qed
  note rest = guards_intros(2) [OF push this]
  let ?row = "\<lambda>s :: app_state. map_option dv_device_token
    (fetch_optional (\<lambda>r. dv_id r = i) (db_devices (st_db s)))"
  let ?rest = "\<lambda>gid name v cfg t. checked (ok_or NOT_FOUND t) (\<lambda>t.
      checked (map_sum (\<lambda>_. INTERNAL_SERVER_ERROR) id (encrypt_parts h (fr_random f 0)
        (device_push_key_material i t) (device_push_context i (i64_as_u32 v))
        (h_json_text h (push_payload h i gid name v cfg)))) (\<lambda>(ct, n).
      atomic (db_or INTERNAL_SERVER_ERROR (insert_push \<lparr> pu_id = fr_uuid f 0, pu_device_id = i,
        pu_group_id = gid, pu_config_snapshot = ct, pu_pushed_at = fr_clock f 0, pu_acked = 0 \<rparr>)) (\<lambda>_.
      stmt (send_config i (ConfigPush (i64_as_u32 v) ct n)))))"
  have send: "hub_thread h tok im ty mine (atomic (reading ?row) (?rest gid name v cfg))" for gid name v cfg
  proof (rule guards_atomic)
    fix s t
    assume "known_tokens tok s" and "fst (reading ?row s) = Inr t"
    then have "t = Some t' \<Longrightarrow> tok i t'" for t'
      using token by simp
    then show "hub_thread h tok im ty mine (?rest gid name v cfg t)"
      by (auto intro!: guards_checked rest)
  qed (simp_all add: does_parts)
  show ?thesis
    unfolding push_config_to_device_t_def Let_def by (intro send keeps_intro)
qed

lemma push_each_does:
  assumes "ty \<Longrightarrow> clock_ok f"
  shows "hub_thread h tok im ty mine (push_each_t h f g i ids n)"
proof (induction ids arbitrary: i n)
  case (Cons d ids)
  then show ?case
    using assms by (simp only: push_each_t.simps) (intro keeps_intro push_does; simp)
qed (simp only: push_each_t.simps, intro keeps_intro)

lemma accounts_do:
  assumes "ty \<Longrightarrow> clock_ok f"
  shows "hub_thread h tok im ty mine (login_thread h f fwd lr)"
    "hub_thread h tok im ty mine (change_password_t h f user cp)"
    "obeys J (hub_does h tok im ty mine) (register h f lr)"
  unfolding login_thread_def login_lookup_def login_verify_def change_password_t_def find_user_def Let_def
    register_def
  by (intro keeps_intro db_moves frame_intro update_users_ok ints_statements ints_updates;
      simp add: row_columns clock_i64 assms)+

lemma accounts_do_timeless [keeps_intro]:
  "obeys J (hub_does h tok im ty mine) (delete_account user)"
  "obeys J (hub_does h tok im ty mine) public_config"
  unfolding delete_account_def public_config_def by (intro keeps_intro db_moves frame_intro)+

lemma pushes_do:
  assumes "ty \<Longrightarrow> clock_ok f"
  shows "hub_thread h tok im ty mine (push_device_t h f user rid i)"
    "hub_thread h tok im ty mine (push_group_t h f user rid g)"
  unfolding push_device_t_def push_group_t_def
  by (intro keeps_intro push_does push_each_does; simp add: assms)+

lemma rooms_do:
  assumes "ty \<Longrightarrow> clock_ok f"
  shows "hub_thread h tok im ty mine (api_create_room_t h f user n)"
    "hub_thread h tok im ty mine (api_create_group_t h f user rid n c)"
    "hub_thread h tok im ty mine (api_update_group_t h f user rid g q)"
  unfolding api_create_room_t_def api_create_group_t_def api_update_group_t_def
  by (intro keeps_intro create_room_db groups_db db_moves ints_devices; simp add: clock_i64 assms)+

lemma rooms_do_timeless [keeps_intro]:
  "hub_thread h tok im ty mine (api_delete_room_t user rid)"
  "hub_thread h tok im ty mine (api_list_devices_t user rid)"
  "hub_thread h tok im ty mine (api_update_device_t user rid i ur)"
  "hub_thread h tok im ty mine (api_delete_device_t user rid i)"
  "hub_thread h tok im ty mine (api_regenerate_device_token_t h f user rid i)"
  "hub_thread h tok im ty mine (kick_device_t user rid i)"
  "hub_thread h tok im ty mine (api_list_groups_t h user rid)"
  "hub_thread h tok im ty mine (api_delete_group_t user rid g)"
  "hub_thread h tok im ty mine (add_group_device_t user rid g i)"
  "hub_thread h tok im ty mine (remove_group_device_t user rid g i)"
  "hub_thread h tok im ty mine (api_export_backup_t f user scope)"
  unfolding api_delete_room_t_def api_list_devices_t_def api_update_device_t_def api_list_groups_t_def
    api_delete_device_t_def api_regenerate_device_token_t_def kick_device_t_def api_delete_group_t_def
    add_group_device_t_def remove_group_device_t_def api_export_backup_t_def Let_def
  by (intro keeps_intro db_moves moves_statements update_devices_ok ints_updates; simp add: row_columns)+

lemma reads_do [keeps_intro]:
  "obeys J (hub_does h tok im ty mine) (api_list_rooms user)"
  "obeys J (hub_does h tok im ty mine) (api_list_events user q)"
  "obeys J (hub_does h tok im ty mine) (events_stream user)"
  unfolding api_list_rooms_def list_rooms_def api_list_events_def events_stream_def Let_def
  by (intro keeps_intro db_moves)+

text \<open>An import only keeps the constraints, and the ranges of its own integers.\<close>

fun is_import :: "api_request \<Rightarrow> bool" where
  "is_import (PostBackup _ _) = True"
| "is_import _ = False"

fun request_ints_ok :: "api_request \<Rightarrow> bool" where
  "request_ints_ok (PostBackup mode body) = backup_ints_ok (be_data body)"
| "request_ints_ok _ = True"

lemma import_does:
  assumes "im" "ty \<Longrightarrow> backup_ints_ok (be_data b)"
  shows "obeys J (hub_does h tok im ty mine) (api_import_backup h user mode b)"
proof -
  have "obeys (\<lambda>_. True) (db_move im ty) (import_backup h (be_data b) ow src scope)" for ow src scope
    using keeps_snd [OF import_backup_ok] keeps_snd [OF ints_import [OF assms(2)]] assms(1)
    by (simp add: obeys_def db_move_def)
  then show ?thesis
    unfolding api_import_backup_def Let_def by (intro keeps_intro)
qed

lemma thread_answering [keeps_intro]: "guards J G (\<lambda>_. True) t \<Longrightarrow> guards J G (\<lambda>_. True) (answering_t g t)"
  unfolding answering_t_def by (intro keeps_intro)

lemma request_does:
  assumes "ty \<Longrightarrow> clock_ok f \<and> request_ints_ok req" "is_import req \<Longrightarrow> im"
  shows "hub_thread h tok im ty mine (handle_request_t h f now auth req)"
proof -
  have clk: "ty \<Longrightarrow> clock_ok f"
    using assms(1) by simp
  have "hub_thread h tok im ty mine (user_route_t h f user req)" for user
    using assms
    by (cases req; simp only: user_route_t.simps;
        intro keeps_intro accounts_do rooms_do pushes_do import_does; simp)
  then show ?thesis
    unfolding handle_request_t_def
    by (cases req; simp only: api_request.case; intro keeps_intro accounts_do; simp add: clk)
qed

section \<open>The handlers of devices\<close>

lemma thread_attempted [keeps_intro]:
  "guards J G (\<lambda>_. True) t \<Longrightarrow> guards J G (\<lambda>_. True) (map_thread g t)"
  by (rule guards_map)

lemma client_pushes_do:
  assumes "ty \<Longrightarrow> clock_ok f"
  shows "hub_thread h tok im ty mine (push_device_config_t h f i)"
    "hub_thread h tok im ty mine (push_current_config_if_needed_t h f i)"
    "hub_thread h tok im ty mine (push_if_console_config_differs_t h f i v)"
  unfolding push_device_config_t_def push_current_config_if_needed_t_def
    push_if_console_config_differs_t_def
  by (intro keeps_intro push_does; simp add: assms)+

lemma set_reported_does:
  assumes "ty \<Longrightarrow> is_i64 t"
  shows "obeys J (hub_does h tok im ty mine) (set_reported_version t i v)"
  unfolding set_reported_version_def
  by (intro keeps_intro db_moves moves_statements update_devices_ok ints_updates;
      simp add: row_columns assms)

lemma offline_does [keeps_intro]: "obeys J (hub_does h tok im ty mine) (mark_device_offline i)"
  unfolding mark_device_offline_def
  by (intro keeps_intro db_moves moves_statements update_devices_ok ints_updates; simp add: row_columns)

lemma sync_does:
  assumes "ty \<Longrightarrow> clock_ok f"
  shows "hub_thread h tok im ty mine (sync_reported_config_state_t h f i v g n c run)"
  unfolding sync_reported_config_state_t_def Let_def
  by (intro keeps_intro set_reported_does client_pushes_do groups_db db_moves moves_statements
      update_devices_ok ints_updates; simp add: row_columns clock_i64 assms)

lemma message_does:
  assumes "ty \<Longrightarrow> clock_ok f"
  shows "hub_thread h tok im ty mine (handle_client_message_t h f i m)"
proof -
  have "hub_thread h tok im ty mine (handle_event_report_t h f i t p)" for t p
    unfolding handle_event_report_t_def Let_def
    by (intro keeps_intro db_moves frame_intro ints_devices ints_statements;
        simp add: row_columns clock_i64 assms)
  then show ?thesis
    by (cases m; simp only: handle_client_message_t.simps;
        intro keeps_intro sync_does set_reported_does db_moves moves_statements update_devices_ok
          ints_devices ints_updates; simp add: row_columns clock_i64 assms)
qed

text \<open>The device that a hello is accepted for: the one it names, or a new one.\<close>

fun announced :: "fresh \<Rightarrow> client_message \<Rightarrow> string" where
  "announced f (Hello _ (Some did) (Some _) _ _ _) = did"
| "announced f _ = fr_uuid f 0"

lemma upsert_announces:
  "guards (\<lambda>_. True) (\<lambda>_ _. True) (\<lambda>r. \<forall>i t st. r = Inr (i, t, st) \<longrightarrow>
     i = announced f (Hello rid did tok n pv cv))
   (upsert_device_hello_t h (fr_uuid f 0) rnd now rid did tok n cv ip)"
  unfolding upsert_device_hello_t_def Let_def
  by (auto simp: obeys_def intro!: guards_atomic guards_cases split: option.splits)

abbreviation step_thread ::
    "host \<Rightarrow> (string \<Rightarrow> string \<Rightarrow> bool) \<Rightarrow> bool \<Rightarrow> bool \<Rightarrow> (string \<Rightarrow> conn \<Rightarrow> bool) \<Rightarrow>
     (app_state, 'r) thread \<Rightarrow> bool" where
  "step_thread h tok im ty mine t \<equiv> guards (known_tokens tok) (hub_step h tok im ty mine) (\<lambda>_. True) t"

lemma step_thread_of: "hub_thread h tok im ty mine t \<Longrightarrow> step_thread h tok im ty mine t"
  by (erule guards_mono) (simp_all add: hub_stepI)

lemma obeys_step: "obeys J (hub_does h tok im ty mine) m \<Longrightarrow> obeys J (hub_step h tok im ty mine) m"
  by (simp add: obeys_def hub_stepI)

lemma hello_does:
  assumes "ty \<Longrightarrow> clock_ok f"
  shows "guards (known_tokens tok) (hub_step h tok im ty mine)
    (\<lambda>r. \<forall>i st. r = Inr (Some (i, st)) \<longrightarrow> i = announced f m) (handle_client_hello_t h f ip m c)"
proof (cases m)
  case (Hello rid did tk n pv cv)
  let ?upsert = "upsert_device_hello_t h (fr_uuid f 0) (fr_random f 0) (fr_clock f 0) rid did tk n cv (Some ip)"
  have upsert: "guards (\<lambda>_. True) (db_step im ty) (\<lambda>r. \<forall>i t st. r = Inr (i, t, st) \<longrightarrow> i = announced f m) ?upsert"
    using guards_both [OF hello_db [of ty f im h, OF assms] upsert_announces [of f rid did tk n pv cv h]] Hello
    by (auto elim!: guards_mono)
  have "guards (known_tokens tok) (hub_step h tok im ty mine)
      (\<lambda>r. \<forall>i t st. r = Inr (i, t, st) \<longrightarrow> i = announced f m) (on_db_t ?upsert)"
    unfolding on_db_t_def by (rule guards_focus [OF upsert]) (auto intro: hub_step_data)
  then have attempt: "guards (known_tokens tok) (hub_step h tok im ty mine)
      (\<lambda>r. \<forall>i t st. r = Inr (Inr (i, t, st)) \<longrightarrow> i = announced f m) (attempt_t (on_db_t ?upsert))"
    unfolding attempt_t_def by (intro guards_map) simp
  have answer: "guards (known_tokens tok) (hub_step h tok im ty mine)
      (\<lambda>r. \<forall>i st. r = Inr (Some (i, st)) \<longrightarrow> i = announced f m)
    (then_t (attempt_t (on_db_t ?upsert)) (\<lambda>r. case r of Inl e \<Rightarrow> give None
      | Inr (i, new_token, status) \<Rightarrow> atomic (send c (HelloAck i new_token status ''0.1.0'')) (\<lambda>_.
          give (Some (i, status)))))"
    by (rule guards_then [OF attempt]) (auto intro!: guards_atomic obeys_step keeps_intro split: sum.splits)
  have "obeys (known_tokens tok) (hub_step h tok im ty mine) (attempt (on_db (room_exists rid)))"
    "obeys (known_tokens tok) (hub_step h tok im ty mine) (send c (Kick w))" for w
    unfolding room_exists_def by (intro obeys_step keeps_intro)+
  then show ?thesis
    using answer unfolding handle_client_hello_t_def Hello
    by (auto intro!: guards_atomic guards_cases)
qed (auto simp: handle_client_hello_t_def)

text \<open>A session, and the loop of the datagrams, register a connection for the device announced on it.\<close>

lemma session_open_does:
  assumes "ty \<Longrightarrow> clock_ok f" and "mine (announced f m) c"
  shows "step_thread h tok im ty mine (session_open_t h f ip m c)"
proof -
  have "hub_thread h tok im ty mine (atomic (insert_client (announced f m) c) (\<lambda>_.
      then_t (attempt_t (push_current_config_if_needed_t h (fresh_from f 1) (announced f m))) (\<lambda>_.
      give (Some (announced f m)))))"
    by (intro keeps_intro client_pushes_do; simp add: assms)
  note rest = step_thread_of [OF this]
  show ?thesis
    unfolding session_open_t_def
    by (rule guards_then [OF hello_does [OF assms(1)]]) (auto intro!: rest simp del: One_nat_def split: option.splits)
qed

lemma session_loop_does:
  assumes "\<And>n. ty \<Longrightarrow> clock_ok (fs n)"
  shows "hub_thread h tok im ty mine (session_loop_t h fs i n ms)"
proof (induction ms arbitrary: n)
  case (Cons m ms)
  have "hub_thread h tok im ty mine (session_message_t h (fs n) i m)"
    unfolding session_message_t_def by (intro keeps_intro message_does assms)
  with Cons show ?case
    by (simp only: session_loop_t.simps) (intro keeps_intro)
qed (simp only: session_loop_t.simps, intro keeps_intro)

lemma session_does:
  assumes "\<And>n. ty \<Longrightarrow> clock_ok (fs n)" and "mine (announced (fs 0) m) c"
  shows "step_thread h tok im ty mine (handle_client_session_t h fs ip m c ms)"
proof -
  have "hub_thread h tok im ty mine (then_t (session_loop_t h fs i 1 ms) (\<lambda>_. session_close_t i))" for i
    unfolding session_close_t_def by (intro keeps_intro session_loop_does assms)
  note rest = step_thread_of [OF this]
  show ?thesis
    unfolding handle_client_session_t_def
    by (rule guards_then [OF session_open_does]) (auto simp: assms simp del: One_nat_def intro!: rest split: option.split)
qed

section \<open>Datagrams\<close>

abbreviation udp_does ::
    "host \<Rightarrow> (string \<Rightarrow> string \<Rightarrow> bool) \<Rightarrow> bool \<Rightarrow> bool \<Rightarrow> (string \<Rightarrow> conn \<Rightarrow> bool) \<Rightarrow>
     udp_state \<Rightarrow> udp_state \<Rightarrow> bool" where
  "udp_does h tok im ty mine u u' \<equiv> hub_step h tok im ty mine (ud_app u) (ud_app u')"

abbreviation udp_thread ::
    "host \<Rightarrow> (string \<Rightarrow> string \<Rightarrow> bool) \<Rightarrow> bool \<Rightarrow> bool \<Rightarrow> (string \<Rightarrow> conn \<Rightarrow> bool) \<Rightarrow>
     (udp_state, 'r) thread \<Rightarrow> bool" where
  "udp_thread h tok im ty mine t \<equiv>
     guards (\<lambda>u. known_tokens tok (ud_app u)) (udp_does h tok im ty mine) (\<lambda>_. True) t"

lemma guards_on_app:
  "guards (known_tokens tok) (hub_step h tok im ty mine) Q t \<Longrightarrow>
     guards (\<lambda>u. known_tokens tok (ud_app u)) (udp_does h tok im ty mine) Q (on_app_t t)"
  unfolding on_app_t_def by (erule guards_focus) auto

lemma hub_on_app [keeps_intro]:
  "hub_thread h tok im ty mine t \<Longrightarrow> udp_thread h tok im ty mine (on_app_t t)"
  by (rule guards_on_app [OF step_thread_of])

lemma set_peer_does [keeps_intro]: "obeys J (udp_does h tok im ty mine) (set_peer p v)"
  by (simp add: obeys_def set_peer_def hub_stepI)

lemma reading_peers [keeps_intro]: "obeys J (udp_does h tok im ty mine) (reading g)"
  by (simp add: obeys_def hub_stepI)

text \<open>The device for which a datagram may open its second connection.\<close>

definition datagram_device :: "host \<Rightarrow> fresh \<Rightarrow> bytes \<Rightarrow> string option" where
  "datagram_device h f buf = Option.bind (from_utf8 buf) (\<lambda>t. Option.bind (h_client_message h t) (\<lambda>m.
     if is_hello m then Some (announced f m) else None))"

lemma udp_hello_does:
  assumes "ty \<Longrightarrow> clock_ok f" and "mine (announced f m) c'"
  shows "udp_thread h tok im ty mine (handle_udp_hello_t h f c c' peer m)"
  unfolding handle_udp_hello_t_def
  by (rule guards_then [OF guards_on_app [OF hello_does [OF assms(1)]]])
    (auto intro!: keeps_intro client_pushes_do simp: assms)

lemma datagram_does:
  assumes "ty \<Longrightarrow> clock_ok f" and "\<And>i. datagram_device h f buf = Some i \<Longrightarrow> mine i c'"
  shows "udp_thread h tok im ty mine (udp_datagram_t h f c c' peer buf)"
  unfolding udp_datagram_t_def
  by (intro keeps_intro udp_hello_does message_does assms; simp add: datagram_device_def)

lemma serve_udp_does:
  assumes "\<forall>(f, c, c', peer, buf) \<in> set ds. (ty \<longrightarrow> clock_ok f) \<and>
    (\<forall>i. datagram_device h f buf = Some i \<longrightarrow> mine i c')"
  shows "udp_thread h tok im ty mine (serve_udp_t h ds)"
  using assms
proof (induction ds)
  case (Cons d ds)
  then show ?case
    by (cases d; simp only: serve_udp_t.simps) (intro keeps_intro datagram_does; simp)
qed (simp only: serve_udp_t.simps, intro keeps_intro)

end
