(* ===== verification/Hub.thy ===== *)
theory Hub
  imports Hub_Steps
begin

text \<open>
  The whole hub (\<open>src/main.rs\<close> after start-up) as a transition system: the tasks it runs (requests of
  the web API, sessions of devices, the datagram loop) are threads on the shared state, and a step is
  a step of any of them. A schedule interleaves their statements in any order; a task of the list that
  has not taken a step has not arrived yet.
\<close>

section \<open>Transition systems\<close>

text \<open>A property that holds at the start and is kept by every step holds in every reachable state.\<close>

inductive reach :: "('s \<Rightarrow> bool) \<Rightarrow> ('s \<Rightarrow> 's \<Rightarrow> bool) \<Rightarrow> 's \<Rightarrow> bool"
  for init :: "'s \<Rightarrow> bool" and step :: "'s \<Rightarrow> 's \<Rightarrow> bool" where
  start: "init s \<Longrightarrow> reach init step s"
| step: "reach init step s \<Longrightarrow> step s s' \<Longrightarrow> reach init step s'"

lemma reach_steps: "reach init step p \<Longrightarrow> step\<^sup>*\<^sup>* p q \<Longrightarrow> reach init step q"
  by (erule rtranclp_induct) (auto intro: reach.step)

lemma reach_run: "reach init step s \<Longrightarrow> \<exists>p. init p \<and> step\<^sup>*\<^sup>* p s"
  by (induction rule: reach.induct) (auto intro: rtranclp.rtrancl_into_rtrancl)

text \<open>What a run has at its start and every step of it keeps, it has at its end.\<close>

lemma run_between:
  assumes "R\<^sup>*\<^sup>* a z" "Q a" and "\<And>x y. R\<^sup>*\<^sup>* a x \<Longrightarrow> R x y \<Longrightarrow> R\<^sup>*\<^sup>* y z \<Longrightarrow> Q x \<Longrightarrow> Q y"
  shows "Q z"
proof -
  have "R\<^sup>*\<^sup>* y z \<Longrightarrow> Q y" if "R\<^sup>*\<^sup>* a y" for y
    using that
  proof (induction rule: rtranclp_induct)
    case (step x y)
    then show ?case
      using assms(3) [of x y] by (meson converse_rtranclp_into_rtranclp)
  qed (rule assms(2))
  with assms(1) show ?thesis
    by blast
qed

section \<open>Start-up\<close>

text \<open>\<open>main\<close>: the administrator and the certificate are created when they are missing.\<close>

definition startup ::
    "host \<Rightarrow> fresh \<Rightarrow> (string \<times> string) option \<Rightarrow> bool \<Rightarrow> database \<Rightarrow> error + app_state" where
  "startup h f certificate disable_register d =
     (case andthen (ensure_admin h (fr_uuid f 0) (fr_salt f) (fr_clock f 0)) (\<lambda>_.
           andthen (ensure_tls_cert h certificate (fr_clock f 1) (fr_clock f 2)) (\<lambda>_.
           andthen (tls_pem h) (\<lambda>_. ret ()))) d of
        (Inl e, _) \<Rightarrow> Inl e
      | (Inr _, d') \<Rightarrow> Inr (new_state d' disable_register))"

lemma startup_ok: "db_ok d \<Longrightarrow> startup h f cert dr d = Inr s \<Longrightarrow> hub_ok s"
proof -
  have "keeps db_ok (andthen (ensure_admin h (fr_uuid f 0) (fr_salt f) (fr_clock f 0)) (\<lambda>_.
      andthen (ensure_tls_cert h cert (fr_clock f 1) (fr_clock f 2)) (\<lambda>_.
      andthen (tls_pem h) (\<lambda>_. ret ()))))"
    unfolding tls_pem_def by (intro keeps_intro)
  then show "db_ok d \<Longrightarrow> startup h f cert dr d = Inr s \<Longrightarrow> hub_ok s"
    by (auto simp: startup_def split: prod.splits sum.splits dest: keepsD intro: hub_ok_new_state)
qed

text \<open>The integers of the started database are in range.\<close>

lemma startup_ints:
  assumes "startup h f cert dr d = Inr s" "ints_ok d" "clock_ok f"
  shows "ints_ok (st_db s)"
proof -
  have "keeps ints_ok (andthen (ensure_admin h (fr_uuid f 0) (fr_salt f) (fr_clock f 0)) (\<lambda>_.
      andthen (ensure_tls_cert h cert (fr_clock f 1) (fr_clock f 2)) (\<lambda>_.
      andthen (tls_pem h) (\<lambda>_. ret ()))))"
    unfolding tls_pem_def by (intro keeps_intro ints_admin ints_tls clock_i64 assms(3))
  with assms(1,2) show ?thesis
    by (auto simp: startup_def new_state_def split: prod.splits sum.splits dest: keepsD)
qed

lemma startup_state: "startup h f cert dr d = Inr s \<Longrightarrow> \<exists>d'. s = new_state d' dr"
  by (auto simp: startup_def split: prod.splits sum.splits)

text \<open>The parts of a successful start-up.\<close>

lemma startup_steps:
  assumes "startup h f cert dr d = Inr s"
  shows "\<exists>d1. ensure_admin h (fr_uuid f 0) (fr_salt f) (fr_clock f 0) d = (Inr (), d1) \<and>
    db_users (st_db s) = db_users d1 \<and> (\<exists>pem. fst (tls_pem h (st_db s)) = Inr pem)"
proof -
  obtain d1 d2 d3 pem where 1: "ensure_admin h (fr_uuid f 0) (fr_salt f) (fr_clock f 0) d = (Inr (), d1)"
    and 2: "ensure_tls_cert h cert (fr_clock f 1) (fr_clock f 2) d1 = (Inr (), d2)"
    and 3: "tls_pem h d2 = (Inr pem, d3)" and s: "s = new_state d3 dr"
    using assms by (auto simp: startup_def andthen_def split: prod.splits sum.splits)
  have "keeps (\<lambda>d. db_users d = db_users d1) (ensure_tls_cert h cert (fr_clock f 1) (fr_clock f 2))"
    unfolding ensure_tls_cert_def system_set_def system_get_def
    by (intro keeps_intro keeps_writing; simp)
  from keepsD [OF this 2] have "db_users d2 = db_users d1"
    by simp
  moreover have "d3 = d2"
  proof -
    have "keeps (\<lambda>d. d = d2) (tls_pem h)"
      unfolding tls_pem_def system_get_def by (intro keeps_intro)
    from keepsD [OF this 3] show ?thesis by simp
  qed
  ultimately show ?thesis
    using 1 3 s by (simp add: new_state_def)
qed

lemma ensure_admin_result:
  assumes "ensure_admin h u salt t d = (Inr (), d')" and "argon2_laws h"
  shows "if \<exists>x \<in> set (db_users d). us_username x = ''admin'' then d' = d
    else \<exists>x. db_users d' = db_users d @ [x] \<and> us_username x = ''admin'' \<and> us_role x = ''admin'' \<and>
      verify_password h (us_password x) ''admin''"
proof (cases "\<exists>x \<in> set (db_users d). us_username x = ''admin''")
  case True
  then have "count_where (\<lambda>u. us_username u = ''admin'') (db_users d) \<noteq> 0"
    by (simp add: count_where_0)
  with assms(1) True show ?thesis
    by (simp add: ensure_admin_def)
next
  case False
  then have "count_where (\<lambda>u. us_username u = ''admin'') (db_users d) = 0"
    by (simp add: count_where_0)
  then obtain hash where "hash_password h salt ''admin'' = Inr hash"
      "d' = d\<lparr>db_users := db_users d @ [\<lparr> us_id = u, us_username = ''admin'', us_password = hash,
         us_role = ''admin'', us_created_at = t \<rparr>]\<rparr>"
    using assms(1) by (auto simp: ensure_admin_def insert_user_def split: sum.splits if_splits)
  with False verify_hash_password [OF assms(2)] show ?thesis
    by auto
qed

section \<open>Tasks\<close>

datatype task =
    Web fresh i64 "string option" api_request
  | Socket "nat \<Rightarrow> fresh" string conn "ws_item list"
  | RawTcp "nat \<Rightarrow> fresh" string conn "string list"
  | Udp "datagram list"

fun task_thread :: "host \<Rightarrow> task \<Rightarrow> (udp_state, unit) thread" where
  "task_thread h (Web f now auth req) = finished (on_app_t (handle_request_t h f now auth req))"
| "task_thread h (Socket fs ip c items) = finished (on_app_t (handle_socket_t h fs ip c items))"
| "task_thread h (RawTcp fs ip c lines) = finished (on_app_t (handle_raw_tcp_t h fs ip c lines))"
| "task_thread h (Udp ds) = finished (serve_udp_t h ds)"

text \<open>The connections of a task, each with the device that is announced on it.\<close>

definition hello_device :: "host \<Rightarrow> fresh \<Rightarrow> string \<Rightarrow> string option" where
  "hello_device h f text = map_option (announced f) (h_client_message h text)"

fun task_conns :: "host \<Rightarrow> task \<Rightarrow> (conn \<times> string option) list" where
  "task_conns h (Web f now auth req) = []"
| "task_conns h (Socket fs ip c items) =
     [(c, case items of WsText first # _ \<Rightarrow> hello_device h (fs 0) first | _ \<Rightarrow> None)]"
| "task_conns h (RawTcp fs ip c lines) =
     [(c, case lines of first # _ \<Rightarrow> hello_device h (fs 0) first | [] \<Rightarrow> None)]"
| "task_conns h (Udp ds) =
     concat (map (\<lambda>(f, c, c', peer, buf). [(c, None), (c', datagram_device h f buf)]) ds)"

definition all_conns :: "host \<Rightarrow> task list \<Rightarrow> (conn \<times> string option) list" where
  "all_conns h tasks = concat (map (task_conns h) tasks)"

definition opened_for :: "host \<Rightarrow> task list \<Rightarrow> conn \<Rightarrow> string option" where
  "opened_for h tasks c = Option.bind (map_of (all_conns h tasks) c) id"

text \<open>What a task may do beyond the rest: import a backup, or bring integers that are not \<open>i64\<close>.\<close>

fun task_imports :: "task \<Rightarrow> bool" where
  "task_imports (Web f now auth req) = is_import req"
| "task_imports _ = False"

fun task_typed :: "task \<Rightarrow> bool" where
  "task_typed (Web f now auth req) = (clock_ok f \<and> request_ints_ok req)"
| "task_typed (Socket fs ip c items) = (\<forall>n. clock_ok (fs n))"
| "task_typed (RawTcp fs ip c lines) = (\<forall>n. clock_ok (fs n))"
| "task_typed (Udp ds) = (\<forall>(f, c, c', peer, buf) \<in> set ds. clock_ok f)"

section \<open>Every statement of every task is an abstract step\<close>

lemma datagram_conns:
  "(f, c, c', peer, buf) \<in> set ds \<Longrightarrow> (c', datagram_device h f buf) \<in> set (task_conns h (Udp ds))"
  by (induction ds) auto

lemma task_does:
  assumes "ty \<Longrightarrow> task_typed t" "task_imports t \<Longrightarrow> im"
    and "\<And>c i. (c, Some i) \<in> set (task_conns h t) \<Longrightarrow> mine i c"
  shows "udp_thread h tok im ty mine (task_thread h t)"
proof (cases t)
  case (Web f now auth req)
  then show ?thesis
    using assms by (auto intro!: guards_finished hub_on_app request_does)
next
  case (Socket fs ip c items)
  then show ?thesis
    using assms
    by (auto simp: handle_socket_t_def hello_device_def split: list.split ws_item.split option.split
        intro!: guards_finished guards_on_app session_does)
next
  case (RawTcp fs ip c lines)
  then show ?thesis
    using assms
    by (auto simp: handle_raw_tcp_t_def hello_device_def lib_def split: list.split option.split
        intro!: guards_finished guards_on_app session_does guards_checked)
next
  case (Udp ds)
  have "mine i c'" if "(f, c, c', peer, buf) \<in> set ds" "datagram_device h f buf = Some i"
    for f c c' peer buf i
    using datagram_conns [OF that(1), of h] that(2) assms(3) [of c' i] by (simp only: Udp)
  then show ?thesis
    using assms(1) by (auto simp: Udp intro!: guards_finished serve_udp_does)
qed

lemma opened_for_conns:
  assumes "distinct (map fst (all_conns h tasks))" "t \<in> set tasks" "(c, Some i) \<in> set (task_conns h t)"
  shows "opened_for h tasks c = Some i"
proof -
  have "(c, Some i) \<in> set (all_conns h tasks)"
    using assms(2,3) by (auto simp: all_conns_def)
  then show ?thesis
    using assms(1) by (simp add: opened_for_def)
qed

lemma tasks_do:
  assumes "distinct (map fst (all_conns h tasks))"
    and "\<forall>t \<in> set tasks. (ty \<longrightarrow> task_typed t) \<and> (task_imports t \<longrightarrow> im)"
  shows "\<forall>t \<in> set (map (task_thread h) tasks). udp_thread h tok im ty (\<lambda>i c. opened_for h tasks c = Some i) t"
  using assms(2) opened_for_conns [OF assms(1)] by (auto intro!: task_does)

text \<open>One turn of the pool; \<open>tok\<close> has the tokens of the devices.\<close>

lemma turn_does:
  assumes "pool_step (ts, u) (ts', u')" "\<forall>t \<in> set ts. udp_thread h tok im ty mine t"
    and "known_tokens tok (ud_app u)"
  shows "udp_does h tok im ty mine u u' \<and> (\<forall>t \<in> set ts'. udp_thread h tok im ty mine t)"
proof -
  obtain i t' where i: "i < length ts" "advance (ts ! i) u = (t', u')" "ts' = ts[i := t']"
    using assms(1) by (blast elim: pool_stepE)
  then have "udp_thread h tok im ty mine t' \<and> (udp_does h tok im ty mine u u' \<or> u' = u)"
    using guards_advance [OF _ i(2)] assms(2,3) nth_mem [OF i(1)] by blast
  with assms(2) i(3) show ?thesis
    by (auto dest!: set_update_subset_insert [THEN subsetD] simp: hub_stepI)
qed

text \<open>Where nothing depends on the tokens, any are known.\<close>

abbreviation any_token :: "string \<Rightarrow> string \<Rightarrow> bool" where
  "any_token \<equiv> \<lambda>_ _. True"

lemma known_any: "known_tokens any_token s"
  by (simp add: known_tokens_def)

lemma pool_does:
  assumes "pool_step\<^sup>*\<^sup>* (ts, u) (ts', u')" "\<forall>t \<in> set ts. udp_thread h any_token im ty mine t"
  shows "(\<lambda>u u'. udp_does h any_token im ty mine u u')\<^sup>*\<^sup>* u u' \<and>
    (\<forall>t \<in> set ts'. udp_thread h any_token im ty mine t)"
  using pool_guards [OF assms] by (simp add: known_any)

theorem schedule_does:
  assumes "\<forall>t \<in> set tasks. ty \<longrightarrow> task_typed t"
    and "pool_step\<^sup>*\<^sup>* (map (task_thread h) tasks, u) (ts, u')"
  shows "hub_does h any_token True ty (\<lambda>_ _. True) (ud_app u) (ud_app u')"
proof -
  have "\<forall>t \<in> set (map (task_thread h) tasks). udp_thread h any_token True ty (\<lambda>_ _. True) t"
    using assms(1) by (auto intro!: task_does)
  then have "(\<lambda>u u'. udp_does h any_token True ty (\<lambda>_ _. True) u u')\<^sup>*\<^sup>* u u'"
    using pool_does [OF assms(2)] by blast
  then show ?thesis
    by (induction rule: rtranclp_induct) (auto dest: hub_step_True)
qed

section \<open>What holds in every schedule\<close>

lemma hub_does_keeps:
  assumes "hub_does h tok im ty mine s s'" "P s"
    and "\<And>s s'. hub_move h tok im ty mine s s' \<Longrightarrow> P s \<Longrightarrow> P s'"
  shows "P s'"
  using assms(1,2) by (induction rule: rtranclp_induct) (auto intro: assms(3))

lemma move_hub_ok: "hub_move h tok im ty mine s s' \<Longrightarrow> hub_ok s \<Longrightarrow> hub_ok s'"
  by (induction rule: hub_move.induct) (auto simp: hub_ok_def db_move_def failures_ok_def)

lemma move_ints: "hub_move h tok im True mine s s' \<Longrightarrow> ints_ok (st_db s) \<Longrightarrow> ints_ok (st_db s')"
  by (induction rule: hub_move.induct) (auto simp: db_move_def)

lemma move_channels:
  "hub_move h tok im ty (\<lambda>i c. ow c = Some i) s s' \<Longrightarrow> channels_ok h tok ow s \<Longrightarrow> channels_ok h tok ow s'"
proof (induction rule: hub_move.induct)
  case (answer m s c)
  then have "message_for h tok (ow c) m"
    by (cases m) auto
  with answer show ?case
    by (auto simp: channels_ok_def)
qed (auto simp: channels_ok_def split: if_splits)

text \<open>Where no backup is imported, one turn moves each status by at most one step of the machine.\<close>

lemma moves_status:
  assumes "hub_does h tok False ty mine s s'" "hub_ok s"
  shows "lives (status_of (st_db s) i) (status_of (st_db s') i)"
proof -
  have "status_moves (st_db s) (st_db s')"
    by (rule hub_does_keeps [OF assms(1)])
      (use assms(2) in \<open>auto simp: hub_ok_def moved_start db_move_def elim!: hub_move.cases\<close>)
  then show ?thesis
    by (rule moved_status)
qed

lemma step_status:
  assumes "hub_step h tok False ty mine s s'" "hub_ok s"
  shows "status_of (st_db s') i = status_of (st_db s) i \<or>
    status_step (status_of (st_db s) i) (status_of (st_db s') i)"
  using assms(1) unfolding hub_step_def
proof
  assume "hub_does h tok False ty mine s s'"
  from moves_status [OF this assms(2), of i] show ?thesis
    by (auto simp: lives_def)
qed (simp add: enrols_status)

lemma step_hub_ok: "hub_step h tok im ty mine s s' \<Longrightarrow> hub_ok s \<Longrightarrow> hub_ok s'"
  unfolding hub_step_def by (auto intro: move_hub_ok elim: hub_does_keeps)

text \<open>The states of a pool of which no thread imports a backup.\<close>

definition quiet :: "host \<Rightarrow> (udp_state, unit) thread list \<times> udp_state \<Rightarrow> bool" where
  "quiet h p \<longleftrightarrow> hub_ok (ud_app (snd p)) \<and>
     (\<forall>t \<in> set (fst p). udp_thread h any_token False False (\<lambda>_ _. True) t)"

abbreviation pool_status :: "string \<Rightarrow> (udp_state, unit) thread list \<times> udp_state \<Rightarrow> string option" where
  "pool_status i p \<equiv> status_of (st_db (ud_app (snd p))) i"

lemma quiet_start:
  "hub_ok (ud_app u) \<Longrightarrow> \<forall>t \<in> set tasks. \<not> task_imports t \<Longrightarrow> quiet h (map (task_thread h) tasks, u)"
  by (auto simp: quiet_def intro!: task_does)

lemma quiet_step:
  assumes "pool_step p q" "quiet h p"
  shows "quiet h q \<and> (pool_status i q = pool_status i p \<or> status_step (pool_status i p) (pool_status i q))"
proof -
  obtain ts u ts' u' where pq: "p = (ts, u)" "q = (ts', u')"
    by force
  have "\<forall>t \<in> set ts. udp_thread h any_token False False (\<lambda>_ _. True) t" and ok: "hub_ok (ud_app u)"
    using assms(2) by (simp_all add: quiet_def pq)
  from turn_does [OF assms(1) [unfolded pq] this(1) known_any]
  have turn: "udp_does h any_token False False (\<lambda>_ _. True) u u'"
    "\<forall>t \<in> set ts'. udp_thread h any_token False False (\<lambda>_ _. True) t"
    by blast+
  then show ?thesis
    using step_hub_ok [OF turn(1) ok] step_status [OF turn(1) ok, of i] by (simp add: quiet_def pq)
qed

lemma quiet_run: "pool_step\<^sup>*\<^sup>* p q \<Longrightarrow> quiet h p \<Longrightarrow> quiet h q"
  by (induction rule: rtranclp_induct) (auto dest: quiet_step)

lemma quiet_known:
  assumes "pool_step\<^sup>*\<^sup>* p q" "quiet h p" "pred_option known_status (pool_status i p)"
  shows "pred_option known_status (pool_status i q)"
  using assms
proof (induction rule: rtranclp_induct)
  case (step q q')
  then show ?case
    using quiet_step [OF step.hyps(2) quiet_run [OF step.hyps(1)], of h i] step_known by fastforce
qed

text \<open>Along steps that leave the device there, a kicked device stays kicked.\<close>

lemma quiet_kicked:
  assumes "(\<lambda>p q. pool_step p q \<and> pool_status i q \<noteq> None)\<^sup>*\<^sup>* p q" "quiet h p"
    and "pool_status i p = Some ''kicked''"
  shows "quiet h q \<and> pool_status i q = Some ''kicked''"
  using assms
proof (induction rule: rtranclp_induct)
  case (step q q')
  then have "quiet h q" "pool_status i q = Some ''kicked''"
    by simp_all
  then show ?case
    using quiet_step [of q q' h i] step_kicked [of "pool_status i q'"] step.hyps(2) by auto
qed simp

text \<open>The states that the hub reaches, from its start, while it runs some list of tasks.\<close>

definition hub_init ::
    "host \<Rightarrow> task list \<Rightarrow> (udp_state, unit) thread list \<times> udp_state \<Rightarrow> bool" where
  "hub_init h tasks = (\<lambda>(ts, u). ts = map (task_thread h) tasks \<and> ud_peers u = (\<lambda>_. None) \<and>
     distinct (map fst (all_conns h tasks)) \<and>
     (\<exists>f cert dr d. db_ok d \<and> startup h f cert dr d = Inr (ud_app u)))"

text \<open>The tokens that the devices have at some point of a run.\<close>

definition seen_token ::
    "(udp_state, unit) thread list \<times> udp_state \<Rightarrow> (udp_state, unit) thread list \<times> udp_state \<Rightarrow>
     string \<Rightarrow> string \<Rightarrow> bool" where
  "seen_token p p' i t \<longleftrightarrow> (\<exists>ts u. pool_step\<^sup>*\<^sup>* p (ts, u) \<and> pool_step\<^sup>*\<^sup>* (ts, u) p' \<and>
     (\<exists>r \<in> set (db_devices (st_db (ud_app u))). dv_id r = i \<and> dv_device_token r = t))"

lemma seen_known:
  "pool_step\<^sup>*\<^sup>* p (ts, u) \<Longrightarrow> pool_step\<^sup>*\<^sup>* (ts, u) p' \<Longrightarrow> known_tokens (seen_token p p') (ud_app u)"
  unfolding known_tokens_def seen_token_def by blast

text \<open>
  What the started hub has and every abstract step keeps holds in every reachable state: for such a
  predicate, which may speak of the tokens of the run, the threads that are left keep doing abstract
  steps.
\<close>

locale hub_invariant =
  fixes h :: host and tasks :: "task list" and P :: "(string \<Rightarrow> string \<Rightarrow> bool) \<Rightarrow> app_state \<Rightarrow> bool"
  assumes started: "db_ok d \<Longrightarrow> startup h f cert dr d = Inr s \<Longrightarrow> P tok s"
    and kept: "hub_move h tok True False (\<lambda>i c. opened_for h tasks c = Some i) s s' \<Longrightarrow> P tok s \<Longrightarrow> P tok s'"
begin

lemma holds_after:
  assumes "hub_init h tasks p" "pool_step\<^sup>*\<^sup>* p (ts, u)"
  shows "P (seen_token p (ts, u)) (ud_app u)"
proof -
  let ?tok = "seen_token p (ts, u)" and ?mine = "\<lambda>i c. opened_for h tasks c = Some i"
  let ?Q = "\<lambda>q. P ?tok (ud_app (snd q)) \<and> (\<forall>t \<in> set (fst q). udp_thread h ?tok True False ?mine t)"
  have "?Q (ts, u)"
  proof (rule run_between [where Q = ?Q, OF assms(2)])
    show "?Q p"
      using assms(1) tasks_do [of h tasks False True ?tok] by (auto simp: hub_init_def intro: started)
  next
    fix x y
    assume run: "pool_step\<^sup>*\<^sup>* p x" "pool_step x y" "pool_step\<^sup>*\<^sup>* y (ts, u)" and Q: "?Q x"
    obtain xs v ys w where xy: "x = (xs, v)" "y = (ys, w)"
      by force
    have "known_tokens ?tok (ud_app v)"
      using seen_known [of p xs v "(ts, u)"] run unfolding xy by (meson converse_rtranclp_into_rtranclp)
    then have "udp_does h ?tok True False ?mine v w" "\<forall>t \<in> set ys. udp_thread h ?tok True False ?mine t"
      using turn_does [OF run(2) [unfolded xy]] Q by (simp_all add: xy)
    moreover from hub_step_True [OF this(1)] have "P ?tok (ud_app w)"
      by (rule hub_does_keeps) (use Q in \<open>auto simp: xy intro: kept\<close>)
    ultimately show "?Q y"
      by (simp add: xy)
  qed
  then show ?thesis
    by simp
qed

lemma holds: "reach (hub_init h tasks) pool_step (ts, u) \<Longrightarrow> \<exists>tok. P tok (ud_app u)"
  by (drule reach_run) (auto dest: holds_after)

end

interpretation constraints: hub_invariant h tasks "\<lambda>_. hub_ok" for h tasks
  by unfold_locales (auto intro: startup_ok move_hub_ok)

interpretation deliveries: hub_invariant h tasks "\<lambda>tok. channels_ok h tok (opened_for h tasks)" for h tasks
proof
  show "channels_ok h tok (opened_for h tasks) s"
    if "db_ok d" "startup h f cert dr d = Inr s" for d f cert dr s tok
    using startup_state [OF that(2)] by (auto simp: channels_ok_def new_state_def)
qed (rule move_channels)

end
