(* ===== verification/Http_Server.thy ===== *)
theory Http_Server
  imports Auth
begin

text \<open>
  \<open>src/http_server.rs\<close>: a listener tells TLS, the raw client protocol and plain HTTP apart by the
  first byte of a connection, and gives the byte back through a stream that replays it. The
  listeners, hyper and rustls are not modelled; a TCP stream is a parameter.
\<close>

section \<open>Streams\<close>

text \<open>A read returns at once with some bytes (none at the end of the stream) or an I/O error, or is
  not ready.\<close>

datatype 'a poll = Pending | Ready "error + 'a"

type_synonym 's reader = "'s \<Rightarrow> nat \<Rightarrow> bytes poll \<times> 's"

text \<open>
  The interface of a byte stream: \<open>content\<close> is what is still to come. A read returns a first part of
  it, not longer than the buffer, and nothing only at the end or into an empty buffer.
\<close>

definition stream_laws :: "'s reader \<Rightarrow> ('s \<Rightarrow> bytes) \<Rightarrow> bool" where
  "stream_laws rd content \<longleftrightarrow>
     (\<forall>s n r s'. rd s n = (r, s') \<longrightarrow>
        (case r of
           Ready (Inr bs) \<Rightarrow> length bs \<le> n \<and> content s = bs @ content s' \<and>
             (bs = [] \<longrightarrow> n = 0 \<or> content s = [])
         | _ \<Rightarrow> content s = content s'))"

fun poll_bytes :: "bytes poll \<Rightarrow> bytes" where
  "poll_bytes (Ready (Inr bs)) = bs"
| "poll_bytes _ = []"

text \<open>What a sequence of reads with the given buffer sizes returns in all.\<close>

fun read_all :: "'s reader \<Rightarrow> 's \<Rightarrow> nat list \<Rightarrow> bytes \<times> 's" where
  "read_all rd s [] = ([], s)"
| "read_all rd s (n # ns) =
     (case rd s n of (r, s') \<Rightarrow>
      case read_all rd s' ns of (bs, s'') \<Rightarrow> (poll_bytes r @ bs, s''))"

locale byte_stream =
  fixes rd :: "'s reader" and content :: "'s \<Rightarrow> bytes" and lawful :: bool
  assumes laws: "lawful \<Longrightarrow> stream_laws rd content"
begin

lemma read_splits:
  assumes "lawful" "rd s n = (r, s')"
  shows "content s = poll_bytes r @ content s'"
  using laws [OF assms(1)] assms(2)
  by (cases r rule: poll_bytes.cases) (fastforce simp: stream_laws_def)+

lemma read_all_splits:
  "lawful \<Longrightarrow> read_all rd s ns = (bs, s') \<Longrightarrow> content s = bs @ content s'"
proof (induction ns arbitrary: s bs)
  case (Cons n ns)
  then show ?case
    by (fastforce split: prod.splits dest: read_splits)
qed simp

end

section \<open>The stream that replays its prefix\<close>

record 's prefixed_stream =
  ps_prefix :: bytes
  ps_position :: nat
  ps_inner :: 's

definition prefixed_new :: "bytes \<Rightarrow> 's \<Rightarrow> 's prefixed_stream" where
  "prefixed_new prefix inner = \<lparr> ps_prefix = prefix, ps_position = 0, ps_inner = inner \<rparr>"

definition poll_read :: "'s reader \<Rightarrow> 's prefixed_stream reader" where
  "poll_read inner_read st remaining =
     (let pos = ps_position st; prefix_len = length (ps_prefix st) in
      if pos < prefix_len then
        let src = drop pos (ps_prefix st); len = min (length src) remaining in
        (Ready (Inr (take len src)), st\<lparr>ps_position := pos + len\<rparr>)
      else
        (case inner_read (ps_inner st) remaining of (r, inner) \<Rightarrow> (r, st\<lparr>ps_inner := inner\<rparr>)))"

definition prefixed_content :: "('s \<Rightarrow> bytes) \<Rightarrow> 's prefixed_stream \<Rightarrow> bytes" where
  "prefixed_content content st = drop (ps_position st) (ps_prefix st) @ content (ps_inner st)"

lemma prefixed_laws:
  assumes "stream_laws rd content"
  shows "stream_laws (poll_read rd) (prefixed_content content)"
proof -
  have "case r of
      Ready (Inr bs) \<Rightarrow> length bs \<le> n \<and> prefixed_content content s = bs @ prefixed_content content s' \<and>
        (bs = [] \<longrightarrow> n = 0 \<or> prefixed_content content s = [])
    | _ \<Rightarrow> prefixed_content content s = prefixed_content content s'"
    if read: "poll_read rd s n = (r, s')" for s n r s'
  proof (cases "ps_position s < length (ps_prefix s)")
    case True
    define src where "src = drop (ps_position s) (ps_prefix s)"
    have r: "r = Ready (Inr (take (min (length src) n) src))"
      and s': "s' = s\<lparr>ps_position := ps_position s + min (length src) n\<rparr>"
      using read True by (simp_all add: poll_read_def Let_def src_def)
    have "src \<noteq> []"
      using True by (simp add: src_def)
    moreover have "drop (ps_position s + min (length src) n) (ps_prefix s) = drop (min (length src) n) src"
      by (simp add: src_def add.commute)
    moreover have "src = take (min (length src) n) src @ drop (min (length src) n) src"
      by simp
    ultimately show ?thesis
      unfolding r s' by (auto simp: prefixed_content_def src_def [symmetric] min_def split: if_splits)
  next
    case False
    obtain q inner where q: "rd (ps_inner s) n = (q, inner)"
      by force
    then have "r = q" "s' = s\<lparr>ps_inner := inner\<rparr>"
      using read False by (simp_all add: poll_read_def)
    with q False assms show ?thesis
      by (fastforce simp: prefixed_content_def stream_laws_def split: poll.splits sum.splits)
  qed
  then show ?thesis
    by (simp add: stream_laws_def)
qed

interpretation prefixed: byte_stream
    "poll_read inner" "prefixed_content content" "stream_laws inner content" for inner content
  by unfold_locales (rule prefixed_laws)

text \<open>\<open>AsyncWrite\<close>: a write, a flush and a shutdown go to the connection.\<close>

type_synonym ('s, 'a) stream_op = "'s \<Rightarrow> 'a poll \<times> 's"

definition on_inner :: "('s, 'a) stream_op \<Rightarrow> ('s prefixed_stream, 'a) stream_op" where
  "on_inner f st = (case f (ps_inner st) of (r, inner) \<Rightarrow> (r, st\<lparr>ps_inner := inner\<rparr>))"

definition poll_write :: "(bytes \<Rightarrow> ('s, nat) stream_op) \<Rightarrow> bytes \<Rightarrow> ('s prefixed_stream, nat) stream_op" where
  "poll_write inner_write buf = on_inner (inner_write buf)"

definition poll_flush :: "('s, unit) stream_op \<Rightarrow> ('s prefixed_stream, unit) stream_op" where
  "poll_flush inner_flush = on_inner inner_flush"

definition poll_shutdown :: "('s, unit) stream_op \<Rightarrow> ('s prefixed_stream, unit) stream_op" where
  "poll_shutdown inner_shutdown = on_inner inner_shutdown"

text \<open>An operation that leaves what the connection delivers leaves what the stream delivers.\<close>

lemma on_inner_content:
  assumes "\<And>s. content (snd (f s)) = content s"
  shows "prefixed_content content (snd (on_inner f st)) = prefixed_content content st"
  using assms [of "ps_inner st"] by (auto simp: on_inner_def prefixed_content_def split: prod.splits)

lemmas writes_content =
  on_inner_content [of _ "w buf" for w buf, folded poll_write_def]
  on_inner_content [of _ f for f, folded poll_flush_def]
  on_inner_content [of _ f for f, folded poll_shutdown_def]

section \<open>Telling the protocols apart\<close>

text \<open>What \<open>serve_one\<close> does with a connection: \<open>first\<close> is what the first read of one byte returned,
  \<open>has_raw\<close> whether the listener has a handler for raw connections.\<close>

datatype 's served = Closed | Tls "'s prefixed_stream" | RawTcp "'s prefixed_stream"
  | PlainHttp "'s prefixed_stream"

definition serve_one :: "bool \<Rightarrow> bytes \<Rightarrow> 's \<Rightarrow> 's served" where
  "serve_one has_raw first stream =
     (case first of
        [] \<Rightarrow> Closed
      | b # _ \<Rightarrow>
          let prefixed = prefixed_new first stream in
          if b = 0x16 then Tls prefixed
          else if b = byte_of_char (CHR ''{'') then
            (if has_raw then RawTcp prefixed else PlainHttp prefixed)
          else PlainHttp prefixed)"

fun served_stream :: "'s served \<Rightarrow> 's prefixed_stream option" where
  "served_stream Closed = None"
| "served_stream (Tls st) = Some st"
| "served_stream (RawTcp st) = Some st"
| "served_stream (PlainHttp st) = Some st"

lemma prefixed_new_content [simp]:
  "prefixed_content content (prefixed_new bs s) = bs @ content s"
  by (simp add: prefixed_content_def prefixed_new_def)

lemma served_stream_new:
  "served_stream (serve_one has_raw first s) = Some st \<Longrightarrow> st = prefixed_new first s"
  by (auto simp: serve_one_def Let_def split: list.splits if_splits)

text \<open>\<open>load_private_key\<close>: the first PKCS\#8 key of the file, else the first RSA key; the two
  parsers are rustls-pemfile's.\<close>

definition load_private_key ::
    "(bytes \<Rightarrow> (error + 'k) list) \<Rightarrow> (bytes \<Rightarrow> (error + 'k) list) \<Rightarrow> bytes \<Rightarrow> error + 'k" where
  "load_private_key pkcs8_private_keys rsa_private_keys key_pem =
     (case pkcs8_private_keys key_pem of
        key # _ \<Rightarrow> key
      | [] \<Rightarrow>
          (case rsa_private_keys key_pem of
             key # _ \<Rightarrow> key
           | [] \<Rightarrow> Inl (Bail ''tls private key missing'')))"

text \<open>\<open>tls_config\<close>: the certificates and the key, given to rustls. The parsers and the builder are
  those of the crates.\<close>

record ('c, 'k, 't) tls_library =
  tl_certs :: "bytes \<Rightarrow> (error + 'c) list"
  tl_pkcs8_private_keys :: "bytes \<Rightarrow> (error + 'k) list"
  tl_rsa_private_keys :: "bytes \<Rightarrow> (error + 'k) list"
  tl_with_single_cert :: "'c list \<Rightarrow> 'k \<Rightarrow> error + 't"

fun collect_results :: "(error + 'c) list \<Rightarrow> error + 'c list" where
  "collect_results [] = Inr []"
| "collect_results (r # rs) =
     result_then r (\<lambda>x. result_then (collect_results rs) (\<lambda>xs. Inr (x # xs)))"

definition tls_config :: "('c, 'k, 't) tls_library \<Rightarrow> bytes \<Rightarrow> bytes \<Rightarrow> error + 't" where
  "tls_config rustls cert_pem key_pem =
     result_then (collect_results (tl_certs rustls cert_pem)) (\<lambda>certs.
     result_then (load_private_key (tl_pkcs8_private_keys rustls) (tl_rsa_private_keys rustls) key_pem) (\<lambda>key.
     tl_with_single_cert rustls certs key))"

text \<open>\<open>serve_auto_tls_with_raw\<close> up to its loop: the address is bound, then the configuration built.
  A listener hands every connection it accepts to \<open>serve_one\<close>.\<close>

record 't listener =
  li_addr :: "string \<times> nat"
  li_tls :: 't
  li_raw_tcp :: bool

definition serve_auto_tls_with_raw ::
    "('c, 'k, 't) tls_library \<Rightarrow> (string \<times> nat \<Rightarrow> error + unit) \<Rightarrow> string \<times> nat \<Rightarrow> bytes \<Rightarrow> bytes \<Rightarrow> bool \<Rightarrow>
     error + 't listener" where
  "serve_auto_tls_with_raw rustls bind addr cert_pem key_pem raw_tcp =
     result_then (bind addr) (\<lambda>_.
     result_then (tls_config rustls cert_pem key_pem) (\<lambda>tls.
     Inr \<lparr> li_addr = addr, li_tls = tls, li_raw_tcp = raw_tcp \<rparr>))"

definition serve_auto_tls ::
    "('c, 'k, 't) tls_library \<Rightarrow> (string \<times> nat \<Rightarrow> error + unit) \<Rightarrow> string \<times> nat \<Rightarrow> bytes \<Rightarrow> bytes \<Rightarrow>
     error + 't listener" where
  "serve_auto_tls rustls bind addr cert_pem key_pem =
     serve_auto_tls_with_raw rustls bind addr cert_pem key_pem False"

definition accept_connection :: "'t listener \<Rightarrow> bytes \<Rightarrow> 's \<Rightarrow> 's served" where
  "accept_connection l first stream = serve_one (li_raw_tcp l) first stream"

end
