(* ===== verification/Db_Init.thy ===== *)
theory Db_Init
  imports Db_Backup
begin

text \<open>
  \<open>Database::init\<close> of \<open>src/db.rs\<close>: the statements of \<open>SCHEMA\<close> and the columns that files of older
  versions lack. A tables is the list of its tables with their columns; afterwards it has every table and
  column that the rows of the model have, whether it was new, current or written by an older version.
\<close>

type_synonym db_file = "(string \<times> string list) list"

text \<open>The tables of \<open>SCHEMA\<close>, in its order.\<close>

definition schema_tables :: db_file where
  "schema_tables =
     [(''users'', [''id'', ''username'', ''password'', ''role'', ''created_at'']),
      (''rooms'', [''id'', ''name'', ''owner_id'', ''created_at'']),
      (''groups'', [''id'', ''room_id'', ''name'', ''encrypted_token'', ''encrypted_server'',
         ''encrypted_password'', ''extra_config'', ''config_version'', ''created_at'', ''updated_at'']),
      (''devices'', [''id'', ''room_id'', ''group_id'', ''display_name'', ''client_version'',
         ''console_public_ip'', ''network_ip'', ''network_node_id'', ''device_token'', ''last_seen'',
         ''status'', ''vnts_status'', ''vnts_error'', ''vnts_updated_at'', ''config_version'', ''up_stream'',
         ''down_stream'', ''traffic_updated_at'', ''created_at'']),
      (''events'', [''id'', ''device_id'', ''event_type'', ''payload'', ''created_at'']),
      (''config_pushes'', [''id'', ''device_id'', ''group_id'', ''config_snapshot'', ''pushed_at'', ''acked'']),
      (''sessions'', [''token'', ''user_id'', ''created_at'', ''expires_at'']),
      (''system_config'', [''key'', ''value'', ''updated_at''])]"

text \<open>\<open>CREATE TABLE IF NOT EXISTS\<close>.\<close>

definition create_table :: "string \<times> string list \<Rightarrow> db_file \<Rightarrow> db_file" where
  "create_table t tables = (if fst t \<in> fst ` set tables then tables else tables @ [t])"

definition init :: "db_file \<Rightarrow> db_file" where
  "init tables = map (\<lambda>(t, columns). if t = ''devices'' then (t, ensure_device_runtime_columns columns)
       else (t, columns)) (fold create_table schema_tables tables)"

lemma create_table_names [simp]: "fst ` set (create_table t tables) = insert (fst t) (fst ` set tables)"
  by (auto simp: create_table_def)

lemma create_tables_names: "fst ` set (fold create_table ts tables) = fst ` set ts \<union> fst ` set tables"
  by (induction ts arbitrary: tables) (auto simp: image_iff)

lemma create_table_known: "fst t \<in> fst ` set tables \<Longrightarrow> create_table t tables = tables"
  by (simp add: create_table_def)

lemma create_tables_known: "fst ` set ts \<subseteq> fst ` set tables \<Longrightarrow> fold create_table ts tables = tables"
  by (induction ts) (auto simp: create_table_known)

lemma fst_devices_map [simp]:
  "fst ` set (map (\<lambda>(t, columns). if t = ''devices'' then (t, f columns) else (t, columns)) tables) = fst ` set tables"
  by (force simp: image_iff split: if_splits)

lemma runtime_columns_added:
  "set (ensure_device_runtime_columns names) = set names \<union> set runtime_columns"
proof -
  have "set (fold (\<lambda>n cols. if n \<in> set names then cols else cols @ [n]) ns cols) =
      set cols \<union> (set ns - set names)" for ns cols
    by (induction ns arbitrary: cols) auto
  then show ?thesis
    unfolding ensure_device_runtime_columns_def by auto
qed

lemma runtime_columns_known:
  assumes "set runtime_columns \<subseteq> set names"
  shows "ensure_device_runtime_columns names = names"
proof -
  have "set ns \<subseteq> set names \<Longrightarrow> fold (\<lambda>n cols. if n \<in> set names then cols else cols @ [n]) ns cols = cols" for ns cols
    by (induction ns arbitrary: cols) auto
  then show ?thesis
    using assms unfolding ensure_device_runtime_columns_def by auto
qed

text \<open>A new file gets the schema, and a second start changes nothing.\<close>

theorem init_new_file: "init [] = schema_tables"
  by (simp add: init_def schema_tables_def create_table_def ensure_device_runtime_columns_def runtime_columns_def)

theorem init_twice: "init (init tables) = init tables"
proof -
  have "fold create_table schema_tables (init tables) = init tables"
    by (rule create_tables_known) (simp only: init_def fst_devices_map create_tables_names, blast)
  then have "init (init tables) = map (\<lambda>(t, columns). if t = ''devices'' then (t, ensure_device_runtime_columns columns)
       else (t, columns)) (init tables)"
    unfolding init_def [of "init tables"] by simp
  also have "\<dots> = init tables"
    unfolding init_def by (auto simp: runtime_columns_added runtime_columns_known split: prod.splits)
  finally show ?thesis .
qed

text \<open>The columns of the model's rows are those of the schema.\<close>

theorem schema_of_rows:
  "map_of schema_tables ''users'' = Some (map fst (user_columns u))"
  "map_of schema_tables ''rooms'' = Some (map fst (room_columns r))"
  "map_of schema_tables ''groups'' = Some (map fst (group_columns g))"
  "map_of schema_tables ''devices'' = Some (map fst (device_columns v))"
  "map_of schema_tables ''events'' = Some (map fst (event_columns e))"
  "map_of schema_tables ''config_pushes'' = Some (map fst (push_columns p))"
  "map_of schema_tables ''system_config'' = Some (map fst (system_columns y))"
  by (simp_all add: schema_tables_def user_columns_def room_columns_def group_columns_def device_columns_def
      event_columns_def push_columns_def system_columns_def)

text \<open>A file whose devices lack any of the columns that \<open>init\<close> knows has all columns of a device.\<close>

theorem init_old_file:
  assumes "(''devices'', columns) \<in> set tables"
    and "set (map fst (device_columns v)) - set runtime_columns \<subseteq> set columns"
  shows "\<exists>columns'. (''devices'', columns') \<in> set (init tables) \<and> set (map fst (device_columns v)) \<subseteq> set columns'"
proof -
  have "set tables \<subseteq> set (fold create_table ts tables)" for ts
    by (induction ts arbitrary: tables) (fastforce simp: create_table_def)+
  then have "(''devices'', ensure_device_runtime_columns columns) \<in> set (init tables)"
    using assms(1) by (force simp: init_def)
  moreover have "set (map fst (device_columns v)) \<subseteq> set (ensure_device_runtime_columns columns)"
    using assms(2) by (auto simp: runtime_columns_added)
  ultimately show ?thesis
    by blast
qed

end
