(* ===== verification/Launch.thy ===== *)
theory Launch
  imports Hub Http_Server Db_Init
begin

text \<open>
  \<open>src/main.rs\<close> and \<open>src/config.rs\<close>: the command line, the choice of the log, and the start of the
  three servers on the state that start-up has prepared. Parsing of addresses, the sockets and the
  libraries of TLS are parameters.
\<close>

section \<open>The command line\<close>

record args =
  ar_listen :: string
  ar_console_listen :: string
  ar_db :: string
  ar_disable_register :: bool
  ar_log_path :: string

text \<open>The arguments when nothing is given.\<close>

definition default_args :: args where
  "default_args = \<lparr> ar_listen = ''0.0.0.0:29876'', ar_console_listen = ''0.0.0.0:29878'',
     ar_db = ''./vnt-hub.db'', ar_disable_register = False, ar_log_path = ''console'' \<rparr>"

text \<open>Where \<open>init_log\<close> sends the log.\<close>

datatype log_target = LogConsole | LogNothing | LogConfigFile string

definition init_log :: "string \<Rightarrow> log_target" where
  "init_log log_path =
     (if log_path = ''console'' then LogConsole
      else if log_path = ''/dev/null'' then LogNothing
      else LogConfigFile log_path)"

section \<open>The servers\<close>

record 't running =
  ru_log :: log_target
  ru_state :: app_state
  ru_web :: "'t listener"
  ru_console :: "'t listener"
  ru_udp :: sock_addr

text \<open>
  \<open>main\<close>, with the database after \<open>init\<close>. The certificate and key are those that start-up read; the
  three servers of \<open>try_join!\<close> start in the order of the code, and the first error ends the program.
\<close>

definition launch ::
    "('c, 'k, 't) tls_library \<Rightarrow> (string \<Rightarrow> sock_addr option) \<Rightarrow> (sock_addr \<Rightarrow> error + unit) \<Rightarrow>
     (sock_addr \<Rightarrow> error + unit) \<Rightarrow> host \<Rightarrow> fresh \<Rightarrow> (string \<times> string) option \<Rightarrow> args \<Rightarrow> database \<Rightarrow>
     error + 't running" where
  "launch rustls parse bind bind_udp h f certificate args d =
     result_then (startup h f certificate (ar_disable_register args) d) (\<lambda>s.
     result_then (fst (tls_pem h (st_db s))) (\<lambda>(cert_pem, key_pem).
     result_then (ok_or (Bail (''invalid --listen '' @ ar_listen args)) (parse (ar_listen args))) (\<lambda>web_addr.
     result_then (ok_or (Bail (''invalid --console-listen '' @ ar_console_listen args))
       (parse (ar_console_listen args))) (\<lambda>console_addr.
     result_then (serve_auto_tls rustls bind web_addr cert_pem key_pem) (\<lambda>web.
     result_then (serve_auto_tls_with_raw rustls bind console_addr cert_pem key_pem True) (\<lambda>console.
     result_then (bind_udp console_addr) (\<lambda>_.
     Inr \<lparr> ru_log = init_log (ar_log_path args), ru_state = s, ru_web = web, ru_console = console,
           ru_udp = console_addr \<rparr>)))))))"

lemma serve_auto_tls_Inr:
  "serve_auto_tls_with_raw rustls bind addr c k raw = Inr l \<longleftrightarrow>
     bind addr = Inr () \<and> (\<exists>t. tls_config rustls c k = Inr t \<and>
       l = \<lparr> li_addr = addr, li_tls = t, li_raw_tcp = raw \<rparr>)"
  by (auto simp: serve_auto_tls_with_raw_def result_then_Inr)

text \<open>What runs after a successful launch.\<close>

lemma launch_Inr:
  assumes "launch rustls parse bind bind_udp h f cert args d = Inr r"
  shows "startup h f cert (ar_disable_register args) d = Inr (ru_state r)"
    and "\<exists>c k t. fst (tls_pem h (st_db (ru_state r))) = Inr (c, k) \<and> tls_config rustls c k = Inr t \<and>
      li_tls (ru_web r) = t \<and> li_tls (ru_console r) = t"
    and "parse (ar_listen args) = Some (li_addr (ru_web r))"
    and "parse (ar_console_listen args) = Some (li_addr (ru_console r))"
    and "ru_udp r = li_addr (ru_console r)" "\<not> li_raw_tcp (ru_web r)" "li_raw_tcp (ru_console r)"
  using assms
  by (auto simp: launch_def result_then_Inr serve_auto_tls_def serve_auto_tls_Inr split: prod.splits)

text \<open>An address that does not parse stops the program before anything listens.\<close>

lemma launch_invalid_address:
  assumes "startup h f cert (ar_disable_register args) d = Inr s" "parse (ar_listen args) = None"
  shows "launch rustls parse bind bind_udp h f cert args d =
    Inl (Bail (''invalid --listen '' @ ar_listen args))"
  using startup_steps [OF assms(1)] assms by (auto simp: launch_def)

text \<open>On the web listener nothing is taken for the raw protocol; on the other one a \<open>{\<close> is.\<close>

lemma accepted_by_launched:
  assumes "launch rustls parse bind bind_udp h f cert args d = Inr r"
  shows "accept_connection (ru_web r) first st \<noteq> RawTcp ps"
    and "accept_connection (ru_console r) (byte_of_char (CHR ''{'') # bs) st =
      RawTcp (prefixed_new (byte_of_char (CHR ''{'') # bs) st)"
  using launch_Inr(6,7) [OF assms]
  by (auto simp: accept_connection_def serve_one_def Let_def byte_of_char_def split: list.splits)

end
