(* ===== verification/Interleaving.thy ===== *)
theory Interleaving
  imports Client_Threads
begin

text \<open>
  What interference does to handlers: schedules of two or more threads in which the outcome is not
  that of running them one after the other.
\<close>

section \<open>Logins\<close>

lemma login_thread_ok: "thread_keeps hub_ok (login_thread h f fwd req)"
  unfolding login_thread_def login_lookup_def login_verify_def find_user_def Let_def
  by (intro keeps_intro hub_db)

text \<open>The answer of a login that passed the check.\<close>

definition login_answer :: "host \<Rightarrow> fresh \<Rightarrow> login_request \<Rightarrow> database \<Rightarrow> status_code + string" where
  "login_answer h f req d =
     (case credentials h req d of
        None \<Rightarrow> Inl UNAUTHORIZED
      | Some (uid, role) \<Rightarrow>
          (case sign h (fr_clock f 1) uid (lr_username req) role of
             Inl _ \<Rightarrow> Inl INTERNAL_SERVER_ERROR
           | Inr access_token \<Rightarrow> Inr access_token))"

definition found_user :: "login_request \<Rightarrow> database \<Rightarrow> (string \<times> string \<times> string) option" where
  "found_user req d = map_option (\<lambda>u. (us_id u, us_password u, us_role u))
     (fetch_optional (\<lambda>u. us_username u = lr_username req) (db_users d))"

lemma login_steps:
  "\<not> locked_out (fr_clock f 0) (login_failure_key fwd) s \<Longrightarrow>
     advance (login_thread h f fwd req) s = (login_lookup h f fwd req, s)"
  "advance (login_lookup h f fwd req) s = (login_verify h f fwd req (found_user req (st_db s)), s)"
  "\<exists>s'. advance (login_verify h f fwd req (found_user req d)) s = (Done (login_answer h f req d), s') \<and>
     st_db s' = st_db s"
  by (auto simp: login_thread_def login_lookup_def login_verify_def Let_def advance_atomic find_user_def
      found_user_def login_answer_def credentials_def split: option.splits)

lemma rounds:
  assumes "list_all2 (\<lambda>t t'. \<forall>u. P u \<longrightarrow> (\<exists>u'. advance t u = (t', u') \<and> P u')) ts ts'" and "P s"
  shows "\<exists>s'. pool_step\<^sup>*\<^sup>* (ts, s) (ts', s') \<and> P s'"
  using pool_round [OF assms, of "[]"] by simp

text \<open>Any number of logins that arrive together are all evaluated.\<close>

lemma logins_together:
  assumes "\<forall>(f, fwd, req) \<in> set rs. \<not> locked_out (fr_clock f 0) (login_failure_key fwd) s"
  shows "\<exists>s'. pool_step\<^sup>*\<^sup>* (map (\<lambda>(f, fwd, req). login_thread h f fwd req) rs, s)
      (map (\<lambda>(f, fwd, req). Done (login_answer h f req (st_db s))) rs, s') \<and> st_db s' = st_db s"
proof -
  let ?t0 = "map (\<lambda>(f, fwd, req). login_thread h f fwd req) rs"
  let ?t1 = "map (\<lambda>(f, fwd, req). login_lookup h f fwd req) rs"
  let ?t2 = "map (\<lambda>(f, fwd, req). login_verify h f fwd req (found_user req (st_db s))) rs"
  let ?t3 = "map (\<lambda>(f, fwd, req). Done (login_answer h f req (st_db s))) rs"
  have "\<exists>s'. pool_step\<^sup>*\<^sup>* (?t0, s) (?t1, s') \<and> s' = s"
    by (rule rounds) (use assms in \<open>auto simp: list_all2_conv_all_nth login_steps(1) split_beta
      dest!: nth_mem\<close>)
  moreover have "\<exists>s'. pool_step\<^sup>*\<^sup>* (?t1, s) (?t2, s') \<and> s' = s"
    by (rule rounds) (auto simp: list_all2_conv_all_nth login_steps(2) split_beta)
  moreover have "\<exists>s'. pool_step\<^sup>*\<^sup>* (?t2, s) (?t3, s') \<and> st_db s' = st_db s"
    by (rule rounds) (use login_steps(3) in \<open>fastforce simp: list_all2_conv_all_nth split_beta\<close>)+
  ultimately show ?thesis
    by (meson rtranclp_trans)
qed

section \<open>An update of a group\<close>

text \<open>After its first step an update has fixed everything it will write; the row that it changes
  by then may be another.\<close>

lemma update_group_reads:
  assumes upd: "update_group h ns now rid gid req d = (Inr g, d')"
  obtains f r where
    "advance (update_group_thread h ns now rid gid req) d =
       (atomic (update_groups (\<lambda>g. gr_id g = gid \<and> gr_room_id g = rid) f) (\<lambda>_. Done (Inr g)), d)"
    "fetch_optional (\<lambda>g. gr_id g = gid \<and> gr_room_id g = rid) (db_groups d) = Some r"
    "grp_config_version g = i64_add (gr_config_version r) 1"
    "d' = d\<lparr>db_groups := update_where (\<lambda>g. gr_id g = gid \<and> gr_room_id g = rid) f (db_groups d)\<rparr>"
    "\<And>x. gr_config_version (f x) = grp_config_version g" "\<And>x. gr_id (f x) = gr_id x"
    "\<And>x. gr_room_id (f x) = gr_room_id x" "\<And>x. gr_name (f x) = grp_name g"
    "\<And>x y. ug_config req \<noteq> None \<Longrightarrow> gr_id x = gr_id y \<Longrightarrow> decrypt_row h (f x) = decrypt_row h (f y)"
proof -
  obtain n1 n2 n3 n4 where ns: "ns = (n1, n2, n3, n4)"
    by (cases ns) auto
  show ?thesis
  proof (cases "ug_config req")
    case None
    with upd ns show ?thesis
      by (auto simp: update_group_def update_group_thread_def Let_def advance_atomic andthen_def
          update_groups_def split: option.splits sum.splits intro!: that)
  next
    case (Some c)
    with upd ns show ?thesis
      by (auto simp: update_group_def update_group_thread_def Let_def advance_atomic andthen_def
          update_groups_def decrypt_row_def result_then_Inr split: option.splits sum.splits intro!: that)
  qed
qed

lemma update_group_thread_ok: "thread_keeps db_ok (update_group_thread h ns t rid gid q)"
  unfolding update_group_thread_def Let_def by (intro keeps_intro; simp)

text \<open>Whatever runs between the two statements, the update writes what it has fixed.\<close>

lemma update_overwrites:
  assumes ok: "db_ok d" and upd: "update_group h ns t rid gid q d = (Inr g, d1)"
    and other: "alone w d = (r, d2)"
    and still: "row_by gr_id gid (db_groups d2) = Some x" "gr_room_id x = rid"
    and laws: "cipher_laws h" "nonces_ok ns" "config_storable h c" and c: "ug_config q = Some c"
  shows "(\<exists>d' y. pool_step\<^sup>*\<^sup>* ([update_group_thread h ns t rid gid q, w], d) ([Done (Inr g), Done r], d') \<and>
      row_by gr_id gid (db_groups d') = Some y \<and> gr_config_version y = grp_config_version g \<and>
      decrypt_row h y = Inr (Some c)) \<and>
    (\<exists>v. row_by gr_id gid (db_groups d) = Some v \<and> grp_config_version g = i64_add (gr_config_version v) 1)"
proof -
  let ?P = "\<lambda>g. gr_id g = gid \<and> gr_room_id g = rid"
  obtain f v where read: "advance (update_group_thread h ns t rid gid q) d =
      (atomic (update_groups ?P f) (\<lambda>_. Done (Inr g)), d)"
    and v: "fetch_optional ?P (db_groups d) = Some v"
    and version: "grp_config_version g = i64_add (gr_config_version v) 1"
    and d1: "d1 = d\<lparr>db_groups := update_where ?P f (db_groups d)\<rparr>"
    and f: "\<And>x. gr_config_version (f x) = grp_config_version g" "\<And>x. gr_id (f x) = gr_id x"
      "\<And>x y. ug_config q \<noteq> None \<Longrightarrow> gr_id x = gr_id y \<Longrightarrow> decrypt_row h (f x) = decrypt_row h (f y)"
    by (rule update_group_reads [OF upd], rule that) (assumption | blast)+
  have row: "row_by gr_id gid (db_groups d) = Some v" "gr_room_id v = rid" "gr_id v = gid"
    using v groups_t.fetch_by_key [OF ok] by (auto dest: row_by_Some split: option.splits if_splits)
  define d' where "d' = d2\<lparr>db_groups := update_where ?P f (db_groups d2)\<rparr>"
  let ?T = "update_group_thread h ns t rid gid q" and ?U = "atomic (update_groups ?P f) (\<lambda>_. Done (Inr g))"
  have "pool_step ([?T, w], d) ([?U, w], d)"
    using pool_step_at [OF read, of "[]" "[w]"] by simp
  moreover have "pool_step\<^sup>*\<^sup>* ([?U, w], d) ([?U, Done r], d2)"
    using pool_runs [OF runs_alone [OF other], of "[?U]" "[]"] by simp
  moreover have "pool_step ([?U, Done r], d2) ([Done (Inr g), Done r], d')"
    using pool_step_at [of ?U d2 _ _ "[]" "[Done r]"] by (simp add: advance_atomic update_groups_def d'_def)
  ultimately have run: "pool_step\<^sup>*\<^sup>* ([?T, w], d) ([Done (Inr g), Done r], d')"
    by (meson converse_rtranclp_into_rtranclp rtranclp.rtrancl_into_rtrancl)
  have "row_by gr_id gid (db_groups d') = Some (f x)"
    using still by (simp add: d'_def row_by_update_where f row_by_Some)
  moreover have "decrypt_row h (f x) = Inr (Some c)"
  proof -
    have "row_by gr_id gid (db_groups d1) = Some (f v)"
      using row by (simp add: d1 row_by_update_where f)
    moreover obtain r' et es ep ec where "row_by gr_id gid (db_groups d1) = Some r'"
      "row_holds h ns gid c et es ep ec" "gr_encrypted_token r' = Some et"
      "gr_encrypted_server r' = Some es" "gr_encrypted_password r' = ep" "gr_extra_config r' = Some ec"
      by (rule update_group_Inr [OF ok upd]) (use c in auto)
    ultimately have "decrypt_row h (f v) = Inr (Some c)"
      using decrypt_row_holds [OF laws] row(3) by (simp add: decrypt_row_def f)
    then show ?thesis
      using f(3) [of x v] c row(3) row_by_Some [OF still(1)] by simp
  qed
  ultimately show ?thesis
    using run f(1) row version by blast
qed

end
