(* ===== verification/Races.thy ===== *)
theory Races
  imports Interleaving Device_Flow Typed_Rows
begin

text \<open>
  Schedules in which devices and backups come to harm: a session that ends after a newer one of the
  same device has begun, a kick in the middle of a hello, and an export between whose reads a room is
  created.
\<close>

section \<open>Sessions\<close>

text \<open>What is left of a session that has been opened.\<close>

definition session_rest ::
    "host \<Rightarrow> (nat \<Rightarrow> fresh) \<Rightarrow> string \<Rightarrow> client_message list \<Rightarrow> (app_state, error + unit) thread" where
  "session_rest h fs i ms = then_t (session_loop_t h fs i 1 ms) (\<lambda>_. session_close_t i)"

lemma session_opens:
  assumes "session_open h (fs 0) ip m c s = (Inr (Some i), s')"
  shows "runs (handle_client_session_t h fs ip m c ms, s) (session_rest h fs i ms, s')"
proof -
  have "runs (session_open_t h (fs 0) ip m c, s) (give (Some i), s')"
    by (rule runs_alone) (simp add: assms)
  from runs_then [OF this, of "\<lambda>r. case r of None \<Rightarrow> give () | Some i \<Rightarrow> session_rest h fs i ms"]
  show ?thesis
    unfolding handle_client_session_t_def session_rest_def
    by (simp only: then_t.simps checked_simps option.case)
qed

text \<open>The hello is answered before the channel is registered.\<close>

lemma session_hello:
  assumes "handle_client_hello h (fs 0) ip m c s = (Inr (Some (i, status)), s1)" "status \<noteq> ''kicked''"
    and "andthen (insert_client i c) (\<lambda>_.
      andthen (attempt (push_current_config_if_needed h (fresh_from (fs 0) 1) i)) (\<lambda>_.
      ret (Some i))) s2 = (Inr (Some i) :: error + string option, s3)"
  shows "\<exists>t. runs (handle_client_session_t h fs ip m c ms, s) (t, s1) \<and>
    runs (t, s2) (session_rest h fs i ms, s3)"
proof -
  let ?k = "\<lambda>r. case r of None \<Rightarrow> give () | Some i \<Rightarrow> session_rest h fs i ms"
  let ?t = "atomic (insert_client i c) (\<lambda>_. then_t (attempt_t
    (push_current_config_if_needed_t h (fresh_from (fs 0) 1) i)) (\<lambda>_. give (Some i))) ::
    (app_state, error + string option) thread"
  have "runs (handle_client_hello_t h (fs 0) ip m c, s) (give (Some (i, status)), s1)"
    by (rule runs_alone) (simp add: assms)
  from runs_then [OF runs_then [OF this], of "\<lambda>r. case r of None \<Rightarrow> give None
      | Some (i, status) \<Rightarrow> if status = ''kicked'' then give None else
          atomic (insert_client i c) (\<lambda>_. then_t (attempt_t
            (push_current_config_if_needed_t h (fresh_from (fs 0) 1) i)) (\<lambda>_. give (Some i)))" ?k]
  have "runs (handle_client_session_t h fs ip m c ms, s) (then_t ?t ?k, s1)"
    unfolding handle_client_session_t_def session_open_t_def session_rest_def
    by (simp only: then_t.simps checked_simps option.case prod.case if_not_P [OF assms(2)])
  moreover have "runs (?t, s2) (give (Some i), s3)"
    by (rule runs_alone, simp del: One_nat_def, rule assms(3))
  from runs_then [OF this, of ?k] have "runs (then_t ?t ?k, s2) (session_rest h fs i ms, s3)"
    by simp
  ultimately show ?thesis
    by blast
qed

text \<open>Two sessions of one device: the end of the first removes the channel of the second.\<close>

lemma session_ends:
  "\<exists>s'. runs (session_rest h fs i [], s) (give (), s') \<and> st_clients s' i = None"
proof -
  have "alone (session_rest h fs i []) s = session_close i s"
    by (simp add: session_rest_def)
  moreover obtain s' where "session_close i s = (Inr (), s')" "st_clients s' i = None"
    by (simp add: session_close_def remove_client_def mark_device_offline_def attempt_def on_db_def
        andthen_def update_devices_def)
  ultimately show ?thesis
    using runs_alone by metis
qed

lemma sessions_overlap:
  assumes "session_open h (fs1 0) ip1 m1 c1 s = (Inr (Some i), s1)"
    and "session_open h (fs2 0) ip2 m2 c2 s1 = (Inr (Some i), s2)"
  shows "\<exists>s'. pool_step\<^sup>*\<^sup>*
      ([handle_client_session_t h fs1 ip1 m1 c1 [], handle_client_session_t h fs2 ip2 m2 c2 ms], s)
      ([give (), session_rest h fs2 i ms], s') \<and> st_clients s' i = None"
proof -
  obtain s' where close: "runs (session_rest h fs1 i [], s2) (give (), s')" "st_clients s' i = None"
    using session_ends by blast
  let ?t2 = "handle_client_session_t h fs2 ip2 m2 c2 ms"
  note opens = session_opens [of h fs1 ip1 m1 c1 s i s1 "[]", OF assms(1)]
    session_opens [of h fs2 ip2 m2 c2 s1 i s2 ms, OF assms(2)]
  from pool_runs [OF opens(1), of "[]" "[?t2]"]
    pool_runs [OF opens(2), of "[session_rest h fs1 i []]" "[]"]
    pool_runs [OF close(1), of "[]" "[session_rest h fs2 i ms]"]
  have "pool_step\<^sup>*\<^sup>* ([handle_client_session_t h fs1 ip1 m1 c1 [], ?t2], s)
      ([give (), session_rest h fs2 i ms], s')"
    by (simp del: One_nat_def)
  with close(2) show ?thesis
    by blast
qed

section \<open>A kick during a hello\<close>

lemma kicked_update:
  "x \<in> set t \<Longrightarrow> P x \<Longrightarrow> dv_id x = i \<Longrightarrow> is_kicked i (update_where P (\<lambda>r. r\<lparr>dv_status := ''kicked''\<rparr>) t)"
  by (auto simp: is_kicked_def set_update_where intro!: bexI [of _ "x\<lparr>dv_status := ''kicked''\<rparr>"])

lemma kick_result: "kick_device user rid i s = (Inr (), s') \<Longrightarrow> kicked i s'"
  by (auto simp: kick_device_def andthen_def ensure_room_access_eq db_or_eq update_devices_def
      get_client_def remove_client_def send_def count_where_0 split: option.splits if_splits)
    (rule kicked_update, assumption, simp, simp)+

lemma clients_push:
  "keeps (\<lambda>s. st_clients s i = Some c) (push_current_config_if_needed h f j)"
proof -
  have "keeps (\<lambda>s. st_clients s i = Some c) (on_db m)" "keeps (\<lambda>s. st_clients s i = Some c) (db_or e m)"
    "keeps (\<lambda>s. st_clients s i = Some c) (send k w)" "keeps (\<lambda>s. st_clients s i = Some c) (get_client n)"
    for m :: "'m db_op" and e k w n
    by (auto simp: keeps_def on_db_def db_or_def map_err_def send_def get_client_def
        split: prod.splits sum.splits)
  note parts = this
  show ?thesis
    unfolding push_current_config_if_needed_def push_device_config_def push_config_to_device_def Let_def
    by (intro keeps_intro parts)
qed

text \<open>A kick between the answer to a hello and the registration of its channel.\<close>

lemma kick_in_hello:
  assumes "handle_client_hello h (fs 0) ip m c s = (Inr (Some (i, status)), s1)" "status \<noteq> ''kicked''"
    and "kick_device user rid i s1 = (Inr (), s2)"
  shows "\<exists>s'. pool_step\<^sup>*\<^sup>*
      ([finished (handle_client_session_t h fs ip m c ms), finished (kick_device_t user rid i)], s)
      ([finished (session_rest h fs i ms), Done ()], s') \<and> kicked i s' \<and> st_clients s' i = Some c"
proof -
  let ?push = "attempt (push_current_config_if_needed h (fresh_from (fs 0) 1) i) :: (error, error + unit) app_op"
  let ?reg = "andthen (insert_client i c) (\<lambda>_. andthen ?push (\<lambda>_. ret (Some i))) :: (error, string option) app_op"
  let ?u = "s2\<lparr>st_clients := (st_clients s2)(i := Some c)\<rparr>"
  obtain q s3 where push: "push_current_config_if_needed h (fresh_from (fs 0) 1) i ?u = (q, s3)"
    by force
  then have reg: "?reg s2 = (Inr (Some i), s3)"
    by (simp add: andthen_def insert_client_def attempt_def)
  have "keeps (kicked i) ?reg"
    by (intro keeps_intro)
  from keepsD [OF this reg kick_result [OF assms(3)]] have "kicked i s3" .
  moreover have "st_clients s3 i = Some c"
    using keepsD [OF clients_push push] by simp
  moreover obtain t where t: "runs (handle_client_session_t h fs ip m c ms, s) (t, s1)"
    "runs (t, s2) (session_rest h fs i ms, s3)"
    using session_hello [of h fs ip m c s i status s1 s2 s3 ms] assms(1,2) reg by blast
  moreover have kick: "runs (finished (kick_device_t user rid i), s1) (Done (), s2)"
    by (rule runs_finished(2)) (simp add: assms(3))
  have "pool_step\<^sup>*\<^sup>*
      ([finished (handle_client_session_t h fs ip m c ms), finished (kick_device_t user rid i)], s)
      ([finished (session_rest h fs i ms), Done ()], s3)"
    using pool_runs [OF runs_finished(1) [OF t(1)], of "[]" "[finished (kick_device_t user rid i)]"]
      pool_runs [OF kick, of "[finished t]" "[]"]
      pool_runs [OF runs_finished(1) [OF t(2)], of "[]" "[Done ()]"]
    by simp
  ultimately show ?thesis
    by blast
qed

section \<open>An export while a room is created\<close>

text \<open>A group whose room is missing from the backup.\<close>

lemma torn_import:
  assumes ok: "db_ok d" and ints: "ints_ok d" and fk: "db_foreign_keys d" "db_foreign_keys d0"
    and users: "bd_users data = export_query user_columns (db_users d)"
    and rooms: "bd_rooms data = export_query room_columns (db_rooms d)"
    and groups: "bd_groups data = export_query group_columns (db_groups d @ [g])"
    and g: "gr_room_id g \<notin> room_ids d" "gr_id g \<notin> group_ids d" "columns_ok (group_columns g)"
  shows "import_backup h data True src scope d0 = (Inl (SqlError ForeignKeyViolation), d0)"
proof -
  define e where "e = empty_database\<lparr>db_foreign_keys := True\<rparr>"
  define s1 where "s1 = e\<lparr>db_users := db_users d\<rparr>"
  define s2 where "s2 = s1\<lparr>db_rooms := db_rooms d\<rparr>"
  have starts: "e\<lparr>db_users := []\<rparr> = e" "s1\<lparr>db_rooms := []\<rparr> = s1" "s2\<lparr>db_groups := []\<rparr> = s2"
    by (simp_all add: s1_def s2_def e_def empty_database_def)
  have frames: "db_users s1 = db_users d" "db_rooms s2 = db_rooms d"
      "db_foreign_keys s1 = db_foreign_keys d" "db_foreign_keys s2 = db_foreign_keys d"
    by (simp_all add: s1_def s2_def e_def fk)
  have "insert_or_group True (Inr (back_group g)) (s2\<lparr>db_groups := map back_group (db_groups d)\<rparr>) =
      (Inl (SqlError ForeignKeyViolation), s2\<lparr>db_groups := map back_group (db_groups d)\<rparr>)"
    using g(1,2) fk
    by (auto simp: insert_or_group_def insert_or_def no_orphans_def insert_group_def dangling_def frames
        delete_where_none)
  note last = groups_x.import_rows_stops [where ins = insert_or_group and ow = True
      and S = "\<lambda>t. s2\<lparr>db_groups := map back_group t\<rparr>" and rows = "db_groups d" and rest = "[]",
      OF _ group_step [OF ok] g(3) this, unfolded list.map starts]
  note steps = users_x.import_rows_fresh [where ins = insert_or_user and S = "\<lambda>t. e\<lparr>db_users := t\<rparr>"
      and rows = "db_users d" and ow = True, OF _ user_step [OF ok], unfolded starts, folded s1_def]
    rooms_x.import_rows_fresh [where ins = insert_or_room and S = "\<lambda>t. s1\<lparr>db_rooms := t\<rparr>"
      and rows = "db_rooms d" and ow = True, OF _ room_step [OF ok], unfolded starts, folded s2_def]
  have "\<exists>d'. import_tables h data True e = (Inl (SqlError ForeignKeyViolation), d')"
    using ints by (simp add: import_tables_def users rooms groups andthen_def steps last frames ints_ok_def)
  then show ?thesis
    using fk(2) by (auto simp: import_backup_def transaction_def andthen_def clear_tables_result e_def)
qed

text \<open>The export has read the users and the rooms when another request creates a room, and reads the
  groups after a third has put a group into it.\<close>

lemma export_torn:
  assumes "au_role admin = ''admin''"
    and room: "user_route h f2 user (PostRooms name) s = (Inr (RRoom r), s1)"
    and group: "user_route h f3 user (PostGroups (rm_id r) gname config) s1 = (Inr (RGroup g), s2)"
  shows "\<exists>env. pool_step\<^sup>*\<^sup>*
      ([user_route_t h f1 admin (GetBackup None), user_route_t h f2 user (PostRooms name),
        user_route_t h f3 user (PostGroups (rm_id r) gname config)], s)
      ([give (RBackup env), give (RRoom r), give (RGroup g)], s2) \<and>
    bd_users (be_data env) = export_query user_columns (db_users (st_db s)) \<and>
    bd_rooms (be_data env) = export_query room_columns (db_rooms (st_db s)) \<and>
    bd_groups (be_data env) = export_query group_columns (db_groups (st_db s2))"
proof -
  let ?rest = "\<lambda>users rooms.
     atomic (reading (\<lambda>d. export_query group_columns (db_groups d))) (\<lambda>groups.
     atomic (reading (\<lambda>d. export_query device_columns (db_devices d))) (\<lambda>devices.
     atomic (reading (\<lambda>d. export_query event_columns (db_events d))) (\<lambda>events.
     atomic (reading (\<lambda>d. export_query push_columns (db_pushes d))) (\<lambda>config_pushes.
     atomic (reading (\<lambda>d. export_query system_columns (db_system d))) (\<lambda>system_config.
     give \<lparr> bd_users = users, bd_rooms = rooms, bd_groups = groups, bd_devices = devices,
            bd_events = events, bd_config_pushes = config_pushes,
            bd_system_config = system_config \<rparr>))))) :: (database, error + backup_data) thread"
  let ?export = "\<lambda>t. answering_t RBackup (then_t (db_or_t INTERNAL_SERVER_ERROR t) (\<lambda>data.
      give \<lparr> be_format_version = 1, be_exported_at = fr_clock f1 0, be_source_mode = ''sqlite'',
            be_scope = ''full'', be_data = data \<rparr>))"
  let ?U = "export_query user_columns (db_users (st_db s))" and ?R = "export_query room_columns (db_rooms (st_db s))"
  have "runs (export_backup_t, st_db s) (?rest ?U ?R, st_db s)"
    unfolding export_backup_t_def
    by (rule runs_step, simp add: advance_atomic, rule runs_step, simp add: advance_atomic, simp)
  then have "runs (on_db_t export_backup_t, s) (on_db_t (?rest ?U ?R), s\<lparr>st_db := st_db s\<rparr>)"
    unfolding on_db_t_def by (rule runs_focus) simp_all
  then have start: "runs (?export export_backup_t, s) (?export (?rest ?U ?R), s)"
    unfolding answering_t_def map_err_t_def by (intro runs_then runs_map) simp
  have export: "user_route_t h f1 admin (GetBackup None) = ?export export_backup_t"
    by (simp add: api_export_backup_t_def assms(1))
  define data where "data = \<lparr> bd_users = ?U, bd_rooms = ?R,
    bd_groups = export_query group_columns (db_groups (st_db s2)),
    bd_devices = export_query device_columns (db_devices (st_db s2)),
    bd_events = export_query event_columns (db_events (st_db s2)),
    bd_config_pushes = export_query push_columns (db_pushes (st_db s2)),
    bd_system_config = export_query system_columns (db_system (st_db s2)) \<rparr>"
  let ?env = "\<lparr> be_format_version = 1, be_exported_at = fr_clock f1 0, be_source_mode = ''sqlite'',
    be_scope = ''full'', be_data = data \<rparr>"
  have "alone (?export (?rest ?U ?R)) s2 = (Inr (RBackup ?env), s2)"
    by (simp add: answering_def andthen_def map_err_def on_db_def data_def)
  note finish = runs_alone [OF this]
  have create: "runs (user_route_t h f2 user (PostRooms name), s) (give (RRoom r), s1)"
    "runs (user_route_t h f3 user (PostGroups (rm_id r) gname config), s1) (give (RGroup g), s2)"
    using room group by (simp_all add: runs_alone user_route_alone del: user_route_t.simps user_route.simps)
  let ?t2 = "user_route_t h f2 user (PostRooms name)"
  let ?t3 = "user_route_t h f3 user (PostGroups (rm_id r) gname config)"
  have "pool_step\<^sup>*\<^sup>* ([user_route_t h f1 admin (GetBackup None), ?t2, ?t3], s)
      ([give (RBackup ?env), give (RRoom r), give (RGroup g)], s2)"
    using pool_runs [OF start, of "[]" "[?t2, ?t3]"]
      pool_runs [OF create(1), of "[?export (?rest ?U ?R)]" "[?t3]"]
      pool_runs [OF create(2), of "[?export (?rest ?U ?R), give (RRoom r)]" "[]"]
      pool_runs [OF finish, of "[]" "[give (RRoom r), give (RGroup g)]"]
    by (simp add: export del: user_route_t.simps)
  then show ?thesis
    by (intro exI [of _ ?env]) (simp add: data_def)
qed

text \<open>The creations themselves.\<close>

lemma created_rows:
  assumes room: "user_route h f2 user (PostRooms name) s = (Inr (RRoom r), s1)"
    and group: "user_route h f3 user (PostGroups (rm_id r) gname config) s1 = (Inr (RGroup g), s2)"
  shows "\<exists>gr. db_groups (st_db s2) = db_groups (st_db s) @ [gr] \<and> gr_room_id gr = rm_id r \<and>
    rm_id r \<notin> room_ids (st_db s) \<and> gr_id gr \<notin> group_ids (st_db s) \<and>
    gr_created_at gr = fr_clock f3 0 \<and> gr_updated_at gr = fr_clock f3 0 \<and> gr_config_version gr = 1"
proof -
  have "create_room h (fr_random f2) (fr_clock f2 0) (au_id user) name (st_db s) = (Inr r, st_db s1)"
    using room by (auto simp: answering_def andthen_def api_create_room_def db_or_eq
        split: prod.splits sum.splits)
  then have 1: "rm_id r \<notin> room_ids (st_db s)" "db_groups (st_db s1) = db_groups (st_db s)"
    by (auto simp: create_room_def create_room_loop_eq Let_def find_Some_iff split: option.splits if_splits)
      (drule arg_cong [where f = db_groups], simp)
  obtain g1 where "create_group h (fr_uuid f3 0) (fresh_nonces f3) (fr_clock f3 0) (rm_id r) gname config
      (st_db s1) = (Inr g1, st_db s2)"
    using group by (auto simp: answering_def andthen_def api_create_group_def ensure_room_access_eq db_or_eq
        split: prod.splits sum.splits option.splits)
  from create_group_Inr [OF this] 1 show ?thesis
    by auto
qed

end
