(* ===== verification/Isolation.thy ===== *)
theory Isolation
  imports Web_Threads
begin

text \<open>
  What the requests of users leave alone: the rooms of others, with their groups and devices. The rows
  of others are those of a set \<open>F\<close> of rooms that exist and that none of the users owns; every statement
  of a request preserves them, whatever runs between two of its statements.
\<close>

section \<open>The rows of others\<close>

definition rows_in :: "string set \<Rightarrow> database \<Rightarrow> room list \<times> group_row list \<times> device_row list" where
  "rows_in F d =
     (filter (\<lambda>r. rm_id r \<in> F) (db_rooms d),
      filter (\<lambda>g. gr_room_id g \<in> F) (db_groups d),
      filter (\<lambda>v. dv_room_id v \<in> F) (db_devices d))"

definition owned_by_others :: "string \<Rightarrow> string set \<Rightarrow> room list \<Rightarrow> bool" where
  "owned_by_others u F rs \<longleftrightarrow> F \<subseteq> rm_id ` set rs \<and> (\<forall>x \<in> set rs. rm_id x \<in> F \<longrightarrow> rm_owner_id x \<noteq> u)"

lemma owned_by_others_rows: "owned_by_others u F (fst (rows_in F d)) \<longleftrightarrow> owned_by_others u F (db_rooms d)"
  by (auto simp: owned_by_others_def rows_in_def)

lemma filter_update_where:
  assumes "\<And>r. P r \<Longrightarrow> \<not> Q r" "\<And>r. P r \<Longrightarrow> \<not> Q (g r)"
  shows "filter Q (update_where P g t) = filter Q t"
  using assms by (induction t) (auto simp: update_where_def)

lemma filter_delete_where:
  assumes "\<And>r. P r \<Longrightarrow> \<not> Q r"
  shows "filter Q (delete_where P t) = filter Q t"
  using assms by (induction t) (auto simp: delete_where_def)

lemma foreign_statements [keeps_intro]:
  "keeps (\<lambda>d. rows_in F d = X) (insert_user us)" "keeps (\<lambda>d. rows_in F d = X) (insert_event e)"
  "keeps (\<lambda>d. rows_in F d = X) (insert_push p)" "keeps (\<lambda>d. rows_in F d = X) (update_users Pu fu)"
  "keeps (\<lambda>d. rows_in F d = X) (update_pushes Pp fp)" "keeps (\<lambda>d. rows_in F d = X) (delete_users Pu)"
  "keeps (\<lambda>d. rows_in F d = X) (delete_events Pe)" "keeps (\<lambda>d. rows_in F d = X) (delete_pushes Pp)"
  by (auto simp: keeps_def rows_in_def insert_user_def insert_event_def insert_push_def
      update_users_def update_pushes_def delete_users_def delete_events_def delete_pushes_def Let_def)

text \<open>A room can be created only under an identifier that none of the rooms of others has.\<close>

lemma foreign_insert_room:
  assumes "F \<subseteq> rm_id ` set (fst X)"
  shows "keeps (\<lambda>d. rows_in F d = X) (insert_room r)"
  using assms by (auto simp: keeps_def rows_in_def insert_room_def Let_def)

lemma foreign_intro:
  "gr_room_id g \<notin> F \<Longrightarrow> keeps (\<lambda>d. rows_in F d = X) (insert_group g)"
  "(\<And>g. Pg g \<Longrightarrow> gr_room_id g \<notin> F) \<Longrightarrow> keeps (\<lambda>d. rows_in F d = X) (delete_groups Pg)"
  "(\<And>v. Pd v \<Longrightarrow> dv_room_id v \<notin> F) \<Longrightarrow> keeps (\<lambda>d. rows_in F d = X) (delete_devices Pd)"
  "(\<And>x. Pr x \<Longrightarrow> rm_id x \<notin> F) \<Longrightarrow> keeps (\<lambda>d. rows_in F d = X) (delete_rooms Pr)"
  "(\<And>g. Pg g \<Longrightarrow> gr_room_id g \<notin> F) \<Longrightarrow> (\<And>g. gr_room_id (fg g) = gr_room_id g) \<Longrightarrow>
     keeps (\<lambda>d. rows_in F d = X) (update_groups Pg fg)"
  "(\<And>v. Pd v \<Longrightarrow> dv_room_id v \<notin> F) \<Longrightarrow> (\<And>v. dv_room_id (fd v) = dv_room_id v) \<Longrightarrow>
     keeps (\<lambda>d. rows_in F d = X) (update_devices Pd fd)"
  "(\<And>v. Pd v \<Longrightarrow> dv_room_id v \<notin> F) \<Longrightarrow> (\<And>v. dv_room_id (fd v) = dv_room_id v) \<Longrightarrow>
     keeps (\<lambda>d. rows_in F d = X) (update_devices_group Pd fd)"
  by (auto simp: keeps_def rows_in_def insert_group_def delete_groups_def delete_devices_def
      delete_rooms_def update_groups_def update_devices_def update_devices_group_def Let_def
      filter_delete_where filter_update_where)

section \<open>Operations on a room of the user\<close>

lemma foreign_operations:
  assumes "rid \<notin> F"
  shows "thread_keeps (\<lambda>d. rows_in F d = X) (update_device_t rid i ur)"
    "thread_keeps (\<lambda>d. rows_in F d = X) (set_device_group_t rid gid i)"
    "thread_keeps (\<lambda>d. rows_in F d = X) (update_group_thread h ns t rid g q)"
    "keeps (\<lambda>d. rows_in F d = X) (delete_device rid i)"
    "keeps (\<lambda>d. rows_in F d = X) (regenerate_device_token h rnd rid i)"
    "keeps (\<lambda>d. rows_in F d = X) (create_group h uu ns t rid n c)"
    "keeps (\<lambda>d. rows_in F d = X) (delete_group rid g)"
    "keeps (\<lambda>d. rows_in F d = X) (delete_room rid)"
  unfolding update_device_t_def set_device_group_t_def update_group_thread_def delete_device_def
    regenerate_device_token_def create_group_def delete_group_def delete_room_def Let_def
  using assms by (intro keeps_intro foreign_intro; simp)+

lemma foreign_create_room:
  assumes "F \<subseteq> rm_id ` set (fst X)"
  shows "thread_keeps (\<lambda>d. rows_in F d = X) (create_room_t h draw now u n)"
proof -
  have "thread_keeps (\<lambda>d. rows_in F d = X) (create_room_loop_t h draw now u n is)" for "is"
    by (induction "is") (simp_all only: create_room_loop_t.simps Let_def,
      (intro keeps_intro foreign_insert_room assms; assumption)+)
  then show ?thesis
    by (simp add: create_room_t_def)
qed

text \<open>No statement of an export or of the reading of a configuration writes.\<close>

lemma read_threads [keeps_intro]:
  "thread_keeps P export_backup_t" "thread_keeps P (export_user_backup_t u)"
  "thread_keeps P (device_config_t h i g)"
  unfolding export_backup_t_def export_user_backup_t_def device_config_t_def Let_def
  by (intro keeps_intro)+

section \<open>Requests\<close>

abbreviation app_rows :: "string set \<Rightarrow> room list \<times> group_row list \<times> device_row list \<Rightarrow> app_state \<Rightarrow> bool" where
  "app_rows F X s \<equiv> rows_in F (st_db s) = X"

lemma thread_db_or:
  "thread_keeps P t \<Longrightarrow> thread_keeps (\<lambda>s. P (st_db s)) (db_or_t e t)"
  by (intro keeps_intro thread_keeps_on_db)

text \<open>Past the check of the access, the room is not one of the others.\<close>

lemma access_guards:
  assumes "au_role user \<noteq> ''admin''" "owned_by_others (au_id user) F (fst X)"
    and "rid \<notin> F \<Longrightarrow> thread_keeps (app_rows F X) (k ())"
  shows "thread_keeps (app_rows F X) (atomic (ensure_room_access user rid) k)"
proof (rule guards_atomic)
  show "obeys (app_rows F X) (\<lambda>_. app_rows F X) (ensure_room_access user rid)"
    by (intro keeps_intro)
  fix s x assume s: "app_rows F X s" "fst (ensure_room_access user rid s) = Inr x"
  then have "access_error user rid (st_db s) = None"
    by (auto simp: ensure_room_access_eq split: option.splits)
  then have "\<exists>x \<in> set (db_rooms (st_db s)). rm_id x = rid \<and> rm_owner_id x = au_id user"
    using assms(1) by (auto simp: access_error_def split: if_splits)
  moreover have "owned_by_others (au_id user) F (db_rooms (st_db s))"
    using assms(2) s(1) owned_by_others_rows by blast
  ultimately have "rid \<notin> F"
    by (auto simp: owned_by_others_def)
  with assms(3) show "thread_keeps (app_rows F X) (k x)"
    by simp
qed simp

lemma foreign_push [keeps_intro]: "thread_keeps (app_rows F X) (push_config_to_device_t h f i g)"
  unfolding push_config_to_device_t_def config_name_of_def send_config_def Let_def
  by (intro keeps_intro keeps_db thread_db_or)

lemma foreign_push_each [keeps_intro]: "thread_keeps (app_rows F X) (push_each_t h f g i ids n)"
  by (induction ids arbitrary: i n) (simp_all only: push_each_t.simps, (intro keeps_intro; assumption?)+)

lemma foreign_accounts [keeps_intro]:
  "thread_keeps (app_rows F X) (login_thread h f fwd lr)" "keeps (app_rows F X) (register h f lr)"
  "thread_keeps (app_rows F X) (change_password_t h f user cp)" "keeps (app_rows F X) (delete_account user)"
  unfolding login_thread_def login_lookup_def login_verify_def register_def change_password_t_def
    delete_account_def find_user_def Let_def
  by (intro keeps_intro keeps_db)+

lemma foreign_reads [keeps_intro]:
  "keeps (\<lambda>s. P (st_db s)) (api_list_rooms user)" "keeps (\<lambda>s. P (st_db s)) (api_list_events user q)"
  "keeps (\<lambda>s. P (st_db s)) (events_stream user)"
  "thread_keeps (\<lambda>s. P (st_db s)) (api_export_backup_t f user sc)"
  unfolding api_list_rooms_def api_list_events_def events_stream_def api_export_backup_t_def
    list_rooms_def Let_def
  by (intro keeps_intro keeps_db thread_db_or)+

lemma import_not_admin:
  "au_role user \<noteq> ''admin'' \<Longrightarrow> keeps P (api_import_backup h user mode b)"
  unfolding api_import_backup_def by (simp only: if_P not_False_eq_True) (intro keeps_intro)

lemma answering_keeps [keeps_intro]: "thread_keeps P t \<Longrightarrow> thread_keeps P (answering_t g t)"
  unfolding answering_t_def by (intro keeps_intro)

lemma foreign_create_room_handler:
  "owned_by_others (au_id user) F (fst X) \<Longrightarrow> thread_keeps (app_rows F X) (api_create_room_t h f user n)"
  unfolding api_create_room_t_def
  by (intro thread_db_or foreign_create_room) (simp add: owned_by_others_def)

lemma room_requests_keep:
  assumes "au_role user \<noteq> ''admin''" "owned_by_others (au_id user) F (fst X)"
  shows "thread_keeps (app_rows F X) (api_delete_room_t user rid)"
    "thread_keeps (app_rows F X) (api_list_devices_t user rid)"
    "thread_keeps (app_rows F X) (api_update_device_t user rid i ur)"
    "thread_keeps (app_rows F X) (api_delete_device_t user rid i)"
    "thread_keeps (app_rows F X) (api_regenerate_device_token_t h f user rid i)"
    "thread_keeps (app_rows F X) (kick_device_t user rid i)"
    "thread_keeps (app_rows F X) (push_device_t h f user rid i)"
    "thread_keeps (app_rows F X) (api_list_groups_t h user rid)"
    "thread_keeps (app_rows F X) (api_create_group_t h f user rid n c)"
    "thread_keeps (app_rows F X) (api_update_group_t h f user rid g q)"
    "thread_keeps (app_rows F X) (api_delete_group_t user rid g)"
    "thread_keeps (app_rows F X) (add_group_device_t user rid g i)"
    "thread_keeps (app_rows F X) (remove_group_device_t user rid g i)"
    "thread_keeps (app_rows F X) (push_group_t h f user rid g)"
  unfolding api_delete_room_t_def api_list_devices_t_def api_update_device_t_def
    api_delete_device_t_def api_regenerate_device_token_t_def kick_device_t_def push_device_t_def
    api_list_groups_t_def api_create_group_t_def api_update_group_t_def api_delete_group_t_def
    add_group_device_t_def remove_group_device_t_def push_group_t_def drop_kicked_def list_devices_def
  by (rule access_guards [OF assms], intro keeps_intro keeps_db thread_db_or foreign_operations
    foreign_intro; simp)+

lemma user_route_keeps:
  assumes "au_role user \<noteq> ''admin''" "owned_by_others (au_id user) F (fst X)"
  shows "thread_keeps (app_rows F X) (user_route_t h f user req)"
  by (cases req; simp only: user_route_t.simps;
      intro keeps_intro room_requests_keep [OF assms] foreign_create_room_handler assms import_not_admin)

lemma request_keeps:
  assumes "from_request_parts h now auth = Inr user" "au_role user \<noteq> ''admin''"
    "owned_by_others (au_id user) F (fst X)"
  shows "thread_keeps (app_rows F X) (handle_request_t h f now auth req)"
  unfolding handle_request_t_def assms(1) checked_simps
  by (cases req; simp only: api_request.case; intro keeps_intro user_route_keeps assms)

text \<open>The public requests, and those without a token that checks, touch no room at all.\<close>

lemma public_keeps: "is_public req \<Longrightarrow> thread_keeps (app_rows F X) (handle_request_t h f now auth req)"
  by (cases req; simp only: is_public.simps handle_request_t_def api_request.case public_config_def;
      intro keeps_intro)

lemma request_rows:
  assumes "is_public req \<or> (\<forall>user. from_request_parts h now auth = Inr user \<longrightarrow>
    au_role user \<noteq> ''admin'' \<and> owned_by_others (au_id user) F (fst X))"
  shows "thread_keeps (app_rows F X) (handle_request_t h f now auth req)"
proof (cases "is_public req")
  case False
  show ?thesis
  proof (cases "from_request_parts h now auth")
    case (Inl e)
    with False show ?thesis
      by (cases req) (simp_all add: handle_request_t_def guards_intros)
  next
    case (Inr user)
    with assms False show ?thesis
      by (intro request_keeps) auto
  qed
qed (rule public_keeps)

end
