(* ===== verification/Group_Store.thy ===== *)
theory Group_Store
  imports Client_Api
begin

text \<open>
  What the encrypted table of groups promises: it is a map from identifiers to plain groups. The
  interface \<open>group_store\<close> is a forward simulation between operations on a database and operations
  on such maps; its lemmas carry the simulation over sequences of operations. The operations of
  \<open>src/db.rs\<close> on groups provide it: encryption does not show.
\<close>

section \<open>Plain groups\<close>

record plain_group =
  pl_room :: string
  pl_name :: string
  pl_version :: i64
  pl_config :: "vnt_client_config option"

type_synonym group_map = "string \<Rightarrow> plain_group option"

datatype group_op =
    NewGroup string string string vnt_client_config
  | AdoptGroup string string string vnt_client_config i64
  | EditGroup string string update_group_request
  | DropGroup string string
  | DropRoom string

definition edit_group :: "update_group_request \<Rightarrow> plain_group \<Rightarrow> plain_group" where
  "edit_group req p = p\<lparr>
     pl_name := (case ug_name req of Some n \<Rightarrow> n | None \<Rightarrow> pl_name p),
     pl_version := i64_add (pl_version p) 1,
     pl_config := coalesce (ug_config req) (pl_config p)\<rparr>"

text \<open>The specification: \<open>None\<close> where the operation is not permitted.\<close>

fun spec_op :: "group_op \<Rightarrow> group_map \<Rightarrow> group_map option" where
  "spec_op (NewGroup k rid n c) m =
     (if m k = None then Some (m(k \<mapsto> \<lparr> pl_room = rid, pl_name = n, pl_version = 1, pl_config = Some c \<rparr>))
      else None)"
| "spec_op (AdoptGroup k rid n c v) m =
     (if m k = None then Some (m(k \<mapsto> \<lparr> pl_room = rid, pl_name = n, pl_version = max v 1,
        pl_config = Some c \<rparr>)) else None)"
| "spec_op (EditGroup rid k req) m =
     (case m k of
        None \<Rightarrow> None
      | Some p \<Rightarrow> if pl_room p = rid then Some (m(k \<mapsto> edit_group req p)) else None)"
| "spec_op (DropGroup rid k) m =
     Some (case m k of None \<Rightarrow> m | Some p \<Rightarrow> if pl_room p = rid then m(k := None) else m)"
| "spec_op (DropRoom rid) m =
     Some (\<lambda>k. case m k of None \<Rightarrow> None | Some p \<Rightarrow> if pl_room p = rid then None else Some p)"

fun spec_run :: "group_op list \<Rightarrow> group_map \<Rightarrow> group_map option" where
  "spec_run [] m = Some m"
| "spec_run (a # as) m = Option.bind (spec_op a m) (spec_run as)"

section \<open>The interface\<close>

text \<open>\<open>exec x a\<close> executes the operation \<open>a\<close> with the fresh values \<open>x\<close>; a sequence goes on after
  an operation that fails.\<close>

fun run_ops :: "('x \<Rightarrow> group_op \<Rightarrow> ('d, 'e, 'r) comp) \<Rightarrow> ('x \<times> group_op) list \<Rightarrow> 'd \<Rightarrow> 'd" where
  "run_ops exec [] d = d"
| "run_ops exec ((x, a) # as) d = run_ops exec as (snd (exec x a d))"

fun accepted :: "('x \<Rightarrow> group_op \<Rightarrow> ('d, 'e, 'r) comp) \<Rightarrow> ('x \<times> group_op) list \<Rightarrow> 'd \<Rightarrow> group_op list" where
  "accepted exec [] d = []"
| "accepted exec ((x, a) # as) d =
     (case exec x a d of
        (Inl _, d') \<Rightarrow> accepted exec as d'
      | (Inr _, d') \<Rightarrow> a # accepted exec as d')"

locale group_store =
  fixes view :: "'d \<Rightarrow> group_map"
    and ok :: "'d \<Rightarrow> bool"
    and usable :: "'x \<Rightarrow> group_op \<Rightarrow> bool"
    and exec :: "'x \<Rightarrow> group_op \<Rightarrow> ('d, 'e, 'r) comp"
  assumes exec_ok: "ok d \<Longrightarrow> ok (snd (exec x a d))"
    and exec_error: "exec x a d = (Inl e, d') \<Longrightarrow> d' = d"
    and exec_refines:
      "\<lbrakk>ok d; usable x a; exec x a d = (Inr r, d')\<rbrakk> \<Longrightarrow> spec_op a (view d) = Some (view d')"
begin

lemma run_refines:
  assumes "ok d" "\<forall>(x, a) \<in> set as. usable x a"
  shows "spec_run (accepted exec as d) (view d) = Some (view (run_ops exec as d))"
  using assms
proof (induction "as" arbitrary: d)
  case (Cons xa "as")
  obtain x a where xa: "xa = (x, a)"
    by force
  obtain res d' where run: "exec x a d = (res, d')"
    by force
  have ok': "ok d'"
    using exec_ok [OF Cons.prems(1), of x a] run by simp
  show ?case
  proof (cases res)
    case (Inl e)
    with run have "d' = d"
      using exec_error by blast
    with Cons Inl run xa show ?thesis
      by simp
  next
    case (Inr r)
    have "spec_op a (view d) = Some (view d')"
      using exec_refines [OF Cons.prems(1)] Cons.prems(2) run Inr xa by auto
    with Cons.IH [OF ok'] Cons.prems(2) Inr run xa show ?thesis
      by simp
  qed
qed simp

lemma run_ok: "ok d \<Longrightarrow> ok (run_ops exec as d)"
  by (induction "as" arbitrary: d) (auto simp: exec_ok)

end

section \<open>The operations of the database\<close>

fun group_exec :: "host \<Rightarrow> nonces \<times> i64 \<Rightarrow> group_op \<Rightarrow> unit db_op" where
  "group_exec h (ns, t) (NewGroup k rid n c) = andthen (create_group h k ns t rid n c) (\<lambda>_. ret ())"
| "group_exec h (ns, t) (AdoptGroup k rid n c v) =
     andthen (create_group_with_version h k ns t t rid n c v) (\<lambda>_. ret ())"
| "group_exec h (ns, t) (EditGroup rid k req) = andthen (update_group h ns t rid k req) (\<lambda>_. ret ())"
| "group_exec h (ns, t) (DropGroup rid k) = delete_group rid k"
| "group_exec h (ns, t) (DropRoom rid) = delete_room rid"

definition plain_of :: "host \<Rightarrow> group_row \<Rightarrow> plain_group option" where
  "plain_of h r =
     (case decrypt_row h r of
        Inl _ \<Rightarrow> None
      | Inr c \<Rightarrow> Some \<lparr> pl_room = gr_room_id r, pl_name = gr_name r, pl_version = gr_config_version r,
                       pl_config = c \<rparr>)"

definition group_view :: "host \<Rightarrow> database \<Rightarrow> group_map" where
  "group_view h d k = Option.bind (row_by gr_id k (db_groups d)) (plain_of h)"

text \<open>The configurations that an operation stores.\<close>

fun stored_config :: "group_op \<Rightarrow> vnt_client_config option" where
  "stored_config (NewGroup _ _ _ c) = Some c"
| "stored_config (AdoptGroup _ _ _ c _) = Some c"
| "stored_config (EditGroup _ _ req) = ug_config req"
| "stored_config _ = None"

definition op_usable :: "host \<Rightarrow> nonces \<times> i64 \<Rightarrow> group_op \<Rightarrow> bool" where
  "op_usable h x a \<longleftrightarrow> cipher_laws h \<and> nonces_ok (fst x) \<and>
     (case stored_config a of None \<Rightarrow> True | Some c \<Rightarrow> config_storable h c)"

lemma group_view_append:
  assumes "gr_id r \<notin> group_ids d" "plain_of h r = Some p"
  shows "group_view h (d\<lparr>db_groups := db_groups d @ [r]\<rparr>) = (group_view h d)(gr_id r \<mapsto> p)"
  using assms by (auto simp: group_view_def fun_eq_iff row_by_append row_by_None [symmetric] split: option.splits)

lemma group_view_absent: "k \<notin> group_ids d \<Longrightarrow> group_view h d k = None"
  by (simp add: group_view_def row_by_None [symmetric])

lemma group_view_delete:
  assumes "db_ok d" "db_groups d' = delete_where P (db_groups d)"
    and "\<And>r. r \<in> set (db_groups d) \<Longrightarrow> P r \<longleftrightarrow> Q (gr_id r) (gr_room_id r)"
  shows "group_view h d' k =
    (case group_view h d k of None \<Rightarrow> None | Some p \<Rightarrow> if Q k (pl_room p) then None else Some p)"
proof (cases "row_by gr_id k (db_groups d)")
  case None
  then show ?thesis
    using assms(1,2) by (simp add: group_view_def row_by_delete_where
        db_ok_def keys_ok_def)
next
  case (Some r)
  then have "r \<in> set (db_groups d)" "gr_id r = k"
    using row_by_Some [OF Some] by simp_all
  with Some assms show ?thesis
    by (auto simp: group_view_def row_by_delete_where db_ok_def keys_ok_def plain_of_def
        split: sum.splits)
qed

section \<open>The refinement\<close>

lemma new_group_refines:
  assumes "op_usable h (ns, t) (NewGroup k rid n c)"
    and "group_exec h (ns, t) (NewGroup k rid n c) d = (Inr (), d')"
  shows "spec_op (NewGroup k rid n c) (group_view h d) = Some (group_view h d')"
proof -
  obtain g where "create_group h k ns t rid n c d = (Inr g, d')"
    using assms(2) by (auto simp: andthen_def split: prod.splits sum.splits)
  then obtain et es ep ec where holds: "row_holds h ns k c et es ep ec" and new: "k \<notin> group_ids d"
    and d': "d' = d\<lparr>db_groups := db_groups d @ [\<lparr> gr_id = k, gr_room_id = rid, gr_name = n,
      gr_encrypted_token = Some et, gr_encrypted_server = Some es, gr_encrypted_password = ep,
      gr_extra_config = Some ec, gr_config_version = 1, gr_created_at = t, gr_updated_at = t \<rparr>]\<rparr>"
    using create_group_Inr by metis
  have "decrypt_group_config h k (Some et) (Some es) ep (Some ec) = Inr (Some c)"
    using decrypt_row_holds [OF _ _ _ holds] assms(1) by (simp add: op_usable_def)
  then show ?thesis
    using new by (simp add: d' group_view_append plain_of_def decrypt_row_def group_view_absent)
qed

lemma adopt_group_refines:
  assumes "op_usable h (ns, t) (AdoptGroup k rid n c v)"
    and "group_exec h (ns, t) (AdoptGroup k rid n c v) d = (Inr (), d')"
  shows "spec_op (AdoptGroup k rid n c v) (group_view h d) = Some (group_view h d')"
proof -
  obtain g where "create_group_with_version h k ns t t rid n c v d = (Inr g, d')"
    using assms(2) by (auto simp: andthen_def split: prod.splits sum.splits)
  from create_group_with_version_Inr [OF this]
  obtain r et es ep ec where d': "d' = d\<lparr>db_groups := db_groups d @ [r]\<rparr>" and new: "k \<notin> group_ids d"
    and r: "gr_id r = k" "gr_room_id r = rid" "gr_name r = n" "gr_config_version r = max v 1"
      "gr_encrypted_token r = Some et" "gr_encrypted_server r = Some es"
      "gr_encrypted_password r = ep" "gr_extra_config r = Some ec"
    and holds: "row_holds h ns k c et es ep ec"
    by blast
  have "decrypt_group_config h k (Some et) (Some es) ep (Some ec) = Inr (Some c)"
    using decrypt_row_holds [OF _ _ _ holds] assms(1) by (simp add: op_usable_def)
  then have "plain_of h r = Some \<lparr> pl_room = rid, pl_name = n, pl_version = max v 1, pl_config = Some c \<rparr>"
    by (simp add: plain_of_def decrypt_row_def r)
  with new r(1) group_view_append [of r d h] show ?thesis
    by (simp add: d' group_view_absent)
qed

lemma edit_group_refines:
  assumes ok: "db_ok d" and use: "op_usable h (ns, t) (EditGroup rid k req)"
    and run: "group_exec h (ns, t) (EditGroup rid k req) d = (Inr (), d')"
  shows "spec_op (EditGroup rid k req) (group_view h d) = Some (group_view h d')"
proof -
  obtain g where upd: "update_group h ns t rid k req d = (Inr g, d')"
    using run by (auto simp: andthen_def split: prod.splits sum.splits)
  obtain r r' where r: "row_by gr_id k (db_groups d) = Some r" "gr_room_id r = rid"
    and r': "row_by gr_id k (db_groups d') = Some r'" "gr_room_id r' = rid"
      "gr_config_version r' = i64_add (gr_config_version r) 1"
      "gr_name r' = (case ug_name req of Some n \<Rightarrow> n | None \<Rightarrow> gr_name r)"
    and config: "case ug_config req of
       None \<Rightarrow> decrypt_row h r' = decrypt_row h r
     | Some c \<Rightarrow> \<exists>et es ep ec. row_holds h ns k c et es ep ec \<and>
         gr_encrypted_token r' = Some et \<and> gr_encrypted_server r' = Some es \<and>
         gr_encrypted_password r' = ep \<and> gr_extra_config r' = Some ec"
    and other: "\<And>j. j \<noteq> k \<Longrightarrow> row_by gr_id j (db_groups d') = row_by gr_id j (db_groups d)"
    by (rule update_group_Inr [OF ok upd]) blast
  obtain c0 where c0: "decrypt_row h r = Inr c0"
    using update_group_undecryptable(1) [OF ok r(1), of h _ ns t rid req g] upd
    by (cases "decrypt_row h r") auto
  have "decrypt_row h r' = Inr (coalesce (ug_config req) c0)"
  proof (cases "ug_config req")
    case (Some c)
    with config row_by_Some [OF r'(1)] use show ?thesis
      by (auto simp: decrypt_row_def op_usable_def intro: decrypt_row_holds)
  qed (use config c0 in simp)
  then have "group_view h d' = (group_view h d)(k \<mapsto> edit_group req
      \<lparr> pl_room = rid, pl_name = gr_name r, pl_version = gr_config_version r, pl_config = c0 \<rparr>)"
    using r' other
    by (auto simp: fun_eq_iff group_view_def plain_of_def edit_group_def split: option.splits)
  moreover have "group_view h d k = Some
      \<lparr> pl_room = rid, pl_name = gr_name r, pl_version = gr_config_version r, pl_config = c0 \<rparr>"
    using r c0 by (simp add: group_view_def plain_of_def)
  ultimately show ?thesis
    by simp
qed

lemma drop_group_refines:
  assumes "db_ok d" and "group_exec h (ns, t) (DropGroup rid k) d = (Inr (), d')"
  shows "spec_op (DropGroup rid k) (group_view h d) = Some (group_view h d')"
proof -
  have "db_groups d' = delete_where (\<lambda>g. gr_id g = k \<and> gr_room_id g = rid) (db_groups d)"
    using assms(2) by (auto simp: delete_group_eq without_group_def split: if_splits)
  from group_view_delete [OF assms(1) this, of "\<lambda>i r. i = k \<and> r = rid"] show ?thesis
    by (auto simp: fun_eq_iff split: option.splits)
qed

lemma drop_room_refines:
  assumes "db_ok d" and "group_exec h (ns, t) (DropRoom rid) d = (Inr (), d')"
  shows "spec_op (DropRoom rid) (group_view h d) = Some (group_view h d')"
proof -
  have "db_groups d' = delete_where (\<lambda>g. gr_room_id g = rid) (db_groups d)"
    using assms(2) by (auto simp: delete_room_eq without_room_def split: if_splits)
  from group_view_delete [OF assms(1) this, of "\<lambda>i r. r = rid"] show ?thesis
    by (auto simp: fun_eq_iff split: option.splits)
qed

lemma group_exec_error: "group_exec h x a d = (Inl e, d') \<Longrightarrow> d' = d"
proof (induction h x a rule: group_exec.induct)
  case (2 h ns t k rid n c v)
  then show ?case
    by (auto simp: create_group_with_version_def andthen_def Let_def update_groups_def
        split: prod.splits sum.splits if_splits dest: create_group_Inl)
next
  case (3 h ns t rid k req)
  then show ?case
    by (auto simp: update_group_def andthen_def Let_def update_groups_def
        split: prod.splits sum.splits option.splits)
qed (auto simp: andthen_def delete_group_eq delete_room_eq
    split: prod.splits sum.splits if_splits dest: create_group_Inl)

lemma group_exec_ok: "keeps db_ok (group_exec h x a)"
  by (cases "(h, x, a)" rule: group_exec.cases) (auto simp only: group_exec.simps intro!: keeps_intro)

interpretation encrypted: group_store "group_view h" db_ok "op_usable h" "group_exec h" for h
proof unfold_locales
  show "db_ok d \<Longrightarrow> db_ok (snd (group_exec h x a d))" for d x a
    by (rule keeps_snd [OF group_exec_ok])
  show "group_exec h x a d = (Inl e, d') \<Longrightarrow> d' = d" for x a d e d'
    by (rule group_exec_error)
  show "spec_op a (group_view h d) = Some (group_view h d')"
    if "db_ok d" "op_usable h x a" "group_exec h x a d = (Inr r, d')" for x a d r d'
    using that
    by (cases x; cases a)
      (auto simp del: group_exec.simps spec_op.simps simp: new_group_refines adopt_group_refines
        edit_group_refines drop_group_refines drop_room_refines)
qed

section \<open>Reading the map\<close>

lemma list_all2_set:
  assumes "list_all2 P xs ys"
  shows "\<forall>y \<in> set ys. \<exists>x \<in> set xs. P x y" and "\<forall>x \<in> set xs. \<exists>y \<in> set ys. P x y"
  using assms by (induction rule: list_all2_induct) auto

text \<open>A group as it is listed, of the room \<open>rid\<close>, read as a plain group.\<close>

definition plain_listed :: "string \<Rightarrow> group \<Rightarrow> plain_group" where
  "plain_listed rid g = \<lparr> pl_room = rid, pl_name = grp_name g, pl_version = grp_config_version g,
     pl_config = grp_config g \<rparr>"

lemma group_list_view:
  assumes "group_list h rows = Inr gs"
  shows "list_all2 (\<lambda>r g. plain_of h r = Some (plain_listed (gr_room_id r) g) \<and> grp_id g = gr_id r) rows gs"
  using assms
  by (induction h rows arbitrary: gs rule: group_list.induct)
    (auto simp: result_then_Inr plain_of_def plain_listed_def)

lemma plain_of_room: "plain_of h r = Some p \<Longrightarrow> pl_room p = gr_room_id r"
  by (auto simp: plain_of_def split: sum.splits)

lemma group_view_Some:
  assumes "db_ok d"
  shows "group_view h d k = Some p \<longleftrightarrow> (\<exists>r \<in> set (db_groups d). gr_id r = k \<and> plain_of h r = Some p)"
proof
  show "group_view h d k = Some p \<Longrightarrow> \<exists>r \<in> set (db_groups d). gr_id r = k \<and> plain_of h r = Some p"
    using row_by_Some by (fastforce simp: group_view_def bind_eq_Some_conv)
next
  assume "\<exists>r \<in> set (db_groups d). gr_id r = k \<and> plain_of h r = Some p"
  then obtain r where "r \<in> set (db_groups d)" "gr_id r = k" "plain_of h r = Some p"
    by blast
  then show "group_view h d k = Some p"
    using groups_t.lookup_iff [OF assms, of k r] by (simp add: group_view_def)
qed

text \<open>The listing of a room is the part of the map in that room.\<close>

lemma list_groups_view:
  assumes ok: "db_ok d" and run: "list_groups h rid d = (Inr gs, d')"
  shows "(\<lambda>g. (grp_id g, plain_listed rid g)) ` set gs =
    {(k, p). group_view h d k = Some p \<and> pl_room p = rid}" (is "?A = ?B")
proof -
  define rows where "rows = order_desc gr_created_at (select_where (\<lambda>g. gr_room_id g = rid) (db_groups d))"
  have rows: "set rows = {r \<in> set (db_groups d). gr_room_id r = rid}"
    by (simp add: rows_def)
  have "group_list h rows = Inr gs"
    using run by (auto simp: list_groups_def rows_def)
  note pairs = list_all2_set [OF group_list_view [OF this]]
  show ?thesis
  proof
    show "?A \<subseteq> ?B"
    proof
      fix x assume "x \<in> ?A"
      then obtain g where g: "g \<in> set gs" "x = (grp_id g, plain_listed rid g)"
        by blast
      from pairs(1) g(1) obtain r where r: "r \<in> set rows"
        "plain_of h r = Some (plain_listed (gr_room_id r) g)" "grp_id g = gr_id r"
        by blast
      have "plain_of h r = Some (plain_listed rid g)" "r \<in> set (db_groups d)"
        using r rows by auto
      then show "x \<in> ?B"
        using g(2) r(3) group_view_Some [OF ok, of h] by (auto simp: plain_listed_def)
    qed
    show "?B \<subseteq> ?A"
    proof
      fix x assume "x \<in> ?B"
      then obtain k p where x: "x = (k, p)" "group_view h d k = Some p" "pl_room p = rid"
        by blast
      then obtain r where r: "r \<in> set (db_groups d)" "gr_id r = k" "plain_of h r = Some p"
        using group_view_Some [OF ok] by blast
      then have "r \<in> set rows"
        using rows plain_of_room x(3) by fastforce
      with pairs(2) obtain g where "g \<in> set gs" "plain_of h r = Some (plain_listed (gr_room_id r) g)"
        "grp_id g = gr_id r"
        by blast
      moreover have "gr_room_id r = rid"
        using plain_of_room [OF r(3)] x(3) by simp
      ultimately have "p = plain_listed rid g" "k = grp_id g" "g \<in> set gs"
        using r by simp_all
      then show "x \<in> ?A"
        unfolding x(1) by blast
    qed
  qed
qed

end
