(* ===== verification/User_Export.thy ===== *)
theory User_Export
  imports App_State
begin

text \<open>
  What the export of one user contains: exactly the rows that belong to the rooms of the user,
  table by table, and nothing of the system configuration.
\<close>

lemma concat_single: "concat (map (\<lambda>e. if Q e then [e] else []) es) = filter Q es"
  by (induction es) auto

lemma room_join:
  assumes "db_ok d"
  shows "[x. x \<leftarrow> t, r \<leftarrow> db_rooms d, rid x = rm_id r, rm_owner_id r = u] =
    filter (\<lambda>x. room_owner d (rid x) = Some u) t"
proof -
  have "distinct (map rm_id (db_rooms d))"
    using assms by (simp add: db_ok_def keys_ok_def)
  note join = join_row_by [OF this]
  have "[x. x \<leftarrow> t, r \<leftarrow> db_rooms d, rid x = rm_id r, rm_owner_id r = u] =
      concat (map (\<lambda>x. if room_owner d (rid x) = Some u then [x] else []) t)"
    unfolding join
    by (rule arg_cong [where f = concat], rule map_cong [OF refl])
      (auto simp: room_owner_def split: option.splits)
  then show ?thesis
    by (simp add: concat_single)
qed

lemma device_join:
  assumes "db_ok d"
  shows "[x. x \<leftarrow> t, v \<leftarrow> db_devices d, did x = dv_id v, r \<leftarrow> db_rooms d, dv_room_id v = rm_id r,
      rm_owner_id r = u] = filter (\<lambda>x. device_owner d (did x) = Some u) t"
proof -
  have dist: "distinct (map dv_id (db_devices d))" "distinct (map rm_id (db_rooms d))"
    using assms by (simp_all add: db_ok_def keys_ok_def)
  have "[x. x \<leftarrow> t, v \<leftarrow> db_devices d, did x = dv_id v, r \<leftarrow> db_rooms d, dv_room_id v = rm_id r,
      rm_owner_id r = u] = concat (map (\<lambda>x. if device_owner d (did x) = Some u then [x] else []) t)"
    unfolding join_row_by [OF dist(1)] join_row_by [OF dist(2)]
    by (rule arg_cong [where f = concat], rule map_cong [OF refl])
      (auto simp: device_owner_def room_owner_def split: option.splits)
  then show ?thesis
    by (simp add: concat_single)
qed

lemma export_user_backup_eq:
  assumes "db_ok d"
  shows "export_user_backup u d = (Inr \<lparr>
     bd_users = export_query user_columns (filter (\<lambda>x. us_id x = u) (db_users d)),
     bd_rooms = export_query room_columns (filter (\<lambda>r. rm_owner_id r = u) (db_rooms d)),
     bd_groups = export_query group_columns
       (filter (\<lambda>g. room_owner d (gr_room_id g) = Some u) (db_groups d)),
     bd_devices = export_query device_columns
       (filter (\<lambda>v. room_owner d (dv_room_id v) = Some u) (db_devices d)),
     bd_events = export_query event_columns
       (filter (\<lambda>e. device_owner d (ei_device_id e) = Some u) (db_events d)),
     bd_config_pushes = export_query push_columns
       (filter (\<lambda>p. device_owner d (pu_device_id p) = Some u) (db_pushes d)),
     bd_system_config = [] \<rparr>, d)"
  by (simp only: export_user_backup_def reading_def room_join [OF assms] device_join [OF assms]
      select_where_def)

end
