(* ===== verification/Routes.thy ===== *)
theory Routes
  imports Web_Api
begin

text \<open>
  The tables of routes of \<open>src/api.rs\<close> and \<open>src/client_api.rs\<close>: the path patterns, the methods and
  the handlers, and the arguments that each handler extracts from an HTTP request, in the order of its
  parameters. Matching a path, decoding a segment and parsing a query or a body are axum's: they are
  parameters, with what the code relies on as \<open>routing_laws\<close>.
\<close>

section \<open>HTTP requests and the library\<close>

datatype http_method = GET | HEAD | POST | PUT | PATCH | DELETE | OtherMethod

record http_request =
  hr_method :: http_method
  hr_path :: string
  hr_query :: "string option"
  hr_authorization :: "string option"
  hr_forwarded :: "string option"
  hr_content_type :: "string option"
  hr_body :: bytes

text \<open>An extractor that fails answers with a status of its own.\<close>

type_synonym 'a extractor = "http_request \<Rightarrow> nat + 'a"

record http_library =
  hl_match :: "string \<Rightarrow> string \<Rightarrow> string list option"
  hl_decode :: "string \<Rightarrow> string option"
  hl_login :: "login_request extractor"
  hl_change_password :: "change_password_request extractor"
  hl_create_room :: "string extractor"
  hl_update_device :: "update_device_request extractor"
  hl_create_group :: "(string \<times> vnt_client_config) extractor"
  hl_update_group :: "update_group_request extractor"
  hl_device_id :: "string extractor"
  hl_backup :: "backup_envelope extractor"
  hl_event_query :: "event_query extractor"
  hl_backup_query :: "string option extractor"
  hl_import_query :: "string option extractor"

text \<open>The pattern of a route matches a path of as many segments; a segment \<open>:name\<close> of the pattern
  takes any segment that is not empty.\<close>

fun match_segments :: "string list \<Rightarrow> string list \<Rightarrow> string list option" where
  "match_segments [] [] = Some []"
| "match_segments (p # ps) (v # vs) =
     (if p \<noteq> [] \<and> hd p = CHR '':'' then
        (if v = [] then None else map_option ((#) v) (match_segments ps vs))
      else if p = v then match_segments ps vs else None)"
| "match_segments _ _ = None"

definition match_path :: "string \<Rightarrow> string \<Rightarrow> string list option" where
  "match_path pattern path = match_segments (split_on (CHR ''/'') pattern) (split_on (CHR ''/'') path)"

definition routing_laws :: "http_library \<Rightarrow> bool" where
  "routing_laws ax \<longleftrightarrow> hl_match ax = match_path \<and> (\<forall>v. CHR ''%'' \<notin> set v \<longrightarrow> hl_decode ax v = Some v)"

section \<open>The table of the web API\<close>

text \<open>The handlers.\<close>

datatype endpoint = E_index | E_public_config | E_login | E_register | E_change_password
  | E_delete_account | E_list_rooms | E_create_room | E_delete_room | E_list_devices
  | E_update_device | E_delete_device | E_kick_device | E_push_device | E_regenerate_device_token
  | E_list_groups | E_create_group | E_update_group | E_delete_group | E_push_group
  | E_add_group_device | E_remove_group_device | E_list_events | E_events_stream
  | E_export_backup | E_import_backup

type_synonym 'e route_table = "(string \<times> (http_method \<times> 'e) list) list"

definition api_routes :: "endpoint route_table" where
  "api_routes =
     [(''/'', [(GET, E_index)]),
      (''/api/public/config'', [(GET, E_public_config)]),
      (''/api/auth/login'', [(POST, E_login)]),
      (''/api/auth/register'', [(POST, E_register)]),
      (''/api/auth/change-password'', [(POST, E_change_password)]),
      (''/api/auth/account'', [(DELETE, E_delete_account)]),
      (''/api/rooms'', [(GET, E_list_rooms), (POST, E_create_room)]),
      (''/api/rooms/:room_id'', [(DELETE, E_delete_room)]),
      (''/api/rooms/:room_id/devices'', [(GET, E_list_devices)]),
      (''/api/rooms/:room_id/devices/:id'', [(PATCH, E_update_device), (DELETE, E_delete_device)]),
      (''/api/rooms/:room_id/devices/:id/kick'', [(POST, E_kick_device)]),
      (''/api/rooms/:room_id/devices/:id/push'', [(POST, E_push_device)]),
      (''/api/rooms/:room_id/devices/:id/token'', [(GET, E_regenerate_device_token)]),
      (''/api/rooms/:room_id/groups'', [(GET, E_list_groups), (POST, E_create_group)]),
      (''/api/rooms/:room_id/groups/:id'', [(PUT, E_update_group), (DELETE, E_delete_group)]),
      (''/api/rooms/:room_id/groups/:id/push'', [(POST, E_push_group)]),
      (''/api/rooms/:room_id/groups/:id/add'', [(POST, E_add_group_device)]),
      (''/api/rooms/:room_id/groups/:id/remove'', [(POST, E_remove_group_device)]),
      (''/api/events'', [(GET, E_list_events)]),
      (''/api/events/stream'', [(GET, E_events_stream)]),
      (''/api/backup/export'', [(GET, E_export_backup)]),
      (''/api/backup/import'', [(POST, E_import_backup)])]"

text \<open>The first route whose pattern matches, with what its parameters captured; a handler of \<open>get\<close>
  also answers HEAD.\<close>

fun find_route :: "(string \<Rightarrow> string \<Rightarrow> string list option) \<Rightarrow> string \<Rightarrow> 'e route_table \<Rightarrow>
    ((http_method \<times> 'e) list \<times> string list) option" where
  "find_route m path [] = None"
| "find_route m path ((pattern, methods) # routes) =
     (case m pattern path of
        Some captures \<Rightarrow> Some (methods, captures)
      | None \<Rightarrow> find_route m path routes)"

definition handler_for :: "http_method \<Rightarrow> (http_method \<times> 'e) list \<Rightarrow> 'e option" where
  "handler_for m methods = map_of methods (if m = HEAD then GET else m)"

definition dispatch :: "(string \<Rightarrow> string \<Rightarrow> string list option) \<Rightarrow> 'e route_table \<Rightarrow> http_request \<Rightarrow>
    nat + 'e \<times> string list" where
  "dispatch m routes r =
     (case find_route m (hr_path r) routes of
        None \<Rightarrow> Inl 404
      | Some (methods, captures) \<Rightarrow>
          (case handler_for (hr_method r) methods of
             None \<Rightarrow> Inl 405
           | Some e \<Rightarrow> Inr (e, captures)))"

section \<open>The arguments of the handlers\<close>

text \<open>\<open>Path<String>\<close> and \<open>Path<(String, String)>\<close>.\<close>

definition path_one :: "http_library \<Rightarrow> string list \<Rightarrow> nat + string" where
  "path_one ax captures = (case captures of [v] \<Rightarrow> ok_or 400 (hl_decode ax v) | _ \<Rightarrow> Inl 500)"

definition path_two :: "http_library \<Rightarrow> string list \<Rightarrow> nat + string \<times> string" where
  "path_two ax captures =
     (case captures of
        [v, w] \<Rightarrow> result_then (ok_or 400 (hl_decode ax v)) (\<lambda>v. result_then (ok_or 400 (hl_decode ax w)) (\<lambda>w. Inr (v, w)))
      | _ \<Rightarrow> Inl 500)"

fun endpoint_request :: "http_library \<Rightarrow> http_request \<Rightarrow> string list \<Rightarrow> endpoint \<Rightarrow> nat + api_request" where
  "endpoint_request ax r vs E_index = Inl 404"
| "endpoint_request ax r vs E_public_config = Inr GetPublicConfig"
| "endpoint_request ax r vs E_login =
     result_then (hl_login ax r) (\<lambda>b. Inr (PostLogin (hr_forwarded r) b))"
| "endpoint_request ax r vs E_register = result_then (hl_login ax r) (\<lambda>b. Inr (PostRegister b))"
| "endpoint_request ax r vs E_change_password =
     result_then (hl_change_password ax r) (\<lambda>b. Inr (PostChangePassword b))"
| "endpoint_request ax r vs E_delete_account = Inr DeleteAccount"
| "endpoint_request ax r vs E_list_rooms = Inr GetRooms"
| "endpoint_request ax r vs E_create_room = result_then (hl_create_room ax r) (\<lambda>name. Inr (PostRooms name))"
| "endpoint_request ax r vs E_delete_room = result_then (path_one ax vs) (\<lambda>rid. Inr (DeleteRoom rid))"
| "endpoint_request ax r vs E_list_devices = result_then (path_one ax vs) (\<lambda>rid. Inr (GetDevices rid))"
| "endpoint_request ax r vs E_update_device =
     result_then (path_two ax vs) (\<lambda>(rid, i).
     result_then (hl_update_device ax r) (\<lambda>b. Inr (PatchDevice rid i b)))"
| "endpoint_request ax r vs E_delete_device = result_then (path_two ax vs) (\<lambda>(rid, i). Inr (DeleteDevice rid i))"
| "endpoint_request ax r vs E_kick_device = result_then (path_two ax vs) (\<lambda>(rid, i). Inr (PostKick rid i))"
| "endpoint_request ax r vs E_push_device = result_then (path_two ax vs) (\<lambda>(rid, i). Inr (PostPushDevice rid i))"
| "endpoint_request ax r vs E_regenerate_device_token =
     result_then (path_two ax vs) (\<lambda>(rid, i). Inr (GetToken rid i))"
| "endpoint_request ax r vs E_list_groups = result_then (path_one ax vs) (\<lambda>rid. Inr (GetGroups rid))"
| "endpoint_request ax r vs E_create_group =
     result_then (path_one ax vs) (\<lambda>rid.
     result_then (hl_create_group ax r) (\<lambda>(name, config). Inr (PostGroups rid name config)))"
| "endpoint_request ax r vs E_update_group =
     result_then (path_two ax vs) (\<lambda>(rid, g).
     result_then (hl_update_group ax r) (\<lambda>b. Inr (PutGroup rid g b)))"
| "endpoint_request ax r vs E_delete_group = result_then (path_two ax vs) (\<lambda>(rid, g). Inr (DeleteGroup rid g))"
| "endpoint_request ax r vs E_push_group = result_then (path_two ax vs) (\<lambda>(rid, g). Inr (PostPushGroup rid g))"
| "endpoint_request ax r vs E_add_group_device =
     result_then (path_two ax vs) (\<lambda>(rid, g).
     result_then (hl_device_id ax r) (\<lambda>i. Inr (PostGroupAdd rid g i)))"
| "endpoint_request ax r vs E_remove_group_device =
     result_then (path_two ax vs) (\<lambda>(rid, g).
     result_then (hl_device_id ax r) (\<lambda>i. Inr (PostGroupRemove rid g i)))"
| "endpoint_request ax r vs E_list_events = result_then (hl_event_query ax r) (\<lambda>q. Inr (GetEvents q))"
| "endpoint_request ax r vs E_events_stream = Inr GetEventsStream"
| "endpoint_request ax r vs E_export_backup = result_then (hl_backup_query ax r) (\<lambda>scope. Inr (GetBackup scope))"
| "endpoint_request ax r vs E_import_backup =
     result_then (hl_import_query ax r) (\<lambda>mode.
     result_then (hl_backup ax r) (\<lambda>b. Inr (PostBackup mode b)))"

text \<open>The handlers without an \<open>AuthUser\<close> among their parameters; in the others it comes first.\<close>

fun takes_user :: "endpoint \<Rightarrow> bool" where
  "takes_user E_index = False"
| "takes_user E_public_config = False"
| "takes_user E_login = False"
| "takes_user E_register = False"
| "takes_user _ = True"

section \<open>Serving a request\<close>

datatype http_answer = Page | Answer api_response

definition serve_endpoint ::
    "host \<Rightarrow> fresh \<Rightarrow> i64 \<Rightarrow> http_library \<Rightarrow> http_request \<Rightarrow> string list \<Rightarrow> endpoint \<Rightarrow> (nat, http_answer) app_op" where
  "serve_endpoint h f now ax r captures e =
     (if e = E_index then ret Page
      else if takes_user e then
        andthen (map_err (of_result (from_request_parts h now (hr_authorization r))) status_number) (\<lambda>user.
        andthen (of_result (endpoint_request ax r captures e)) (\<lambda>req.
        answering Answer (map_err (user_route h f user req) status_number)))
      else
        andthen (of_result (endpoint_request ax r captures e)) (\<lambda>req.
        answering Answer (map_err (handle_request h f now None req) status_number)))"

definition serve_http ::
    "host \<Rightarrow> fresh \<Rightarrow> i64 \<Rightarrow> http_library \<Rightarrow> http_request \<Rightarrow> (nat, http_answer) app_op" where
  "serve_http h f now ax r =
     andthen (of_result (dispatch (hl_match ax) api_routes r)) (\<lambda>(e, captures).
     serve_endpoint h f now ax r captures e)"

section \<open>The table of the client console\<close>

datatype console_endpoint = C_health | C_ws

definition console_routes :: "console_endpoint route_table" where
  "console_routes = [(''/'', [(GET, C_health)]), (''/client/ws'', [(GET, C_ws)])]"

text \<open>What a request to the console leads to: a fixed text, or a WebSocket that \<open>handle_socket\<close>
  serves when the upgrade is accepted (\<open>upgrade\<close> gives the status otherwise).\<close>

datatype console_answer = Health json | Upgraded

definition serve_console ::
    "(string \<Rightarrow> string \<Rightarrow> string list option) \<Rightarrow> unit extractor \<Rightarrow> http_request \<Rightarrow> nat + console_answer" where
  "serve_console m upgrade r =
     result_then (dispatch m console_routes r) (\<lambda>(e, captures).
     case e of
       C_health \<Rightarrow> Inr (Health (JObj [(''status'', JStr ''ok''), (''service'', JStr ''vnt-hub-console'')]))
     | C_ws \<Rightarrow> result_then (upgrade r) (\<lambda>_. Inr Upgraded))"

section \<open>Every request has a route\<close>

text \<open>The request line of each request, the parts of its path that vary, and what the extractors have
  to find in the rest.\<close>

fun method_of :: "api_request \<Rightarrow> http_method" where
  "method_of (PostLogin _ _) = POST" | "method_of (PostRegister _) = POST"
| "method_of (PostChangePassword _) = POST" | "method_of DeleteAccount = DELETE"
| "method_of (PostRooms _) = POST" | "method_of (DeleteRoom _) = DELETE"
| "method_of (PatchDevice _ _ _) = PATCH" | "method_of (DeleteDevice _ _) = DELETE"
| "method_of (PostKick _ _) = POST" | "method_of (PostPushDevice _ _) = POST"
| "method_of (PostGroups _ _ _) = POST" | "method_of (PutGroup _ _ _) = PUT"
| "method_of (DeleteGroup _ _) = DELETE" | "method_of (PostPushGroup _ _) = POST"
| "method_of (PostGroupAdd _ _ _) = POST" | "method_of (PostGroupRemove _ _ _) = POST"
| "method_of (PostBackup _ _) = POST" | "method_of _ = GET"

definition room_path :: "string \<Rightarrow> string \<Rightarrow> string" where
  "room_path rid rest = ''/api/rooms/'' @ rid @ rest"

fun path_of :: "api_request \<Rightarrow> string" where
  "path_of GetPublicConfig = ''/api/public/config''"
| "path_of (PostLogin _ _) = ''/api/auth/login''"
| "path_of (PostRegister _) = ''/api/auth/register''"
| "path_of (PostChangePassword _) = ''/api/auth/change-password''"
| "path_of DeleteAccount = ''/api/auth/account''"
| "path_of GetRooms = ''/api/rooms''"
| "path_of (PostRooms _) = ''/api/rooms''"
| "path_of (DeleteRoom rid) = room_path rid []"
| "path_of (GetDevices rid) = room_path rid ''/devices''"
| "path_of (PatchDevice rid i _) = room_path rid (''/devices/'' @ i)"
| "path_of (DeleteDevice rid i) = room_path rid (''/devices/'' @ i)"
| "path_of (PostKick rid i) = room_path rid (''/devices/'' @ i @ ''/kick'')"
| "path_of (PostPushDevice rid i) = room_path rid (''/devices/'' @ i @ ''/push'')"
| "path_of (GetToken rid i) = room_path rid (''/devices/'' @ i @ ''/token'')"
| "path_of (GetGroups rid) = room_path rid ''/groups''"
| "path_of (PostGroups rid _ _) = room_path rid ''/groups''"
| "path_of (PutGroup rid g _) = room_path rid (''/groups/'' @ g)"
| "path_of (DeleteGroup rid g) = room_path rid (''/groups/'' @ g)"
| "path_of (PostPushGroup rid g) = room_path rid (''/groups/'' @ g @ ''/push'')"
| "path_of (PostGroupAdd rid g _) = room_path rid (''/groups/'' @ g @ ''/add'')"
| "path_of (PostGroupRemove rid g _) = room_path rid (''/groups/'' @ g @ ''/remove'')"
| "path_of (GetEvents _) = ''/api/events''"
| "path_of GetEventsStream = ''/api/events/stream''"
| "path_of (GetBackup _) = ''/api/backup/export''"
| "path_of (PostBackup _ _) = ''/api/backup/import''"

fun path_values :: "api_request \<Rightarrow> string list" where
  "path_values (PatchDevice rid i _) = [rid, i]" | "path_values (DeleteDevice rid i) = [rid, i]"
| "path_values (PostKick rid i) = [rid, i]" | "path_values (PostPushDevice rid i) = [rid, i]"
| "path_values (GetToken rid i) = [rid, i]" | "path_values (PutGroup rid g _) = [rid, g]"
| "path_values (DeleteGroup rid g) = [rid, g]" | "path_values (PostPushGroup rid g) = [rid, g]"
| "path_values (PostGroupAdd rid g _) = [rid, g]" | "path_values (PostGroupRemove rid g _) = [rid, g]"
| "path_values req = (case request_room req of None \<Rightarrow> [] | Some rid \<Rightarrow> [rid])"

definition plain_segment :: "string \<Rightarrow> bool" where
  "plain_segment v \<longleftrightarrow> v \<noteq> [] \<and> CHR ''/'' \<notin> set v \<and> CHR ''%'' \<notin> set v"

fun carries :: "http_library \<Rightarrow> http_request \<Rightarrow> api_request \<Rightarrow> bool" where
  "carries ax r (PostLogin fwd b) = (hr_forwarded r = fwd \<and> hl_login ax r = Inr b)"
| "carries ax r (PostRegister b) = (hl_login ax r = Inr b)"
| "carries ax r (PostChangePassword b) = (hl_change_password ax r = Inr b)"
| "carries ax r (PostRooms name) = (hl_create_room ax r = Inr name)"
| "carries ax r (PatchDevice _ _ b) = (hl_update_device ax r = Inr b)"
| "carries ax r (PostGroups _ name config) = (hl_create_group ax r = Inr (name, config))"
| "carries ax r (PutGroup _ _ b) = (hl_update_group ax r = Inr b)"
| "carries ax r (PostGroupAdd _ _ i) = (hl_device_id ax r = Inr i)"
| "carries ax r (PostGroupRemove _ _ i) = (hl_device_id ax r = Inr i)"
| "carries ax r (GetEvents q) = (hl_event_query ax r = Inr q)"
| "carries ax r (GetBackup scope) = (hl_backup_query ax r = Inr scope)"
| "carries ax r (PostBackup mode b) = (hl_import_query ax r = Inr mode \<and> hl_backup ax r = Inr b)"
| "carries ax r _ = True"

fun endpoint_of :: "api_request \<Rightarrow> endpoint" where
  "endpoint_of GetPublicConfig = E_public_config" | "endpoint_of (PostLogin _ _) = E_login"
| "endpoint_of (PostRegister _) = E_register" | "endpoint_of (PostChangePassword _) = E_change_password"
| "endpoint_of DeleteAccount = E_delete_account" | "endpoint_of GetRooms = E_list_rooms"
| "endpoint_of (PostRooms _) = E_create_room" | "endpoint_of (DeleteRoom _) = E_delete_room"
| "endpoint_of (GetDevices _) = E_list_devices" | "endpoint_of (PatchDevice _ _ _) = E_update_device"
| "endpoint_of (DeleteDevice _ _) = E_delete_device" | "endpoint_of (PostKick _ _) = E_kick_device"
| "endpoint_of (PostPushDevice _ _) = E_push_device" | "endpoint_of (GetToken _ _) = E_regenerate_device_token"
| "endpoint_of (GetGroups _) = E_list_groups" | "endpoint_of (PostGroups _ _ _) = E_create_group"
| "endpoint_of (PutGroup _ _ _) = E_update_group" | "endpoint_of (DeleteGroup _ _) = E_delete_group"
| "endpoint_of (PostPushGroup _ _) = E_push_group" | "endpoint_of (PostGroupAdd _ _ _) = E_add_group_device"
| "endpoint_of (PostGroupRemove _ _ _) = E_remove_group_device" | "endpoint_of (GetEvents _) = E_list_events"
| "endpoint_of GetEventsStream = E_events_stream" | "endpoint_of (GetBackup _) = E_export_backup"
| "endpoint_of (PostBackup _ _) = E_import_backup"

lemma split_segment [simp]:
  "CHR ''/'' \<notin> set v \<Longrightarrow> split_on (CHR ''/'') (v @ CHR ''/'' # w) = v # split_on (CHR ''/'') w"
  "CHR ''/'' \<notin> set v \<Longrightarrow> split_on (CHR ''/'') v = [v]"
  by (simp_all add: split_on_append_sep split_on_absent)

lemma route_found:
  assumes "\<forall>v \<in> set (path_values req). plain_segment v"
  shows "\<exists>methods. find_route match_path (path_of req) api_routes = Some (methods, path_values req) \<and>
    handler_for (method_of req) methods = Some (endpoint_of req)"
  using assms
  by (cases req) (simp_all add: api_routes_def match_path_def room_path_def plain_segment_def handler_for_def)

lemma dispatch_found:
  assumes "routing_laws ax" "hr_method r = method_of req" "hr_path r = path_of req"
    and "\<forall>v \<in> set (path_values req). plain_segment v"
  shows "dispatch (hl_match ax) api_routes r = Inr (endpoint_of req, path_values req)"
  using route_found [OF assms(4)] assms(1-3) by (auto simp: dispatch_def routing_laws_def)

lemma request_extracted:
  assumes "routing_laws ax" "\<forall>v \<in> set (path_values req). plain_segment v" "carries ax r req"
  shows "endpoint_request ax r (path_values req) (endpoint_of req) = Inr req"
proof -
  have "hl_decode ax v = Some v" if "plain_segment v" for v
    using assms(1) that by (simp add: routing_laws_def plain_segment_def)
  with assms(2,3) show ?thesis
    by (cases req) (simp_all add: path_one_def path_two_def)
qed

lemma endpoint_public: "takes_user (endpoint_of req) = (\<not> is_public req)" "endpoint_of req \<noteq> E_index"
  by (cases req; simp)+

section \<open>What is served\<close>

lemma public_ignores_token: "is_public req \<Longrightarrow> handle_request h f now auth req = handle_request h f now auth' req"
  by (cases req) (simp_all add: handle_request_def)

lemma andthen_Inr: "andthen (of_result (Inr x)) k = k x"
  by (simp add: fun_eq_iff andthen_def)

lemma answering_then: "answering g (andthen m k) = andthen m (\<lambda>x. answering g (k x))"
  by (simp add: fun_eq_iff answering_def andthen_def split: prod.split sum.split)

lemma map_err_then: "map_err (andthen m k) g = andthen (map_err m g) (\<lambda>x. map_err (k x) g)"
  by (simp add: fun_eq_iff map_err_def andthen_def split: prod.split sum.split)

text \<open>A request with a route is the request that the other theories speak of.\<close>

lemma serve_routed:
  assumes "routing_laws ax" "hr_method r = method_of req" "hr_path r = path_of req"
    and "\<forall>v \<in> set (path_values req). plain_segment v" "carries ax r req"
  shows "serve_http h f now ax r =
    answering Answer (map_err (handle_request h f now (hr_authorization r) req) status_number)"
proof (cases "is_public req")
  case True
  then show ?thesis
    using dispatch_found [OF assms(1-4)] request_extracted [OF assms(1,4,5)] endpoint_public [of req]
      public_ignores_token [OF True, of h f now None "hr_authorization r"]
    by (simp add: serve_http_def serve_endpoint_def andthen_Inr)
next
  case False
  then show ?thesis
    using dispatch_found [OF assms(1-4)] request_extracted [OF assms(1,4,5)] endpoint_public [of req]
    by (simp add: serve_http_def serve_endpoint_def andthen_Inr handle_private answering_then map_err_then)
qed

text \<open>The requests that need no identity: what they answer, and all that they may write.\<close>

fun public_answer :: "api_response \<Rightarrow> bool" where
  "public_answer (RPublicConfig _) = True"
| "public_answer (RToken _) = True"
| "public_answer (RId _) = True"
| "public_answer _ = False"

definition signed_up :: "app_state \<Rightarrow> app_state \<Rightarrow> bool" where
  "signed_up s s' \<longleftrightarrow> (\<exists>lf us. s' = s\<lparr>st_login_failures := lf, st_db := (st_db s)\<lparr>db_users := db_users (st_db s) @ us\<rparr>\<rparr> \<and>
     (us = [] \<or> \<not> st_disable_register s \<and> (\<exists>u. us = [u] \<and> us_role u = ''user'')))"

lemma signed_up_refl [simp]: "signed_up s s"
  unfolding signed_up_def by (intro exI [of _ "st_login_failures s"] exI [of _ "[]"]) simp

lemma signed_up_failures [simp]: "signed_up s (s\<lparr>st_login_failures := lf\<rparr>)"
  unfolding signed_up_def by (intro exI [of _ lf] exI [of _ "[]"]) simp

lemma login_signed_up: "signed_up s (snd (login h f fwd b s))"
proof (cases "locked_out (fr_clock f 0) (login_failure_key fwd) s")
  case True
  then show ?thesis
    by (simp add: login_locked)
next
  case False
  have "signed_up s (note_failure t k s)" "signed_up s (forget_failures k s)" for t k
    by (simp_all add: note_failure_def forget_failures_def)
  then show ?thesis
    unfolding login_eq [OF False] by (simp split: option.split sum.split prod.split)
qed

lemma register_signed_up: "signed_up s (snd (register h f b s))"
proof (cases "register h f b s")
  case (Pair res s')
  show ?thesis
  proof (cases res)
    case (Inl e)
    with Pair have "s' = s"
      by (auto simp: register_def Let_def map_err_def andthen_def db_or_eq insert_user_def
          split: if_splits sum.splits)
    with Pair show ?thesis by simp
  next
    case (Inr uid)
    with Pair have "register h f b s = (Inr uid, s')"
      by simp
    from register_result [OF this] obtain hash where "\<not> st_disable_register s"
      "s' = s\<lparr>st_db := (st_db s)\<lparr>db_users := db_users (st_db s) @ [\<lparr> us_id = uid,
         us_username = lr_username b, us_password = hash, us_role = ''user'', us_created_at = fr_clock f 0 \<rparr>]\<rparr>\<rparr>"
      by blast
    then show ?thesis
      unfolding Pair snd_conv signed_up_def
      by (intro exI [of _ "st_login_failures s"] exI [of _ "[\<lparr> us_id = uid,
         us_username = lr_username b, us_password = hash, us_role = ''user'', us_created_at = fr_clock f 0 \<rparr>]"]) simp
  qed
qed

lemma snd_answering [simp]: "snd (answering g m s) = snd (m s)"
  by (simp add: answering_def andthen_def split: prod.split sum.split)

lemma public_effect:
  assumes "is_public req" "handle_request h f now auth req s = (res, s')"
  shows "signed_up s s' \<and> (\<forall>a. res = Inr a \<longrightarrow> public_answer a)"
proof
  have "signed_up s (snd (handle_request h f now auth req s))"
    using assms(1) login_signed_up register_signed_up
    by (cases req) (simp_all add: handle_request_def public_config_def)
  then show "signed_up s s'"
    by (simp add: assms(2))
  show "\<forall>a. res = Inr a \<longrightarrow> public_answer a"
    using assms
    by (cases req) (auto simp: handle_request_def answering_def andthen_def split: prod.splits sum.splits)
qed

lemma extracted_public:
  "endpoint_request ax r vs e = Inr req \<Longrightarrow> \<not> takes_user e \<Longrightarrow> is_public req"
  by (cases e) (auto simp: result_then_Inr)

text \<open>Without a token that checks nothing else is reached, whatever the path, the query and the body.\<close>

lemma serve_anonymous:
  assumes "from_request_parts h now (hr_authorization r) = Inl e" "serve_http h f now ax r s = (res, s')"
  shows "signed_up s s' \<and> (\<forall>a. res = Inr (Answer a) \<longrightarrow> public_answer a)"
proof (cases "dispatch (hl_match ax) api_routes r")
  case (Inl n)
  with assms(2) show ?thesis
    by (auto simp: serve_http_def andthen_def)
next
  case (Inr p)
  then obtain en vs where p: "dispatch (hl_match ax) api_routes r = Inr (en, vs)"
    by (cases p) auto
  show ?thesis
  proof (cases "takes_user en \<or> en = E_index")
    case True
    with assms p show ?thesis
      by (cases en) (auto simp: serve_http_def serve_endpoint_def andthen_def map_err_def)
  next
    case False
    show ?thesis
    proof (cases "endpoint_request ax r vs en")
      case (Inl n)
      with assms(2) p False show ?thesis
        by (auto simp: serve_http_def serve_endpoint_def andthen_def)
    next
      case (Inr req)
      obtain q s1 where run: "handle_request h f now None req s = (q, s1)"
        by force
      have "signed_up s s1 \<and> (\<forall>a. q = Inr a \<longrightarrow> public_answer a)"
        using public_effect [OF extracted_public run] Inr False by blast
      with assms(2) p False Inr run show ?thesis
        by (auto simp: serve_http_def serve_endpoint_def andthen_def answering_def map_err_def split: sum.splits)
    qed
  qed
qed

section \<open>What the console serves\<close>

text \<open>A pattern without parameters matches itself only.\<close>

lemma match_static:
  "\<forall>p \<in> set ps. p = [] \<or> hd p \<noteq> CHR '':'' \<Longrightarrow> match_segments ps vs = (if ps = vs then Some [] else None)"
  by (induction ps vs rule: match_segments.induct) auto

lemma match_path_static:
  assumes "CHR '':'' \<notin> set pattern"
  shows "match_path pattern path = (if pattern = path then Some [] else None)"
proof -
  have "CHR '':'' \<notin> set p" if "p \<in> set (split_on (CHR ''/'') pattern)" for p
    using assms that by (induction pattern arbitrary: p) (auto split: if_splits list.splits)
  then have "p = [] \<or> hd p \<noteq> CHR '':''" if "p \<in> set (split_on (CHR ''/'') pattern)" for p
    using that by (metis list.set_sel(1))
  moreover have "split_on (CHR ''/'') pattern = split_on (CHR ''/'') path \<longleftrightarrow> pattern = path"
    by (metis join_split_on)
  ultimately show ?thesis
    by (simp add: match_path_def match_static)
qed

theorem console_served:
  "serve_console match_path upgrade r =
     (if hr_path r \<noteq> ''/'' \<and> hr_path r \<noteq> ''/client/ws'' then Inl 404
      else if hr_method r \<noteq> GET \<and> hr_method r \<noteq> HEAD then Inl 405
      else if hr_path r = ''/'' then
        Inr (Health (JObj [(''status'', JStr ''ok''), (''service'', JStr ''vnt-hub-console'')]))
      else result_then (upgrade r) (\<lambda>_. Inr Upgraded))"
  by (simp add: serve_console_def dispatch_def console_routes_def match_path_static handler_for_def)

end
