(* ===== verification/Sample_Hub.thy ===== *)
theory Sample_Hub
  imports Launch Races Isolation Group_Store User_Export Routes
begin

text \<open>
  A small host and database on which the properties are applied: a toy cipher, a toy base64 and
  toy serialisers that satisfy the laws the properties assume. They stand in for the crates in the
  examples only.
\<close>

section \<open>An encoder without dots and colons\<close>

definition nibble :: "nat \<Rightarrow> char" where
  "nibble n = char_of (97 + n)"

fun toy_enc :: "bytes \<Rightarrow> string" where
  "toy_enc [] = []"
| "toy_enc (b # bs) = nibble (unat b div 16) # nibble (unat b mod 16) # toy_enc bs"

fun toy_dec :: "string \<Rightarrow> bytes option" where
  "toy_dec [] = Some []"
| "toy_dec (x # y # r) =
     map_option ((#) (word_of_nat (16 * (of_char x - 97) + (of_char y - 97)))) (toy_dec r)"
| "toy_dec _ = None"

lemma unat_byte: "unat (b :: 8 word) < 256"
proof -
  have "unat b < 2 ^ LENGTH(8)"
    by (rule unsigned_less)
  then show ?thesis by simp
qed

lemma of_char_nibble: "n < 16 \<Longrightarrow> of_char (nibble n) = 97 + (n :: nat)"
  by (simp add: nibble_def)

lemma toy_dec_enc: "toy_dec (toy_enc bs) = Some bs"
proof (induction bs)
  case (Cons b bs)
  have "unat b div 16 < 16"
    using unat_byte [of b] by (simp add: less_mult_imp_div_less)
  moreover have "16 * (unat b div 16) + unat b mod 16 = unat b"
    by simp
  ultimately show ?case
    using Cons by (simp add: of_char_nibble)
qed simp

lemma toy_enc_chars: "c \<in> set (toy_enc bs) \<Longrightarrow> 97 \<le> (of_char c :: nat)"
proof (induction bs)
  case (Cons b bs)
  have "unat b < 256"
    by (rule unat_byte)
  then have "unat b div 16 < 16"
    by (simp add: less_mult_imp_div_less)
  with Cons show ?case
    by (auto simp: of_char_nibble)
qed simp

lemma length_toy_enc: "length (toy_enc bs) = 2 * length bs"
  by (induction bs) simp_all

section \<open>The host\<close>

definition toy_config :: vnt_client_config where
  "toy_config = default_config\<lparr>vc_token := ''tok'', vc_password := Some ''pw''\<rparr>"

definition toy_claims :: claims where
  "toy_claims = \<lparr> cl_sub = ''u1'', cl_username = ''bob'', cl_role = ''user'', cl_exp = 86500 \<rparr>"

definition toy_hello :: client_message where
  "toy_hello = Hello ''r1'' (Some ''d1'') (Some ''t1'') ''pc'' 1 None"

definition toy_host :: host where
  "toy_host = \<lparr>
     h_sha256 = (\<lambda>b. take 32 (b @ replicate 32 0)),
     h_seal = (\<lambda>k n p. Some (rev p)),
     h_open = (\<lambda>k n c. Some (rev c)),
     h_b64 = toy_enc, h_unb64 = toy_dec, h_b64_nopad = toy_enc,
     h_b64url = toy_enc, h_unb64url = toy_dec, h_hex = toy_enc,
     h_argon2_hash = (\<lambda>salt p. Some (''h'' @ p)),
     h_phc_parse = (\<lambda>s. Some s),
     h_argon2_verify = (\<lambda>p x. x = ''h'' @ p),
     h_config_json = (\<lambda>c. Some ''{}''),
     h_config_of_json = (\<lambda>s. Some (strip_secrets toy_config)),
     h_config_value = (\<lambda>c. JStr (vc_token c)),
     h_json_text = (\<lambda>j. ''{}''),
     h_json_of_bytes = (\<lambda>b. Some (JObj [(''alg'', JStr ''HS256'')])),
     h_claims_json = (\<lambda>c. if c = toy_claims then Some [1] else None),
     h_claims_of_json = (\<lambda>b. Some toy_claims),
     h_client_message = (\<lambda>s. if s = ''h'' then Some toy_hello
                             else if s = ''b'' then Some (Heartbeat 0) else None),
     h_console_master_key = None, h_jwt_secret_var = Some ''k'' \<rparr>"

lemma toy_host_simps [simp]:
  "h_sha256 toy_host b = take 32 (b @ replicate 32 0)"
  "h_seal toy_host k n p = Some (rev p)" "h_open toy_host k n p = Some (rev p)"
  "h_b64 toy_host = toy_enc" "h_unb64 toy_host = toy_dec" "h_b64_nopad toy_host = toy_enc"
  "h_b64url toy_host = toy_enc" "h_unb64url toy_host = toy_dec" "h_hex toy_host = toy_enc"
  "h_argon2_hash toy_host s w = Some (''h'' @ w)" "h_phc_parse toy_host x = Some x"
  "h_argon2_verify toy_host w x = (x = ''h'' @ w)"
  "h_config_json toy_host c = Some ''{}''"
  "h_config_of_json toy_host s = Some (strip_secrets toy_config)"
  "h_config_value toy_host c = JStr (vc_token c)" "h_json_text toy_host j = ''{}''"
  "h_json_of_bytes toy_host b = Some (JObj [(''alg'', JStr ''HS256'')])"
  "h_claims_json toy_host cl = (if cl = toy_claims then Some [1] else None)"
  "h_claims_of_json toy_host b = Some toy_claims"
  "h_client_message toy_host s = (if s = ''h'' then Some toy_hello
     else if s = ''b'' then Some (Heartbeat 0) else None)"
  "h_console_master_key toy_host = None" "h_jwt_secret_var toy_host = Some ''k''"
  by (simp_all add: toy_host_def)

lemma toy_cipher_laws: "cipher_laws toy_host"
  using toy_enc_chars by (fastforce simp: cipher_laws_def toy_dec_enc)

lemma toy_jwt_laws: "jwt_laws toy_host"
  using toy_enc_chars by (fastforce simp: jwt_laws_def toy_dec_enc split: if_splits)

lemma toy_argon2_laws: "argon2_laws toy_host"
  by (simp add: argon2_laws_def)

section \<open>A database\<close>

definition toy_bob :: auth_user where
  "toy_bob = \<lparr> au_id = ''u1'', au_username = ''bob'', au_role = ''user'' \<rparr>"

definition toy_device :: device_row where
  "toy_device = new_device ''d1'' ''r1'' ''pc'' None None ''t1'' 5"

definition toy_device2 :: device_row where
  "toy_device2 = new_device ''d2'' ''r2'' ''pc2'' None None ''t2'' 6"

definition toy_group :: group_row where
  "toy_group = \<lparr> gr_id = ''g1'', gr_room_id = ''r1'', gr_name = ''net'', gr_encrypted_token = None,
     gr_encrypted_server = None, gr_encrypted_password = None, gr_extra_config = None,
     gr_config_version = 3, gr_created_at = 4, gr_updated_at = 4 \<rparr>"

definition toy_event :: event_item where
  "toy_event = \<lparr> ei_id = ''e2'', ei_device_id = ''d2'', ei_event_type = ''up'', ei_payload = None,
     ei_created_at = 7 \<rparr>"

definition toy_db :: database where
  "toy_db = \<lparr>
     db_users =
       [\<lparr> us_id = ''u0'', us_username = ''admin'', us_password = ''hadmin'', us_role = ''admin'',
          us_created_at = 1 \<rparr>,
        \<lparr> us_id = ''u1'', us_username = ''bob'', us_password = ''hsecret'', us_role = ''user'',
          us_created_at = 2 \<rparr>,
        \<lparr> us_id = ''u2'', us_username = ''eve'', us_password = ''hother1'', us_role = ''user'',
          us_created_at = 2 \<rparr>],
     db_rooms =
       [\<lparr> rm_id = ''r1'', rm_name = ''one'', rm_owner_id = ''u1'', rm_created_at = 3 \<rparr>,
        \<lparr> rm_id = ''r2'', rm_name = ''two'', rm_owner_id = ''u2'', rm_created_at = 3 \<rparr>],
     db_groups = [toy_group],
     db_devices = [toy_device, toy_device2],
     db_events = [toy_event], db_pushes = [], db_sessions = [], db_system = [],
     db_foreign_keys = True \<rparr>"

definition toy_backup :: backup_data where
  "toy_backup = \<lparr> bd_users = [JNull, export_row [(''id'', SText ''u9''), (''username'', SText ''zoe''),
       (''password'', SText ''x''), (''role'', SText ''user''), (''created_at'', SInt 7)]],
     bd_rooms = [], bd_groups = [], bd_devices = [], bd_events = [], bd_config_pushes = [],
     bd_system_config = [] \<rparr>"

definition toy_state :: app_state where
  "toy_state = new_state toy_db False"

definition toy_fresh :: fresh where
  "toy_fresh = \<lparr> fr_clock = (\<lambda>i. 100), fr_uuid = (\<lambda>i. ''n'' @ replicate i (CHR ''x'')),
     fr_random = (\<lambda>i. replicate 12 0), fr_salt = ''s'' \<rparr>"

lemma toy_fresh_simps [simp]:
  "fr_clock toy_fresh i = 100" "fr_uuid toy_fresh i = ''n'' @ replicate i (CHR ''x'')"
  "fr_random toy_fresh i = replicate 12 0" "fr_salt toy_fresh = ''s''"
  by (simp_all add: toy_fresh_def)

lemmas toy_defs = toy_state_def new_state_def toy_db_def toy_device_def toy_device2_def toy_group_def
  toy_event_def new_device_def toy_bob_def

lemma toy_db_ok: "db_ok toy_db"
  by (auto simp: db_ok_defs toy_defs)

lemma toy_hub_ok: "hub_ok toy_state"
  using toy_db_ok by (simp add: toy_state_def hub_ok_new_state)

section \<open>A token\<close>

definition toy_token :: string where
  "toy_token = (case sign toy_host 100 ''u1'' ''bob'' ''user'' of Inr t \<Rightarrow> t | Inl _ \<Rightarrow> [])"

lemma toy_expiry: "as_usize (i64_add 100 (24 * 3600)) = 86500"
  by (simp add: as_usize_def i64_add_in_range is_i64_def)

lemma toy_sign: "sign toy_host 100 ''u1'' ''bob'' ''user'' = Inr toy_token"
  using toy_expiry by (simp add: toy_token_def sign_def Let_def toy_claims_def)

lemma toy_token_ok: "from_request_parts toy_host 100 (Some (''Bearer '' @ toy_token)) = Inr toy_bob"
proof -
  have "as_usize 100 \<le> as_usize (i64_add 100 (24 * 3600))"
    unfolding toy_expiry by (simp add: as_usize_def word_le_nat_alt)
  from verify_token_sign [OF toy_jwt_laws toy_sign this]
  show ?thesis
    using strip_prefix_append [of "''Bearer ''" toy_token]
    by (simp add: from_request_parts_def toy_bob_def)
qed

definition toy_login_request :: login_request where
  "toy_login_request = \<lparr> lr_username = ''bob'', lr_password = ''secret'' \<rparr>"

definition toy_bad_login :: login_request where
  "toy_bad_login = \<lparr> lr_username = ''bob'', lr_password = ''guess1'' \<rparr>"

text \<open>States in which bob can kick his device.\<close>

definition toy_kickable :: "app_state \<Rightarrow> bool" where
  "toy_kickable s \<longleftrightarrow> db_rooms (st_db s) = db_rooms toy_db \<and>
     (\<exists>x \<in> set (db_devices (st_db s)). dv_id x = ''d1'' \<and> dv_room_id x = ''r1'')"

lemma toy_kicks: "toy_kickable s \<Longrightarrow> \<exists>s'. kick_device toy_bob ''r1'' ''d1'' s = (Inr (), s')"
  by (auto simp: toy_kickable_def kick_device_def andthen_def ensure_room_access_eq access_error_def db_or_eq
      update_devices_def get_client_def remove_client_def send_def count_where_0 toy_db_def toy_bob_def
      split: option.splits)

lemma toy_state_kickable: "toy_kickable toy_state"
  by (simp add: toy_kickable_def toy_defs)

lemma toy_hello_accepted:
  "\<exists>s'. handle_client_hello toy_host toy_fresh ''ip'' toy_hello 0 toy_state =
     (Inr (Some (''d1'', ''pending'')), s') \<and> toy_kickable s'"
  by (simp add: handle_client_hello_def toy_hello_def attempt_def on_db_def andthen_def
      room_exists_def count_where_def upsert_device_hello_def fetch_optional_def update_devices_def
      update_where_def hello_update_def toy_kickable_def send_def toy_defs)

lemma toy_login:
  "login toy_host toy_fresh None toy_login_request toy_state = (Inr toy_token, toy_state)"
  using toy_sign
  by (simp add: login_eq locked_out_def login_failure_key_def credentials_def verify_password_def
      fetch_optional_def forget_failures_def toy_login_request_def toy_defs)

section \<open>A hub that has started, and a device that has connected\<close>

definition toy_started :: app_state where
  "toy_started = new_state (toy_db\<lparr>db_system :=
     [\<lparr> sy_key = ''tls_cert'', sy_value = toy_enc (as_bytes ''c''), sy_updated_at = 100 \<rparr>,
      \<lparr> sy_key = ''tls_key'', sy_value = toy_enc (as_bytes ''k''), sy_updated_at = 100 \<rparr>]\<rparr>) False"

lemma toy_starts:
  "startup toy_host toy_fresh (Some (''c'', ''k'')) False (toy_db\<lparr>db_devices := ds, db_events := es\<rparr>) =
    Inr (toy_started\<lparr>st_db := (st_db toy_started)\<lparr>db_devices := ds, db_events := es\<rparr>\<rparr>)"
  by (simp add: startup_def ensure_admin_def ensure_tls_cert_def tls_pem_def system_get_def system_set_def
      andthen_def count_where_def fetch_optional_def toy_db_def toy_started_def toy_dec_enc new_state_def
      del: toy_enc.simps)

lemma toy_startup: "startup toy_host toy_fresh (Some (''c'', ''k'')) False toy_db = Inr toy_started"
  using toy_starts [where ds = "db_devices toy_db" and es = "db_events toy_db"] by (simp add: toy_started_def new_state_def)

definition toy_connected :: app_state where
  "toy_connected = toy_started\<lparr>
     st_db := (st_db toy_started)\<lparr>db_devices := update_where (\<lambda>r. dv_id r = ''d1'')
       (hello_update ''pc'' None (Some ''ip'') 100) (db_devices (st_db toy_started))\<rparr>,
     st_clients := (\<lambda>_. None)(''d1'' := Some 0),
     st_sent := [(0, HelloAck ''d1'' None ''pending'' ''0.1.0'')]\<rparr>"

lemma toy_connect:
  "session_open toy_host toy_fresh ''ip'' toy_hello 0 toy_started = (Inr (Some ''d1''), toy_connected)"
  by (simp add: session_open_def handle_client_hello_def toy_hello_def attempt_def on_db_def andthen_def
      room_exists_def count_where_def upsert_device_hello_def fetch_optional_def update_devices_def
      update_where_def send_def insert_client_def push_current_config_if_needed_def hello_update_def
      toy_started_def toy_connected_def toy_defs)

lemma toy_connect_again:
  "\<exists>s'. session_open toy_host toy_fresh ''ip'' toy_hello 1 toy_connected = (Inr (Some ''d1''), s')"
  by (simp add: session_open_def handle_client_hello_def toy_hello_def attempt_def on_db_def andthen_def
      room_exists_def count_where_def upsert_device_hello_def fetch_optional_def update_devices_def
      update_where_def send_def insert_client_def push_current_config_if_needed_def hello_update_def
      online_unless_kicked_def toy_connected_def toy_started_def toy_defs)

text \<open>The device connects over a WebSocket; its heartbeat has not been handled yet.\<close>

definition toy_tasks :: "task list" where
  "toy_tasks = [Socket (\<lambda>_. toy_fresh) ''ip'' 0 [WsText ''h'', WsText ''b'']]"

definition toy_start :: udp_state where
  "toy_start = \<lparr> ud_peers = (\<lambda>_. None), ud_app = toy_started \<rparr>"

lemma toy_conns: "all_conns toy_host toy_tasks = [(0, Some ''d1'')]"
  by (simp add: all_conns_def toy_tasks_def hello_device_def toy_hello_def)

lemma toy_schedule:
  "pool_step\<^sup>*\<^sup>* (map (task_thread toy_host) toy_tasks, toy_start)
     ([finished (on_app_t (session_rest toy_host (\<lambda>_. toy_fresh) ''d1'' [Heartbeat 0]))],
      toy_start\<lparr>ud_app := toy_connected\<rparr>)"
proof -
  let ?t = "handle_client_session_t toy_host (\<lambda>_. toy_fresh) ''ip'' toy_hello 0 [Heartbeat 0]"
  let ?t' = "session_rest toy_host (\<lambda>_. toy_fresh) ''d1'' [Heartbeat 0]"
  have "runs (?t, ud_app toy_start) (?t', toy_connected)"
    using session_opens [of toy_host "\<lambda>_. toy_fresh"] toy_connect by (simp add: toy_start_def)
  then have "runs (on_app_t ?t, toy_start) (on_app_t ?t', toy_start\<lparr>ud_app := toy_connected\<rparr>)"
    unfolding on_app_t_def by (rule runs_focus) simp_all
  moreover have "handle_socket_t toy_host (\<lambda>_. toy_fresh) ''ip'' 0 [WsText ''h'', WsText ''b''] = ?t"
    by (simp add: handle_socket_t_def ws_messages_def List.map_filter_def)
  ultimately show ?thesis
    using pool_runs [OF runs_finished(1), of "on_app_t ?t" toy_start _ _ "[]" "[]"]
    by (simp add: toy_tasks_def)
qed

lemma toy_init: "hub_init toy_host toy_tasks (map (task_thread toy_host) toy_tasks, toy_start)"
  using toy_startup toy_db_ok by (auto simp: hub_init_def toy_conns toy_start_def)

lemma toy_reachable:
  "reach (hub_init toy_host toy_tasks) pool_step
     ([finished (on_app_t (session_rest toy_host (\<lambda>_. toy_fresh) ''d1'' [Heartbeat 0]))],
      toy_start\<lparr>ud_app := toy_connected\<rparr>)"
  by (rule reach_steps [OF reach.start toy_schedule]) (rule toy_init)

text \<open>The same device in a group, and a push to it.\<close>

definition toy_grouped :: app_state where
  "toy_grouped = toy_started\<lparr>st_db := (st_db toy_started)\<lparr>db_devices :=
     [toy_device\<lparr>dv_group_id := Some ''g1''\<rparr>, toy_device2]\<rparr>\<rparr>"

lemma toy_is_grouped: "grouped toy_host (st_db toy_grouped) ''d1'' ''g1'' 3"
  by (simp add: grouped_def toy_grouped_def toy_started_def row_by_def decrypt_row_def
      decrypt_group_config_def toy_defs)

lemma toy_grouped_ok: "hub_ok toy_grouped"
  by (auto simp: hub_ok_def failures_ok_def db_ok_defs toy_grouped_def toy_started_def toy_defs)

lemma toy_push: "\<exists>s'. push_config_to_device toy_host toy_fresh ''d1'' None toy_connected = (Inr True, s')"
  by (simp add: push_config_to_device_def andthen_def db_or_eq device_config_def fetch_optional_def
      map_err_def encrypt_parts_def insert_push_def dangling_def get_client_def send_def Let_def
      toy_connected_def toy_started_def toy_defs hello_update_def update_where_def
      del: toy_enc.simps)

lemma toy_reconnect:
  "\<exists>s'. session_open toy_host toy_fresh ''ip'' toy_hello 7 toy_grouped = (Inr (Some ''d1''), s')"
  by (simp add: session_open_def handle_client_hello_def toy_hello_def attempt_def on_db_def andthen_def
      room_exists_def count_where_def upsert_device_hello_def fetch_optional_def update_devices_def
      update_where_def send_def insert_client_def hello_update_def
      toy_started_def toy_grouped_def toy_defs split: prod.splits)

section \<open>Groups on the sample database\<close>

lemma toy_nonces: "nonces_ok (fresh_nonces toy_fresh)"
  by (simp add: fresh_nonces_def)

lemma toy_config_storable: "config_storable toy_host toy_config"
  by (simp add: config_storable_def toy_config_def default_config_def valid_utf8.simps(2) byte_of_char_def)

lemma toy_group_update:
  "\<exists>g d'. update_group toy_host (fresh_nonces toy_fresh) 9 ''r1'' ''g1''
     \<lparr> ug_name = None, ug_config = Some toy_config \<rparr> toy_db = (Inr g, d')"
  by (simp add: update_group_def fresh_nonces_def Let_def encrypt_to_base64_def encrypt_parts_def
      encrypt_optional_field_def encrypted_extra_config_def toy_config_def update_groups_def
      fetch_optional_def decrypt_group_config_def andthen_def toy_db_def toy_group_def del: toy_enc.simps)

text \<open>A network: the device is in a group whose configuration is stored.\<close>

definition toy_net :: database where
  "toy_net = toy_db\<lparr>
     db_groups := [toy_group\<lparr>gr_extra_config := Some (toy_enc (replicate 12 0) @ '':'' @ toy_enc []),
       gr_encrypted_token := Some (toy_enc (replicate 12 0) @ '':'' @ toy_enc (rev (as_bytes ''tok''))),
       gr_encrypted_server := Some (toy_enc (replicate 12 0) @ '':'' @
         toy_enc (rev (as_bytes ''vnt.wherewego.top:29872''))),
       gr_encrypted_password := Some (toy_enc (replicate 12 0) @ '':'' @ toy_enc (rev (as_bytes ''pw'')))\<rparr>],
     db_devices := [toy_device\<lparr>dv_group_id := Some ''g1'', dv_network_ip := Some ''10.0.0.2''\<rparr>,
       toy_device2]\<rparr>"

lemma toy_decrypt:
  "utf8_string p \<Longrightarrow> decrypt_from_base64 toy_host m ctx
     (toy_enc (replicate 12 0) @ '':'' @ toy_enc (rev (as_bytes p))) = Inr p"
proof -
  assume p: "utf8_string p"
  have "CHR '':'' \<notin> set (toy_enc bs)" for bs
    using toy_enc_chars by fastforce
  then show ?thesis
    using p by (simp add: decrypt_from_base64_def decrypt_parts_def toy_dec_enc del: toy_enc.simps)
qed

lemma toy_net_decrypts: "decrypt_row toy_host (hd (db_groups toy_net)) = Inr (Some toy_config)"
  using toy_decrypt [of "[]"] toy_decrypt [of "''tok''"] toy_decrypt [of "''pw''"]
    toy_decrypt [of "''vnt.wherewego.top:29872''"]
  by (simp add: toy_net_def decrypt_row_def decrypt_group_config_def Let_def toy_group_def
      strip_secrets_def toy_config_def default_config_def valid_utf8.simps(2) byte_of_char_def
      del: toy_enc.simps)

lemma toy_ints: "ints_ok toy_db"
  by (simp add: ints_ok_def columns_ok_def user_columns_def room_columns_def group_columns_def
      device_columns_def event_columns_def is_i64_def value_ok_def sql_opt_text_def toy_defs)

text \<open>A hub with one device, which is in a group.\<close>

definition toy_single_state :: app_state where
  "toy_single_state = toy_started\<lparr>st_db := (st_db toy_started)\<lparr>
     db_devices := [toy_device\<lparr>dv_group_id := Some ''g1''\<rparr>], db_events := []\<rparr>\<rparr>"

definition toy_single :: database where
  "toy_single = st_db toy_single_state"

lemma toy_single_starts:
  "startup toy_host toy_fresh (Some (''c'', ''k'')) False
     (toy_db\<lparr>db_devices := [toy_device\<lparr>dv_group_id := Some ''g1''\<rparr>], db_events := []\<rparr>) = Inr toy_single_state"
  unfolding toy_single_state_def by (rule toy_starts)

lemma toy_single_ok:
  "db_ok (toy_db\<lparr>db_devices := [toy_device\<lparr>dv_group_id := Some ''g1''\<rparr>], db_events := []\<rparr>)"
  "ints_ok (toy_db\<lparr>db_devices := [toy_device\<lparr>dv_group_id := Some ''g1''\<rparr>], db_events := []\<rparr>)"
  using toy_ints by (auto simp: db_ok_defs ints_ok_def columns_ok_def device_columns_def value_ok_def
      sql_opt_text_def toy_defs)

lemma toy_single_reached: "db_ok toy_single" "ints_ok toy_single"
proof -
  have "clock_ok toy_fresh"
    by (simp add: clock_ok_def is_i64_def)
  then show "db_ok toy_single" "ints_ok toy_single"
    using startup_ok [OF toy_single_ok(1) toy_single_starts] startup_ints [OF toy_single_starts toy_single_ok(2)]
    by (simp_all add: toy_single_def hub_ok_def)
qed

lemma toy_regenerates:
  "\<exists>s'. api_regenerate_device_token toy_host toy_fresh toy_bob ''r1'' ''d1'' toy_state =
     (Inr (random_base64 toy_host (take 32 (fr_random toy_fresh 0))), s')"
  by (simp add: api_regenerate_device_token_def ensure_room_access_eq access_error_def andthen_def db_or_eq
      regenerate_device_token_def update_devices_def remove_client_def Let_def toy_defs)

lemma toy_report:
  "\<exists>s'. handle_client_message toy_host toy_fresh ''d1'' (ConfigState 5 None None toy_config True) toy_state =
     (Inr (), s')"
  by (simp add: sync_reported_config_state_def set_reported_version_def on_db_def update_devices_def
      fetch_optional_def create_group_with_version_def create_group_def fresh_nonces_def Let_def
      encrypt_to_base64_def encrypt_parts_def encrypt_optional_field_def encrypted_extra_config_def
      insert_group_def dangling_def dangling_opt_def andthen_def set_device_group_def update_groups_def
      update_devices_group_def count_where_def update_where_def select_where_def u32_as_i64_def
      toy_config_def toy_defs del: toy_enc.simps)

section \<open>Accounts on the sample database\<close>

lemma toy_register:
  "\<exists>s'. register toy_host toy_fresh \<lparr> lr_username = ''carol'', lr_password = ''secret'' \<rparr> toy_state =
     (Inr ''n'', s')"
  by (simp add: register_def validate_username_password_def validate_password_def username_char_def Let_def
      hash_password_def map_err_def andthen_def db_or_eq insert_user_def toy_defs)

lemma toy_change_password:
  "\<exists>s'. change_password toy_host toy_fresh toy_bob
     \<lparr> cp_old_password = ''secret'', cp_new_password = ''better'' \<rparr> toy_state = (Inr (), s')"
  by (simp add: change_password_def find_user_def fetch_optional_def verify_password_def
      validate_password_def hash_password_def map_err_def andthen_def db_or_eq update_users_def toy_defs)

section \<open>HTTP requests\<close>

text \<open>Extractors that read logins only.\<close>

definition toy_http :: http_library where
  "toy_http = \<lparr> hl_match = match_path, hl_decode = Some, hl_login = (\<lambda>_. Inr toy_bad_login),
     hl_change_password = (\<lambda>_. Inl 422), hl_create_room = (\<lambda>_. Inl 422), hl_update_device = (\<lambda>_. Inl 422),
     hl_create_group = (\<lambda>_. Inl 422), hl_update_group = (\<lambda>_. Inl 422), hl_device_id = (\<lambda>_. Inl 422),
     hl_backup = (\<lambda>_. Inl 422), hl_event_query = (\<lambda>_. Inl 400), hl_backup_query = (\<lambda>_. Inl 400),
     hl_import_query = (\<lambda>_. Inl 400) \<rparr>"

lemma toy_routing: "routing_laws toy_http"
  by (simp add: routing_laws_def toy_http_def)

definition toy_line :: "http_method \<Rightarrow> string \<Rightarrow> http_request" where
  "toy_line m path = \<lparr> hr_method = m, hr_path = path, hr_query = None, hr_authorization = None,
     hr_forwarded = None, hr_content_type = None, hr_body = [] \<rparr>"

section \<open>A stream\<close>

text \<open>Reading from a list of bytes.\<close>

definition list_reader :: "bytes reader" where
  "list_reader s n = (Ready (Inr (take n s)), drop n s)"

lemma list_reader_laws: "stream_laws list_reader (\<lambda>b. b)"
  by (auto simp: stream_laws_def list_reader_def)

section \<open>Races on the sample hub\<close>

definition toy_renamed :: "int \<Rightarrow> group_row" where
  "toy_renamed v = toy_group\<lparr>gr_name := ''lan'', gr_config_version := v, gr_updated_at := 8\<rparr>"

definition toy_rename :: "(database, error + group) thread" where
  "toy_rename = update_group_thread toy_host (fresh_nonces toy_fresh) 8 ''r1'' ''g1''
     \<lparr> ug_name = Some ''lan'', ug_config = None \<rparr>"

definition toy_rename_twice :: "(database, error + group) thread" where
  "toy_rename_twice = then_t toy_rename (\<lambda>_. toy_rename)"

lemma toy_renames: "\<exists>r. alone toy_rename_twice toy_db = (r, toy_db\<lparr>db_groups := [toy_renamed 5]\<rparr>)"
  by (simp add: toy_rename_twice_def toy_rename_def update_group_alone update_group_def fresh_nonces_def Let_def update_groups_def
      fetch_optional_def decrypt_group_config_def andthen_def toy_db_def toy_group_def toy_renamed_def
      update_where_def i64_add_in_range is_i64_def)

text \<open>Bob creates a room and a group in it.\<close>

definition toy_root :: auth_user where
  "toy_root = \<lparr> au_id = ''u0'', au_username = ''admin'', au_role = ''admin'' \<rparr>"

definition toy_room :: room where
  "toy_room = \<lparr> rm_id = toy_enc (replicate 8 0), rm_name = ''three'', rm_owner_id = ''u1'', rm_created_at = 100 \<rparr>"

definition toy_roomed :: app_state where
  "toy_roomed = toy_state\<lparr>st_db := toy_db\<lparr>db_rooms := db_rooms toy_db @ [toy_room]\<rparr>\<rparr>"

lemma toy_room_created:
  "user_route toy_host toy_fresh toy_bob (PostRooms ''three'') toy_state = (Inr (RRoom toy_room), toy_roomed)"
proof -
  have "toy_enc (replicate 8 0) \<noteq> ''r1''" "toy_enc (replicate 8 0) \<noteq> ''r2''"
    by (auto dest!: arg_cong [where f = length] simp: length_toy_enc simp del: toy_enc.simps)
  then have "find (\<lambda>i. room_id toy_host (fr_random toy_fresh i) \<notin> room_ids toy_db) [0..<5] = Some 0"
    by (simp add: upt_rec toy_db_def room_id_def random_hex_def del: toy_enc.simps)
  then have "create_room toy_host (fr_random toy_fresh) 100 ''u1'' ''three'' toy_db =
      (Inr toy_room, st_db toy_roomed)"
    unfolding create_room_def create_room_loop_eq
    by (simp add: toy_room_def toy_roomed_def dangling_def room_id_def random_hex_def toy_db_def Let_def
        del: toy_enc.simps)
  then show ?thesis
    by (simp add: answering_def andthen_def api_create_room_def db_or_eq toy_roomed_def toy_state_def
        new_state_def toy_bob_def)
qed

lemma toy_creates:
  "\<exists>r s1 g s2. user_route toy_host toy_fresh toy_bob (PostRooms ''three'') toy_state = (Inr (RRoom r), s1) \<and>
    user_route toy_host toy_fresh toy_bob (PostGroups (rm_id r) ''net'' toy_config) s1 = (Inr (RGroup g), s2)"
proof -
  have "\<exists>g s2. user_route toy_host toy_fresh toy_bob (PostGroups (rm_id toy_room) ''net'' toy_config) toy_roomed =
      (Inr (RGroup g), s2)"
    by (simp add: answering_def andthen_def db_or_eq api_create_group_def ensure_room_access_eq
        access_error_def create_group_def fresh_nonces_def Let_def encrypt_to_base64_def encrypt_parts_def
        encrypt_optional_field_def encrypted_extra_config_def toy_config_def insert_group_def dangling_def
        toy_room_def toy_roomed_def toy_defs del: toy_enc.simps)
  then show ?thesis
    using toy_room_created by blast
qed

lemma toy_ops_usable:
  "op_usable toy_host (fresh_nonces toy_fresh, 9) (EditGroup ''r1'' ''g1''
     \<lparr> ug_name = None, ug_config = Some toy_config \<rparr>)"
  "op_usable toy_host (fresh_nonces toy_fresh, 9) (DropRoom ''r2'')"
  using toy_cipher_laws toy_nonces toy_config_storable by (simp_all add: op_usable_def)

section \<open>A launch\<close>

definition toy_tls :: "(bytes, bytes, bytes list \<times> bytes) tls_library" where
  "toy_tls = \<lparr> tl_certs = (\<lambda>b. [Inr b]), tl_pkcs8_private_keys = (\<lambda>b. []),
     tl_rsa_private_keys = (\<lambda>b. [Inr b]), tl_with_single_cert = (\<lambda>cs k. Inr (cs, k)) \<rparr>"

definition toy_parse :: "string \<Rightarrow> sock_addr option" where
  "toy_parse s = (if s = ''0.0.0.0:29876'' then Some (''0.0.0.0'', 29876)
     else if s = ''0.0.0.0:29878'' then Some (''0.0.0.0'', 29878) else None)"

lemma toy_launch:
  "\<exists>r. launch toy_tls toy_parse (\<lambda>_. Inr ()) (\<lambda>_. Inr ()) toy_host toy_fresh (Some (''c'', ''k''))
     default_args toy_db = Inr r"
proof -
  have "startup toy_host toy_fresh (Some (''c'', ''k'')) (ar_disable_register default_args) toy_db =
      Inr toy_started"
    using toy_startup by (simp add: default_args_def)
  moreover obtain c k where "fst (tls_pem toy_host (st_db toy_started)) = Inr (c, k)"
    using startup_steps [OF toy_startup] by auto
  ultimately show ?thesis
    by (simp add: launch_def toy_parse_def default_args_def serve_auto_tls_def
        serve_auto_tls_with_raw_def tls_config_def toy_tls_def load_private_key_def)
qed

end
