(* ===== verification/Spec2Isabelle.thy ===== *)
theory Spec2Isabelle
  imports Sample_Hub
begin

text \<open>
  \<^bold>\<open>vnt-hub\<close>: a control plane for VNT devices, as a model of the Rust program under \<open>src/\<close> and the
  theorems that make it correct.

  \<^bold>\<open>The program.\<close> Users log in to a web API (\<open>api.rs\<close>, \<open>auth.rs\<close>), own rooms, put devices into
  groups and edit the network configuration of a group. The database (\<open>db.rs\<close>, SQLite) stores the
  configurations encrypted (\<open>crypto.rs\<close>). Devices connect over WebSocket, raw TCP or UDP
  (\<open>client_api.rs\<close>), announce themselves with a hello, report their state and receive the
  configuration of their group, encrypted for the one device and version. The shared state
  (\<open>state.rs\<close>) holds the database, the channels of connected devices, the stream of events and the
  failed logins. \<open>http_server.rs\<close> tells TLS, HTTP and the raw protocol apart on one port, and \<open>main.rs\<close>
  starts the three servers.

  \<^bold>\<open>The style of the model.\<close> A fallible function that reads and writes a state is a computation
  \<open>'s \<Rightarrow> (error + 'a) \<times> 's\<close> (theory \<open>Hub_Prelude\<close>); \<open>andthen\<close> is the \<open>?\<close> operator, \<open>transaction\<close> a
  database transaction that an early return rolls back. The clock, the identifiers and the random
  bytes that a handler draws are an argument of type \<open>fresh\<close>. What the crates and the environment
  provide (SHA-256, ChaCha20-Poly1305, base64, hex, Argon2, serde, the two environment variables) is
  the argument of type \<open>host\<close>; what the code relies on is stated by \<open>cipher_laws\<close> (decryption undoes
  encryption, base64 decodes what it encoded and has no colon), \<open>jwt_laws\<close> (base64url and the claims
  round-trip, the constant header parses), \<open>argon2_laws\<close> (a fresh hash verifies) and \<open>config_storable\<close>
  (strings are UTF-8, serde reads back what it wrote). \<open>Sample_Hub\<close> has a host that satisfies them,
  and on it every property with a hypothesis is applied. A database integer is an \<open>int\<close>, with the
  wrap-around of \<open>i64\<close> sums and the casts from and to \<open>u32\<close> and \<open>u64\<close> written out; C29 shows that all
  the stored ones are 64-bit. A column whose declaration does not fix what it holds (SQLite stores a text
  without digits in an INTEGER column as it is) has the type \<open>sql_value\<close>, with the constructors \<open>SNull\<close>,
  \<open>SInt\<close> and \<open>SText\<close>. Reading a text from it with \<open>get\<close> as an integer panics: the error \<open>Panic\<close>, which
  unwinds the task of the request, so that its client gets no response (the status \<open>NO_RESPONSE\<close>). An
  export reads every column as a text first, and the decoder of sqlx gives an empty text for a NULL:
  \<open>json_of_sql\<close>.

  \<^bold>\<open>The theories.\<close>
  \<^item> \<open>Hub_Prelude\<close>: integers, results, computations, and \<open>keeps\<close>, the preservation of a predicate, with
    the collection \<open>keeps_intro\<close> by which every invariant below is proved statement by statement.
    \<open>Rust_Std\<close>: the string functions of the standard library.
  \<^item> \<open>Models\<close> (\<open>models.rs\<close>), \<open>Crypto\<close> (\<open>crypto.rs\<close>), \<open>Auth\<close> (\<open>auth.rs\<close>), with the interfaces
    \<open>text_cipher\<close> and \<open>token_scheme\<close> and their interpretation on the code's functions.
  \<^item> \<open>Sql_Table\<close>, \<open>Schema\<close>: tables as lists of rows, the statements with their constraints (unique
    keys, and foreign keys where the connection enforces them), the interface \<open>sql_table\<close> provided by
    each of the tables, and the invariant \<open>db_ok\<close>.
  \<^item> \<open>Db_Init\<close>: the tables of a new file, and the columns added to one of an older version.
  \<^item> \<open>Db_Rooms\<close>, \<open>Db_Devices\<close>, \<open>Db_Groups\<close>, \<open>Db_Events\<close>, \<open>Db_Backup\<close>: the operations of \<open>db.rs\<close>, each with
    its effect on every branch. \<open>Backup_Roundtrip\<close>: what an import makes of an export (interface
    \<open>exported_table\<close>). \<open>User_Export\<close>: the rows of one user.
  \<^item> \<open>App_State\<close> (\<open>state.rs\<close>), \<open>Accounts\<close>, \<open>Push\<close>, \<open>Room_Api\<close>, \<open>Web_Api\<close> (\<open>api.rs\<close>): the state, the handlers, the
    router; the interface \<open>room_scoped\<close> is what the access check of a room gives each handler.
    \<open>Routes\<close>: the tables of paths and methods of both routers, and what the handlers extract from an HTTP
    request.
  \<^item> \<open>Client_Api\<close>, \<open>Client_Session\<close> (\<open>client_api.rs\<close>): messages, sessions, transports. \<open>Device_Flow\<close> and
    \<open>Delivery\<close>: how a device goes through the hub, and who can receive what.
  \<^item> \<open>Http_Server\<close> (\<open>http_server.rs\<close>): dispatch by the first byte, the stream that replays it, the TLS
    configuration, the listeners. \<open>Launch\<close> (\<open>main.rs\<close>, \<open>config.rs\<close>): the command line and the start.
  \<^item> \<open>Threads\<close>: handlers as threads of atomic steps, pools of threads that take steps in any order, and
    \<open>guards\<close>, what every step of a thread guarantees whatever the others do. \<open>Db_Threads\<close>, \<open>Web_Threads\<close>,
    \<open>Client_Threads\<close>: the operations of \<open>db.rs\<close> and the handlers of \<open>api.rs\<close> and \<open>client_api.rs\<close> again, one
    step for each statement on the database and each taking of a lock; the names end in \<open>_t\<close>.
  \<^item> \<open>Hub_Steps\<close>: the abstract steps \<open>hub_move\<close> on the shared state, and the proof that every step of every
    handler is a sequence of them. \<open>Hub\<close>: start-up; the tasks of the running hub (requests, sessions, the
    loop of the datagrams) as threads of one pool; the interface \<open>hub_invariant\<close>: what the abstract steps
    keep holds in every state that any schedule reaches. Its predicates may speak of the tokens that a
    device had earlier in the run (\<open>seen_token\<close>), under which a delivered configuration was encrypted.
  \<^item> \<open>Device_Status\<close>: the abstract state machine of the status of a device. Each statement of the handlers
    leaves the status or takes one step of the machine (\<open>moved\<close>, \<open>lives\<close>).
    \<open>Typed_Rows\<close>: the ranges of the stored integers. \<open>Isolation\<close>: what the requests of users leave alone.
    \<open>Group_Store\<close>: the map of plain groups that the encrypted table implements, as a forward simulation
    (interface \<open>group_store\<close>).
  \<^item> \<open>Interleaving\<close>, \<open>Races\<close>: schedules whose outcome is not that of running the handlers one after
    the other.

  \<^bold>\<open>Two views of a handler.\<close> As a function (\<open>handle_request\<close>) it runs without interference: the
  properties of what it returns and writes are about this view. As a thread (\<open>handle_request_t\<close>) other
  threads run between its statements: the invariants, the isolation of users and the races are about
  this one. A thread that runs alone is the function: the lemmas \<open>request_alone\<close>, \<open>streams_alone\<close> and
  \<open>datagram_alone\<close> with the ones before them in \<open>Web_Threads\<close> and \<open>Client_Threads\<close>.

  \<^bold>\<open>The properties.\<close> C1 to C6 are about the hub as a whole: its constraints in every reachable state, who
  receives a configuration and under which key, isolation of users, access checks, what an anonymous HTTP
  request can do, and the routes. C7 to C11: tokens, HMAC, the lockout and its race. C12 to C20: hello, a
  new token, kick, the refinement of the status, pushes. C21 to C28: groups and rooms. C29 to C33: backups
  and exports. C34 to C36: events and accounts. C37 to C40: reports, the replayed stream and the launch.
  C11, C13, C15, C20, C23, C29, C30 and C31 state behaviour that is not what the code means to do:
  concurrent logins escape the lockout; a new token for a device of another room is answered but not
  stored, and disconnects that device; a kick during a hello does not disconnect; the end of an old
  session disconnects a newer one; the version of a group can repeat or go back; the backup of a hub with
  a device outside every group is refused by the import; what it restores in place of a NULL cannot be
  read; and an export that runs while rooms are created can give a backup that no import accepts.

  \<^bold>\<open>Bounds.\<close> Every loop of the model is structural recursion over a list, so all definitions are total.
  The only bounded loop of the code, the five draws of \<open>create_room\<close>, is the list of its five
  iterations (C26). A session is a thread over the list of the messages that arrive, the loop of the
  datagrams a thread over the list of the datagrams; a run of the hub is any sequence of steps of any finite
  list of tasks, and a task that has taken no step has not arrived yet. No lock of the code is held across another wait, so that taking one is one step.

  \<^bold>\<open>Not modelled.\<close> TLS, hyper and axum (matching of paths and parsing of bodies are parameters of \<open>Routes\<close>), the
  sockets, the SSE transport of the event stream (its subscription is modelled) and the pings of a WebSocket;
  parsing of the command line and of socket addresses (parameters of \<open>Launch\<close>); log4rs; serde's derived
  code (parameters of \<open>host\<close>); I/O errors of SQLite and its refusal of a statement because the database is
  busy, its storage of text in the INTEGER columns that are NOT NULL, of text with digits in any INTEGER
  column and of NULL in a primary key (an import of such a row has the error value \<open>OutsideModel\<close>), and
  the order of rows that an ORDER BY leaves open (here that of insertion). A
  transaction is one step, which SQLite's isolation gives. The tasks that write to the sockets are the
  log \<open>st_sent\<close> of what was put into a channel; that a request or a session is dropped in the middle
  when its client goes away (tokio cancels the handler) is a schedule in which its thread takes no
  further step. The build script and the static page carry no logic.
\<close>

section \<open>The hub as a whole\<close>

text \<open>
  C1. In every state the hub reaches while it runs any list of requests, sessions of devices and
  datagrams, in any interleaving of their statements, the database satisfies its constraints: primary
  keys and user names are unique and, when the connection enforces foreign keys, no row refers to a
  missing one; and no login failure counter has reached three.
\<close>

theorem reachable_constraints:
  assumes "reach (hub_init h tasks) pool_step (ts, u)"
  shows "keys_ok (st_db (ud_app u)) \<and>
    (db_foreign_keys (st_db (ud_app u)) \<longrightarrow> fk_ok (st_db (ud_app u))) \<and>
    (\<forall>key e. st_login_failures (ud_app u) key = Some e \<longrightarrow> lf_count e < 3)"
  using constraints.holds [OF assms] by (simp add: hub_ok_def db_ok_def failures_ok_def)

lemma reachable_constraints_witness: "keys_ok (st_db toy_connected) \<and> fk_ok (st_db toy_connected)"
proof -
  have "db_foreign_keys (st_db toy_connected)"
    by (simp add: toy_connected_def toy_started_def toy_defs)
  then show ?thesis
    using reachable_constraints [OF toy_reachable] by simp
qed

text \<open>
  C2. In every state of a run of the hub, the channel registered for a device is a connection on which a
  hello for this device arrived. Every configuration that was ever put into a channel went to such a
  connection; it is the payload made for its device and version, encrypted in the context of this device
  and version and under a key that is made of the device and of a token that the row of this device had
  at some point of the run.
\<close>

theorem reachable_deliveries:
  assumes "hub_init h tasks p" and "pool_step\<^sup>*\<^sup>* p (ts, u)"
  shows "(st_clients (ud_app u) i = Some c \<longrightarrow> opened_for h tasks c = Some i) \<and>
    ((c, ConfigPush v ct n) \<in> set (st_sent (ud_app u)) \<longrightarrow>
      (\<exists>j ts' u' r nonce gid name v' cfg. opened_for h tasks c = Some j \<and>
        pool_step\<^sup>*\<^sup>* p (ts', u') \<and> pool_step\<^sup>*\<^sup>* (ts', u') (ts, u) \<and>
        r \<in> set (db_devices (st_db (ud_app u'))) \<and> dv_id r = j \<and> v = i64_as_u32 v' \<and>
        encrypt_parts h nonce (device_push_key_material j (dv_device_token r)) (device_push_context j v)
          (h_json_text h (push_payload h j gid name v' cfg)) = Inr (ct, n)))"
proof -
  have ok: "channels_ok h (seen_token p (ts, u)) (opened_for h tasks) (ud_app u)"
    by (rule deliveries.holds_after [OF assms])
  show ?thesis
  proof (intro conjI impI)
    show "opened_for h tasks c = Some i" if "st_clients (ud_app u) i = Some c"
      using ok that by (simp add: channels_ok_def)
  next
    assume "(c, ConfigPush v ct n) \<in> set (st_sent (ud_app u))"
    with ok have "message_for h (seen_token p (ts, u)) (opened_for h tasks c) (ConfigPush v ct n)"
      by (fastforce simp: channels_ok_def)
    then obtain j where j: "opened_for h tasks c = Some j" "encrypted_for h (seen_token p (ts, u)) j v ct n"
      by (auto split: option.splits)
    from j(2) obtain t nonce gid name v' cfg where t: "seen_token p (ts, u) j t" "v = i64_as_u32 v'"
        "encrypt_parts h nonce (device_push_key_material j t) (device_push_context j v)
          (h_json_text h (push_payload h j gid name v' cfg)) = Inr (ct, n)"
      unfolding encrypted_for_def by blast
    from t(1) obtain ts' u' r where "pool_step\<^sup>*\<^sup>* p (ts', u')" "pool_step\<^sup>*\<^sup>* (ts', u') (ts, u)"
        "r \<in> set (db_devices (st_db (ud_app u')))" "dv_id r = j" "dv_device_token r = t"
      unfolding seen_token_def by blast
    with j(1) t(2,3) show "\<exists>j ts' u' r nonce gid name v' cfg. opened_for h tasks c = Some j \<and>
        pool_step\<^sup>*\<^sup>* p (ts', u') \<and> pool_step\<^sup>*\<^sup>* (ts', u') (ts, u) \<and>
        r \<in> set (db_devices (st_db (ud_app u'))) \<and> dv_id r = j \<and> v = i64_as_u32 v' \<and>
        encrypt_parts h nonce (device_push_key_material j (dv_device_token r)) (device_push_context j v)
          (h_json_text h (push_payload h j gid name v' cfg)) = Inr (ct, n)"
      by blast
  qed
qed

lemma reachable_deliveries_witness:
  "st_clients toy_connected ''d1'' = Some 0 \<and> opened_for toy_host toy_tasks 0 = Some ''d1''"
  using reachable_deliveries [OF toy_init toy_schedule] by (simp add: toy_connected_def)

text \<open>
  C3. Requests of users who are not administrators, any number of them and in any interleaving of
  their statements, leave the rooms of others alone: for a set of rooms that none of the callers owns,
  the rooms and all their groups and devices stay as they are, whatever the requests ask for.
\<close>

theorem tenant_isolation:
  assumes "list_all (\<lambda>(f, now, auth, req). is_public req \<or>
      (\<forall>user. from_request_parts h now auth = Inr user \<longrightarrow> au_role user \<noteq> ''admin'' \<and>
        owned_by_others (au_id user) F (db_rooms (st_db s)))) rs"
    and "pool_step\<^sup>*\<^sup>* (map (\<lambda>(f, now, auth, req). handle_request_t h f now auth req) rs, s) (ts, s')"
  shows "rows_in F (st_db s') = rows_in F (st_db s)"
proof (rule pool_keeps [OF assms(2)])
  have "thread_keeps (app_rows F (rows_in F (st_db s))) (handle_request_t h f now auth req)"
    if "(f, now, auth, req) \<in> set rs" for f now auth req
  proof (rule request_rows)
    show "is_public req \<or> (\<forall>user. from_request_parts h now auth = Inr user \<longrightarrow> au_role user \<noteq> ''admin'' \<and>
        owned_by_others (au_id user) F (fst (rows_in F (st_db s))))"
      using assms(1) that by (fastforce simp: list_all_iff owned_by_others_rows)
  qed
  then show "\<forall>t \<in> set (map (\<lambda>(f, now, auth, req). handle_request_t h f now auth req) rs).
      thread_keeps (app_rows F (rows_in F (st_db s))) t"
    by auto
qed simp

lemma tenant_isolation_witness:
  "\<exists>r1 r2 s'. pool_step\<^sup>*\<^sup>*
     ([handle_request_t toy_host toy_fresh 100 (Some (''Bearer '' @ toy_token)) (DeleteRoom ''r1''),
       handle_request_t toy_host toy_fresh 100 (Some (''Bearer '' @ toy_token)) (DeleteRoom ''r2'')],
      toy_state) ([Done r1, Done r2], s') \<and> rows_in {''r2''} (st_db s') = rows_in {''r2''} toy_db"
proof -
  let ?t = "\<lambda>rid. handle_request_t toy_host toy_fresh 100 (Some (''Bearer '' @ toy_token)) (DeleteRoom rid)"
  obtain r1 s1 r2 s2 where "alone (?t ''r1'') toy_state = (r1, s1)" "alone (?t ''r2'') s1 = (r2, s2)"
    by (metis prod.collapse)
  from pool_runs [OF runs_alone [OF this(1)], of "[]" "[?t ''r2'']"]
    pool_runs [OF runs_alone [OF this(2)], of "[Done r1]" "[]"]
  have run: "pool_step\<^sup>*\<^sup>* ([?t ''r1'', ?t ''r2''], toy_state) ([Done r1, Done r2], s2)"
    by (simp del: append_Cons) simp
  have "owned_by_others ''u1'' {''r2''} (db_rooms (st_db toy_state))"
    by (simp add: owned_by_others_def toy_defs)
  then have "rows_in {''r2''} (st_db s2) = rows_in {''r2''} toy_db"
    using tenant_isolation [where h = toy_host and F = "{''r2''}" and s = toy_state and s' = s2
        and rs = "[(toy_fresh, 100, Some (''Bearer '' @ toy_token), DeleteRoom ''r1''),
          (toy_fresh, 100, Some (''Bearer '' @ toy_token), DeleteRoom ''r2'')]"] run
    by (simp add: toy_token_ok toy_bob_def toy_state_def new_state_def del: append_Cons)
  with run show ?thesis
    by blast
qed

text \<open>
  C4. Every request but the public ones needs a token that checks, and a caller who may act on the
  room it names; otherwise it fails and changes nothing: 401 without such a token, 403 for a user who
  does not own a room of this id, 404 for an administrator when it does not exist.
\<close>

theorem room_access_denied:
  assumes "\<not> is_public req"
  shows "(from_request_parts h now auth = Inl e \<longrightarrow>
      handle_request h f now auth req s = (Inl UNAUTHORIZED, s)) \<and>
    (from_request_parts h now auth = Inr user \<and> request_room req = Some rid \<and>
      (if au_role user = ''admin'' then rid \<notin> room_ids (st_db s)
       else \<forall>x \<in> set (db_rooms (st_db s)). rm_id x = rid \<longrightarrow> rm_owner_id x \<noteq> au_id user) \<longrightarrow>
      handle_request h f now auth req s =
        (Inl (if au_role user = ''admin'' then NOT_FOUND else FORBIDDEN), s))"
proof (intro conjI impI)
  show "handle_request h f now auth req s = (Inl UNAUTHORIZED, s)" if "from_request_parts h now auth = Inl e"
    using that assms from_request_parts_Inl [OF that] by (simp add: handle_private)
next
  assume access: "from_request_parts h now auth = Inr user \<and> request_room req = Some rid \<and>
      (if au_role user = ''admin'' then rid \<notin> room_ids (st_db s)
       else \<forall>x \<in> set (db_rooms (st_db s)). rm_id x = rid \<longrightarrow> rm_owner_id x \<noteq> au_id user)"
  then have "access_error user rid (st_db s) =
      Some (if au_role user = ''admin'' then NOT_FOUND else FORBIDDEN)"
    by (auto simp: access_error_def split: if_splits)
  then show "handle_request h f now auth req s =
      (Inl (if au_role user = ''admin'' then NOT_FOUND else FORBIDDEN), s)"
    using user_route_denied [of req rid] access assms by (simp add: handle_private)
qed

lemma room_access_denied_witness:
  "handle_request toy_host toy_fresh 100 None GetRooms toy_state = (Inl UNAUTHORIZED, toy_state) \<and>
   handle_request toy_host toy_fresh 100 (Some (''Bearer '' @ toy_token)) (DeleteRoom ''r2'') toy_state =
    (Inl FORBIDDEN, toy_state)"
proof
  show "handle_request toy_host toy_fresh 100 None GetRooms toy_state = (Inl UNAUTHORIZED, toy_state)"
    using room_access_denied [of GetRooms toy_host 100 None UNAUTHORIZED]
    by (simp add: from_request_parts_def)
  show "handle_request toy_host toy_fresh 100 (Some (''Bearer '' @ toy_token)) (DeleteRoom ''r2'') toy_state =
      (Inl FORBIDDEN, toy_state)"
    using room_access_denied [of "DeleteRoom ''r2''", THEN conjunct2, of toy_host 100
        "Some (''Bearer '' @ toy_token)" toy_bob "''r2''" toy_state toy_fresh] toy_token_ok
    by (simp add: toy_bob_def toy_state_def new_state_def toy_db_def del: append_Cons)
qed

text \<open>
  C5. An HTTP request without a token that checks, whatever its method, path, query and body: it is
  answered with an error or with the page, the public configuration, the token of a login or the
  identifier of a new account, and all it can write is the record of failed logins and, when
  registration is open, one account with the role user.
\<close>

theorem anonymous_requests:
  assumes "from_request_parts h now (hr_authorization r) = Inl e" and "serve_http h f now ax r s = (res, s')"
  shows "(\<exists>lf us. s' = s\<lparr>st_login_failures := lf, st_db := (st_db s)\<lparr>db_users := db_users (st_db s) @ us\<rparr>\<rparr> \<and>
      (us = [] \<or> \<not> st_disable_register s \<and> (\<exists>u. us = [u] \<and> us_role u = ''user''))) \<and>
    (\<forall>a. res = Inr (Answer a) \<longrightarrow> (\<exists>b. a = RPublicConfig b) \<or> (\<exists>t. a = RToken t) \<or> (\<exists>i. a = RId i))"
proof -
  have "(\<exists>b. a = RPublicConfig b) \<or> (\<exists>t. a = RToken t) \<or> (\<exists>i. a = RId i)" if "public_answer a" for a
    using that by (cases a) simp_all
  then show ?thesis
    using serve_anonymous [OF assms] unfolding signed_up_def by blast
qed

lemma anonymous_requests_witness:
  "\<exists>lf us. snd (serve_http toy_host toy_fresh 100 toy_http (toy_line POST ''/api/auth/login'') toy_state) =
    toy_state\<lparr>st_login_failures := lf, st_db := (st_db toy_state)\<lparr>db_users := db_users (st_db toy_state) @ us\<rparr>\<rparr>"
proof -
  have "from_request_parts toy_host 100 (hr_authorization (toy_line POST ''/api/auth/login'')) = Inl UNAUTHORIZED"
    by (simp add: from_request_parts_def toy_line_def)
  from anonymous_requests [OF this prod.collapse [symmetric], of toy_fresh toy_http toy_state] show ?thesis
    by blast
qed

text \<open>
  C6. The table of routes reaches every handler: an HTTP request with the method and the path of one of
  the requests of the other properties, whose query and body parse to its data, is served as that
  request, with the parameters of the path in their places; no other route of the table takes it.
\<close>

theorem routes_served:
  assumes "routing_laws ax" and "hr_method r = method_of req" "hr_path r = path_of req"
    and "list_all plain_segment (path_values req)" and "carries ax r req"
  shows "serve_http h f now ax r s =
    (case handle_request h f now (hr_authorization r) req s of
       (Inl e, s') \<Rightarrow> (Inl (status_number e), s')
     | (Inr a, s') \<Rightarrow> (Inr (Answer a), s'))"
  using serve_routed [OF assms(1-3) _ assms(5), of h f now] assms(4)
  by (simp add: list_all_iff answering_def andthen_def map_err_def split: prod.splits sum.splits)

lemma routes_served_witness:
  "serve_http toy_host toy_fresh 100 toy_http (toy_line DELETE ''/api/rooms/r2/devices/d2'') toy_state =
    (Inl 401, toy_state)"
proof -
  have line: "hr_method (toy_line DELETE ''/api/rooms/r2/devices/d2'') = method_of (DeleteDevice ''r2'' ''d2'')"
    "hr_path (toy_line DELETE ''/api/rooms/r2/devices/d2'') = path_of (DeleteDevice ''r2'' ''d2'')"
    by (simp_all add: toy_line_def room_path_def)
  have "list_all plain_segment (path_values (DeleteDevice ''r2'' ''d2''))"
    by (simp add: plain_segment_def)
  from routes_served [OF toy_routing line this] show ?thesis
    by (simp add: handle_private from_request_parts_def toy_line_def)
qed

section \<open>Tokens and logins\<close>

text \<open>
  C7. The token that a successful login returns authenticates, until 24 hours after it was signed, as
  the user whose name and password were given, with the role of the user's row.
\<close>

theorem login_token_authenticates:
  assumes "jwt_laws h" and "login h f fwd req s = (Inr token, s')"
    and "as_usize t \<le> as_usize (i64_add (fr_clock f 1) (24 * 3600))"
  shows "\<exists>u. fetch_optional (\<lambda>u. us_username u = lr_username req) (db_users (st_db s)) = Some u \<and>
    verify_password h (us_password u) (lr_password req) \<and>
    from_request_parts h t (Some (''Bearer '' @ token)) =
      Inr \<lparr> au_id = us_id u, au_username = lr_username req, au_role = us_role u \<rparr>"
proof -
  have free: "\<not> locked_out (fr_clock f 0) (login_failure_key fwd) s"
    using assms(2) by (auto simp: login_locked)
  obtain u where u: "fetch_optional (\<lambda>u. us_username u = lr_username req) (db_users (st_db s)) = Some u"
      "verify_password h (us_password u) (lr_password req)"
      and tok: "sign h (fr_clock f 1) (us_id u) (lr_username req) (us_role u) = Inr token"
    using assms(2) by (auto simp: login_eq [OF free] credentials_def split: option.splits if_splits sum.splits)
  have "strip_prefix ''Bearer '' (''Bearer '' @ token) = Some token"
    by (rule strip_prefix_append)
  with u jwt.check_issue [OF assms(1) tok assms(3)] show ?thesis
    by (simp add: from_request_parts_def)
qed

lemma login_token_authenticates_witness:
  "\<exists>u. fetch_optional (\<lambda>u. us_username u = ''bob'') (db_users toy_db) = Some u \<and>
    from_request_parts toy_host 200 (Some (''Bearer '' @ toy_token)) =
      Inr \<lparr> au_id = us_id u, au_username = ''bob'', au_role = us_role u \<rparr>"
proof -
  have "as_usize 200 \<le> as_usize (i64_add (fr_clock toy_fresh 1) (24 * 3600))"
    by (simp add: as_usize_def i64_add_in_range is_i64_def word_le_def)
  from login_token_authenticates [OF toy_jwt_laws toy_login this] show ?thesis
    by (auto simp: toy_state_def new_state_def toy_login_request_def)
qed

text \<open>
  C8. A request is authenticated exactly by a bearer token of three parts: a header that names HS256, a
  payload of claims, and the HMAC of the two under the secret, presented not after the expiry in these
  claims; and the claims of this payload give the identity of the caller.
\<close>

theorem token_authentic:
  "from_request_parts h now auth = Inr user \<longleftrightarrow>
    (\<exists>hr pl sg hb hv bytes c. auth = Some (''Bearer '' @ hr @ ''.'' @ pl @ ''.'' @ sg) \<and>
      CHR ''.'' \<notin> set hr \<and> CHR ''.'' \<notin> set pl \<and> CHR ''.'' \<notin> set sg \<and>
      h_unb64url h hr = Some hb \<and> h_json_of_bytes h hb = Some hv \<and>
      Option.bind (json_get ''alg'' hv) as_str = Some ''HS256'' \<and>
      h_unb64url h sg = Some (hmac_sha256 h (as_bytes (jwt_secret h)) (as_bytes (hr @ ''.'' @ pl))) \<and>
      h_unb64url h pl = Some bytes \<and> h_claims_of_json h bytes = Some c \<and> as_usize now \<le> cl_exp c \<and>
      user = \<lparr> au_id = cl_sub c, au_username = cl_username c, au_role = cl_role c \<rparr>)"
  unfolding from_request_parts_iff verify_parts_iff by blast

text \<open>
  C9. The HMAC of the code, a loop over the bytes of two pads, is the HMAC of RFC 2104 for a block
  of 64 bytes: for keys of at most a block, and for longer keys when the digest has 32 bytes.
\<close>

theorem hmac_is_rfc2104:
  assumes "length key \<le> 64 \<or> length (h_sha256 h key) = 32"
  shows "hmac_sha256 h key data = rfc2104 h key data"
  using assms length_rfc2104_key [OF assms]
  by (simp add: hmac_sha256_def rfc2104_def normalized_key_eq fold_xor_at_pair fold_xor_at_replicate Let_def)

lemma hmac_is_rfc2104_witness:
  "hmac_sha256 toy_host (replicate 65 7) [1, 2] = rfc2104 toy_host (replicate 65 7) [1, 2]"
  by (rule hmac_is_rfc2104) simp

text \<open>
  C10. Three failed logins under a key that has no record lock the key: until ten minutes after the
  third, every login under it is refused with 429, also with the right password, and changes nothing.
  Other keys are not affected, and no login fails with 429 before the third.
\<close>

theorem login_lockout:
  assumes "st_login_failures s (login_failure_key fwd) = None"
    and "credentials h r1 (st_db s) = None" "credentials h r2 (st_db s) = None"
      "credentials h r3 (st_db s) = None"
    and "0 \<le> fr_clock f1 1" "0 \<le> fr_clock f2 0" "0 \<le> fr_clock f2 1" "0 \<le> fr_clock f3 0"
      "0 \<le> fr_clock f3 1" "is_i64 (fr_clock f3 1 + 600)"
    and "login h f1 fwd r1 s = (a1, s1)" "login h f2 fwd r2 s1 = (a2, s2)"
      "login h f3 fwd r3 s2 = (a3, s3)"
  shows "a1 = Inl UNAUTHORIZED \<and> a2 = Inl UNAUTHORIZED \<and> a3 = Inl UNAUTHORIZED \<and>
    (fr_clock f 0 < fr_clock f3 1 + 600 \<longrightarrow> login h f fwd r s3 = (Inl TOO_MANY_REQUESTS, s3)) \<and>
    (fr_clock f3 1 + 600 \<le> fr_clock f 0 \<longrightarrow> fst (login h f fwd r s3) \<noteq> Inl TOO_MANY_REQUESTS) \<and>
    (key \<noteq> login_failure_key fwd \<longrightarrow> locked_out t key s3 = locked_out t key s)"
proof (intro conjI impI)
  let ?k = "login_failure_key fwd"
  note third = third_failure [OF assms(1) assms(5,7,9,10)]
  have 1: "a1 = Inl UNAUTHORIZED" "s1 = note_failure (fr_clock f1 1) ?k s"
    using assms(2,11) login_eq [where f = f1 and h = h and req = r1, OF third(4)] by simp_all
  have "\<not> locked_out (fr_clock f2 0) ?k s1"
    unfolding 1 by (rule third(3)) (rule assms(6))
  from login_eq [OF this, of h r2]
  have 2: "a2 = Inl UNAUTHORIZED" "s2 = note_failure (fr_clock f2 1) ?k s1"
    using assms(3,12) by (simp_all add: 1)
  have "\<not> locked_out (fr_clock f3 0) ?k s2"
    unfolding 1 2 by (rule third(2)) (rule assms(8))
  from login_eq [OF this, of h r3]
  have 3: "a3 = Inl UNAUTHORIZED" "s3 = note_failure (fr_clock f3 1) ?k s2"
    using assms(4,13) by (simp_all add: 1 2)
  show "a1 = Inl UNAUTHORIZED" "a2 = Inl UNAUTHORIZED" "a3 = Inl UNAUTHORIZED"
    by (rule 1 2 3)+
  show "login h f fwd r s3 = (Inl TOO_MANY_REQUESTS, s3)" if "fr_clock f 0 < fr_clock f3 1 + 600"
    using that third(1) by (intro login_locked) (simp add: 1 2 3)
  show "fst (login h f fwd r s3) \<noteq> Inl TOO_MANY_REQUESTS" if "fr_clock f3 1 + 600 \<le> fr_clock f 0"
  proof -
    have "\<not> locked_out (fr_clock f 0) ?k s3"
      using that third(1) by (simp add: 1 2 3)
    from login_eq [OF this] show ?thesis
      by (simp split: option.splits sum.splits prod.splits)
  qed
  show "locked_out t key s3 = locked_out t key s" if "key \<noteq> ?k"
    using that by (simp add: 1 2 3 other_key_not_locked)
qed

lemma login_lockout_witness:
  "login toy_host toy_fresh None toy_login_request
     (snd (login toy_host toy_fresh None toy_bad_login
       (snd (login toy_host toy_fresh None toy_bad_login
         (snd (login toy_host toy_fresh None toy_bad_login toy_state)))))) =
   (Inl TOO_MANY_REQUESTS, (snd (login toy_host toy_fresh None toy_bad_login
       (snd (login toy_host toy_fresh None toy_bad_login
         (snd (login toy_host toy_fresh None toy_bad_login toy_state)))))))"
proof -
  have bad: "credentials toy_host toy_bad_login (st_db toy_state) = None"
    by (simp add: credentials_def toy_bad_login_def toy_defs fetch_optional_def verify_password_def)
  have none: "st_login_failures toy_state (login_failure_key None) = None"
    by (simp add: toy_defs)
  show ?thesis
    by (rule login_lockout [OF none bad bad bad _ _ _ _ _ _ prod.collapse [symmetric]
        prod.collapse [symmetric] prod.collapse [symmetric], THEN conjunct2, THEN conjunct2,
        THEN conjunct2, THEN conjunct1, THEN mp]) (simp_all add: is_i64_def)
qed

text \<open>
  C11. Any number of logins that arrive before one of them is recorded are all evaluated, however many
  of them fail, since the check of the lock and the record of the failure are separate statements: none
  is answered 429. No schedule of their statements breaks the constraints of the database or lets a
  counter reach three.
\<close>

theorem logins_race:
  assumes "hub_ok s" and "list_all (\<lambda>(f, fwd, req). \<not> locked_out (fr_clock f 0) (login_failure_key fwd) s) rs"
  shows "(\<exists>s'. pool_step\<^sup>*\<^sup>* (map (\<lambda>(f, fwd, req). login_thread h f fwd req) rs, s)
      (map (\<lambda>(f, fwd, req). Done (login_answer h f req (st_db s))) rs, s')) \<and>
    login_answer h f req (st_db s) \<noteq> Inl TOO_MANY_REQUESTS \<and>
    (pool_step\<^sup>*\<^sup>* (map (\<lambda>(f, fwd, req). login_thread h f fwd req) rs, s) (ts', s') \<longrightarrow> hub_ok s')"
proof (intro conjI impI)
  show "\<exists>s'. pool_step\<^sup>*\<^sup>* (map (\<lambda>(f, fwd, req). login_thread h f fwd req) rs, s)
      (map (\<lambda>(f, fwd, req). Done (login_answer h f req (st_db s))) rs, s')"
    using logins_together [of rs s h] assms(2) by (auto simp: list_all_iff)
  show "login_answer h f req (st_db s) \<noteq> Inl TOO_MANY_REQUESTS"
    by (simp add: login_answer_def split: option.split sum.split)
  have keep: "\<forall>t \<in> set (map (\<lambda>(f, fwd, req). login_thread h f fwd req) rs). thread_keeps hub_ok t"
    by (auto simp: login_thread_ok)
  show "hub_ok s'"
    if "pool_step\<^sup>*\<^sup>* (map (\<lambda>(f, fwd, req). login_thread h f fwd req) rs, s) (ts', s')"
    by (rule pool_keeps [OF that keep]) (rule assms(1))
qed

lemma logins_race_witness:
  "\<exists>s'. pool_step\<^sup>*\<^sup>* (replicate 4 (login_thread toy_host toy_fresh None toy_bad_login), toy_state)
    (replicate 4 (Done (Inl UNAUTHORIZED)), s')"
proof -
  have "login_answer toy_host toy_fresh toy_bad_login toy_db = Inl UNAUTHORIZED"
    by (simp add: login_answer_def credentials_def fetch_optional_def verify_password_def
        toy_bad_login_def toy_defs)
  moreover have "\<not> locked_out 100 (login_failure_key None) toy_state"
    by (simp add: locked_out_def toy_state_def new_state_def)
  moreover have "st_db toy_state = toy_db"
    by (simp add: toy_state_def new_state_def)
  ultimately show ?thesis
    using logins_race [OF toy_hub_ok, of "replicate 4 (toy_fresh, None, toy_bad_login)" toy_host]
    by (simp add: list_all_iff)
qed

section \<open>Devices\<close>

text \<open>
  C12. A hello is accepted only with protocol version 1 and an existing room, and then either for the
  device whose identifier and token it gives, which is a device of that room, or as a new device with
  a fresh identifier and token, in status pending.
\<close>

theorem hello_authenticated:
  assumes "hub_ok s" and "handle_client_hello h f ip m c s = (Inr (Some (i, status)), s')"
  shows "\<exists>rid did tok name cv. m = Hello rid did tok name 1 cv \<and> rid \<in> room_ids (st_db s) \<and>
    ((\<exists>r. row_by dv_id i (db_devices (st_db s)) = Some r \<and> dv_room_id r = rid \<and>
        did = Some i \<and> tok = Some (dv_device_token r) \<and> status = dv_status r) \<or>
     ((did = None \<or> tok = None) \<and> i = fr_uuid f 0 \<and> i \<notin> device_ids (st_db s) \<and> status = ''pending'' \<and>
        (\<exists>r. db_devices (st_db s') = db_devices (st_db s) @ [r] \<and> dv_id r = i \<and> dv_room_id r = rid \<and>
           dv_status r = ''pending'' \<and> dv_device_token r = random_base64 h (take 32 (fr_random f 0)))))"
proof -
  obtain rid did tok name cv where m: "m = Hello rid did tok name 1 cv" "rid \<in> room_ids (st_db s)"
    and cases: "(\<exists>r. did = Some i \<and> tok = Some (dv_device_token r) \<and>
        row_by dv_id i (db_devices (st_db s)) = Some r \<and> dv_room_id r = rid \<and> status = dv_status r) \<or>
      (did = None \<or> tok = None) \<and> i = fr_uuid f 0 \<and> i \<notin> device_ids (st_db s) \<and> status = ''pending'' \<and>
        db_devices (st_db s') = db_devices (st_db s) @ [new_device i rid name cv (Some ip)
          (random_base64 h (take 32 (fr_random f 0))) (fr_clock f 0)]"
    using hello_result [OF _ assms(2)] assms(1) by (fastforce simp: hub_ok_def)
  then show ?thesis
    by (fastforce simp: new_device_def)
qed

lemma hello_authenticated_witness:
  "\<exists>r. row_by dv_id ''d1'' (db_devices toy_db) = Some r \<and> dv_device_token r = ''t1'' \<and>
    dv_room_id r = ''r1''"
proof -
  obtain s1 where "handle_client_hello toy_host toy_fresh ''ip'' toy_hello 0 toy_state =
      (Inr (Some (''d1'', ''pending'')), s1)"
    using toy_hello_accepted by blast
  from hello_authenticated [OF toy_hub_ok this] show ?thesis
    by (auto simp: toy_hello_def toy_state_def new_state_def)
qed

text \<open>
  C13. The owner of a room who lets the token of a device be drawn again gets the new token, and the
  channel of the device is dropped. When the device is in the room, its row has the new token from then
  on and nothing else of the database changes: a hello with any other token is refused, one with the new
  token is accepted. When the device is in another room, the answer is a token that nobody has: the
  database stays as it is, but the channel of the device of the other room is dropped all the same.
\<close>

theorem regenerated_token:
  assumes "hub_ok s" and "api_regenerate_device_token h f user rid i s = (Inr token, s')"
    and "row_by dv_id i (db_devices (st_db s)) = Some r"
  shows "token = random_base64 h (take 32 (fr_random f 0)) \<and>
    s' = s\<lparr>st_clients := (st_clients s)(i := None), st_db := st_db s'\<rparr> \<and>
    (dv_room_id r \<noteq> rid \<longrightarrow> st_db s' = st_db s) \<and>
    (dv_room_id r = rid \<longrightarrow>
      st_db s' = (st_db s)\<lparr>db_devices := update_where (\<lambda>x. dv_id x = i)
        (\<lambda>x. x\<lparr>dv_device_token := token\<rparr>) (db_devices (st_db s))\<rparr> \<and>
      (tok \<noteq> token \<longrightarrow>
        handle_client_hello h f' ip (Hello rid' (Some i) (Some tok) name 1 cv) c s' = (Inr None, s')) \<and>
      (\<exists>s''. handle_client_hello h f' ip (Hello rid (Some i) (Some token) name 1 cv) c s' =
        (Inr (Some (i, dv_status r)), s'')))"
proof -
  have res: "token = random_base64 h (take 32 (fr_random f 0))" "rid \<in> room_ids (st_db s)"
      "s' = s\<lparr>st_clients := (st_clients s)(i := None), st_db := (st_db s)\<lparr>db_devices :=
        update_where (\<lambda>x. dv_id x = i \<and> dv_room_id x = rid) (\<lambda>x. x\<lparr>dv_device_token := token\<rparr>)
          (db_devices (st_db s))\<rparr>\<rparr>"
    using regenerate_result [OF assms(2)] by blast+
  have same: "update_where (\<lambda>x. dv_id x = i \<and> dv_room_id x = rid) g (db_devices (st_db s)) =
      (if dv_room_id r = rid then update_where (\<lambda>x. dv_id x = i) g (db_devices (st_db s))
       else db_devices (st_db s))" for g
    by (rule update_in_room [OF _ assms(3)]) (use assms(1) in \<open>simp add: hub_ok_def\<close>)
  show ?thesis
  proof (cases "dv_room_id r = rid")
    case True
    then have db: "st_db s' = (st_db s)\<lparr>db_devices := update_where (\<lambda>x. dv_id x = i)
        (\<lambda>x. x\<lparr>dv_device_token := token\<rparr>) (db_devices (st_db s))\<rparr>"
      using res(3) same by simp
    let ?r = "r\<lparr>dv_device_token := token\<rparr>"
    have row: "row_by dv_id i (db_devices (st_db s')) = Some ?r"
      using assms(3) row_by_Some [OF assms(3)] unfolding db by (simp add: row_by_update_where)
    have ok: "db_ok (st_db s')" "rid \<in> room_ids (st_db s')"
      using keepsD [OF devices_ok(3) assms(2,1)] res(2) by (simp_all add: hub_ok_def db)
    have "handle_client_hello h f' ip (Hello rid' (Some i) (Some tok) name 1 cv) c s' = (Inr None, s')"
      if "tok \<noteq> token"
      by (rule hello_of_row(1) [OF ok(1) row]) (use that in simp)
    moreover have "\<exists>s''. handle_client_hello h f' ip (Hello rid (Some i) (Some token) name 1 cv) c s' =
        (Inr (Some (i, dv_status r)), s'')"
      using hello_of_row(2) [OF ok(1) row, of h f' ip name cv c] ok(2) True by simp
    moreover have "s' = s\<lparr>st_clients := (st_clients s)(i := None), st_db := st_db s'\<rparr>"
      using res(3) by simp
    ultimately show ?thesis
      using res(1) db True by blast
  qed (use res same in simp)
qed

lemma regenerated_token_witness:
  "\<exists>t s'. api_regenerate_device_token toy_host toy_fresh toy_bob ''r1'' ''d1'' toy_state = (Inr t, s') \<and>
    handle_client_hello toy_host toy_fresh ''ip'' toy_hello 0 s' = (Inr None, s')"
proof -
  let ?t = "random_base64 toy_host (take 32 (fr_random toy_fresh 0))"
  obtain s' where made: "api_regenerate_device_token toy_host toy_fresh toy_bob ''r1'' ''d1'' toy_state = (Inr ?t, s')"
    using toy_regenerates by blast
  have row: "row_by dv_id ''d1'' (db_devices (st_db toy_state)) = Some toy_device" "dv_room_id toy_device = ''r1''"
    by (simp_all add: row_by_def toy_defs)
  have "''t1'' \<noteq> ?t"
    by (auto dest!: arg_cong [where f = length] simp: random_base64_def length_toy_enc simp del: toy_enc.simps)
  with regenerated_token [OF toy_hub_ok made row(1), of "''t1''" toy_fresh "''ip''" "''r1''" "''pc''" None 0] made row(2)
  show ?thesis
    by (auto simp: toy_hello_def)
qed

text \<open>
  C14. A kicked device stays out: no hello opens a session for it or registers a channel or an address for
  it, neither over a stream nor in a datagram, and no hello, message, end of a session or datagram, of
  this device or of another, changes its status.
\<close>

theorem kicked_stays_out:
  assumes "hub_ok s" and "kicked i s"
  shows "fst (session_open h f ip m c s) \<noteq> Inr (Some i) \<and>
    kicked i (snd (session_open h f ip m c s)) \<and>
    st_clients (snd (session_open h f ip m c s)) i \<in> {st_clients s i, None} \<and>
    kicked i (snd (session_message h f j m s)) \<and>
    kicked i (snd (session_close j s)) \<and>
    (ud_app u = s \<longrightarrow>
      kicked i (ud_app (snd (udp_datagram h f c c' peer buf u))) \<and>
      st_clients (ud_app (snd (udp_datagram h f c c' peer buf u))) i \<in> {st_clients s i, None} \<and>
      (ud_peers (snd (udp_datagram h f c c' peer buf u)) p = Some i \<longrightarrow> ud_peers u p = Some i))"
proof -
  have ok: "db_ok (st_db s)"
    using assms(1) by (simp add: hub_ok_def)
  have "kicked i (ud_app (snd (udp_datagram h f c c' peer buf u)))" if "ud_app u = s"
    using keeps_snd [OF kicked_udp, of i u] assms(2) that by simp
  moreover have "st_clients (ud_app (snd (udp_datagram h f c c' peer buf u))) i \<in> {st_clients s i, None} \<and>
      (ud_peers (snd (udp_datagram h f c c' peer buf u)) p = Some i \<longrightarrow> ud_peers u p = Some i)"
    if "ud_app u = s"
    using unopened_datagram [of u i h f c c' peer buf] ok assms(2) that by (cases p) simp
  ultimately show ?thesis
    using kicked_no_session [OF ok assms(2)] unopened_session [OF ok assms(2), of h f ip m c]
      keeps_snd [OF kicked_session(1) assms(2)] keeps_snd [OF kicked_session(2) assms(2)]
      keeps_snd [OF kicked_session(3) assms(2)]
    by simp
qed

lemma kicked_stays_out_witness:
  "fst (session_open toy_host toy_fresh ''ip'' toy_hello 3 (snd (kick_device toy_bob ''r1'' ''d1'' toy_state)))
     \<noteq> Inr (Some ''d1'')"
proof -
  obtain s where kick: "kick_device toy_bob ''r1'' ''d1'' toy_state = (Inr (), s)"
    using toy_kicks [OF toy_state_kickable] by blast
  have "hub_ok s"
    using keepsD [OF devices_ok(4) kick toy_hub_ok] .
  from kicked_stays_out [OF this kick_result [OF kick]] show ?thesis
    by (simp add: kick)
qed

text \<open>
  C15. A kick between the answer to a hello and the registration of its channel does not disconnect the
  device: its status is kicked, but the channel of its session is registered, and every push to the
  device that goes through is put into this channel and reported as delivered.
\<close>

theorem kick_race:
  assumes "handle_client_hello h (fs 0) ip m c s = (Inr (Some (i, status)), s1)" "status \<noteq> ''kicked''"
    and "kick_device user rid i s1 = (Inr (), s2)"
  shows "\<exists>s'. pool_step\<^sup>*\<^sup>*
      ([finished (handle_client_session_t h fs ip m c ms), finished (kick_device_t user rid i)], s)
      ([finished (session_rest h fs i ms), Done ()], s') \<and>
    kicked i s' \<and> st_clients s' i = Some c \<and>
    (\<forall>f ov pushed s''. push_config_to_device h f i ov s' = (Inr pushed, s'') \<longrightarrow>
      pushed \<and> (\<exists>v ct n. st_sent s'' = st_sent s' @ [(c, ConfigPush v ct n)]))"
proof -
  obtain s' where s': "pool_step\<^sup>*\<^sup>*
      ([finished (handle_client_session_t h fs ip m c ms), finished (kick_device_t user rid i)], s)
      ([finished (session_rest h fs i ms), Done ()], s')" "kicked i s'" "st_clients s' i = Some c"
    using kick_in_hello [of h fs ip m c s i status s1 user rid s2 ms] assms by blast
  have "pushed \<and> (\<exists>v ct n. st_sent s'' = st_sent s' @ [(c, ConfigPush v ct n)])"
    if "push_config_to_device h f i ov s' = (Inr pushed, s'')" for f ov pushed s''
    using push_result [OF that] s'(3) by (auto simp: deliver_def)
  with s' show ?thesis
    by blast
qed

lemma kick_race_witness:
  "\<exists>s'. pool_step\<^sup>*\<^sup>*
     ([finished (handle_client_session_t toy_host (\<lambda>_. toy_fresh) ''ip'' toy_hello 0 []),
       finished (kick_device_t toy_bob ''r1'' ''d1'')], toy_state)
     ([finished (session_rest toy_host (\<lambda>_. toy_fresh) ''d1'' []), Done ()], s') \<and>
   kicked ''d1'' s' \<and> st_clients s' ''d1'' = Some 0"
proof -
  obtain s1 where hello: "handle_client_hello toy_host toy_fresh ''ip'' toy_hello 0 toy_state =
      (Inr (Some (''d1'', ''pending'')), s1)" and "toy_kickable s1"
    using toy_hello_accepted by blast
  obtain s2 where "kick_device toy_bob ''r1'' ''d1'' s1 = (Inr (), s2)"
    using toy_kicks [OF \<open>toy_kickable s1\<close>] by blast
  from kick_race [where fs = "\<lambda>_. toy_fresh", OF hello _ this, of "[]"] show ?thesis
    by auto
qed

text \<open>
  C16. The status of a device is a state machine: each statement of the requests, sessions and datagrams
  that the hub runs, in any order, short of the import of a backup, leaves the status of every device as
  it is or takes one step of the machine: from no device to pending, to online or offline unless it is
  kicked, to kicked from anywhere, and to no device. So a device that is kicked stays kicked as long as it
  is not removed, and no device gets a status that is not one of the four.
\<close>

theorem device_status_refined:
  assumes "hub_ok (ud_app u0)" and "list_all (\<lambda>t. \<not> task_imports t) tasks"
    and "pool_step\<^sup>*\<^sup>* (map (task_thread h) tasks, u0) (ts, u)"
  shows "(\<forall>ts' u'. pool_step (ts, u) (ts', u') \<longrightarrow>
      status_of (st_db (ud_app u')) i = status_of (st_db (ud_app u)) i \<or>
      status_step (status_of (st_db (ud_app u)) i) (status_of (st_db (ud_app u')) i)) \<and>
    (status_of (st_db (ud_app u)) i = Some ''kicked'' \<and>
      (\<lambda>p q. pool_step p q \<and> status_of (st_db (ud_app (snd q))) i \<noteq> None)\<^sup>*\<^sup>* (ts, u) (ts2, u2) \<longrightarrow>
      status_of (st_db (ud_app u2)) i = Some ''kicked'') \<and>
    (pred_option known_status (status_of (st_db (ud_app u0)) i) \<longrightarrow>
      pred_option known_status (status_of (st_db (ud_app u)) i))"
proof -
  have start: "quiet h (map (task_thread h) tasks, u0)"
    using assms(1,2) by (intro quiet_start) (simp_all add: list_all_iff)
  have quiet: "quiet h (ts, u)"
    by (rule quiet_run [OF assms(3) start])
  show ?thesis
  proof (intro conjI allI impI)
    show "status_of (st_db (ud_app u')) i = status_of (st_db (ud_app u)) i \<or>
        status_step (status_of (st_db (ud_app u)) i) (status_of (st_db (ud_app u')) i)"
      if "pool_step (ts, u) (ts', u')" for ts' u'
      using quiet_step [OF that quiet, of i] by simp
    show "status_of (st_db (ud_app u2)) i = Some ''kicked''"
      if "status_of (st_db (ud_app u)) i = Some ''kicked'' \<and>
        (\<lambda>p q. pool_step p q \<and> status_of (st_db (ud_app (snd q))) i \<noteq> None)\<^sup>*\<^sup>* (ts, u) (ts2, u2)"
      using quiet_kicked [OF conjunct2 [OF that] quiet] that by simp
    show "pred_option known_status (status_of (st_db (ud_app u)) i)"
      if "pred_option known_status (status_of (st_db (ud_app u0)) i)"
      using quiet_known [OF assms(3) start, of i] that by simp
  qed
qed

lemma device_status_refined_witness:
  "status_of (st_db toy_started) ''d1'' = Some ''pending'' \<and>
   pred_option known_status (status_of (st_db toy_connected) ''d1'')"
proof -
  have start: "status_of (st_db toy_started) ''d1'' = Some ''pending''"
    by (simp add: status_of_def row_by_def toy_started_def toy_defs)
  moreover have "hub_ok (ud_app toy_start)" "list_all (\<lambda>t. \<not> task_imports t) toy_tasks"
    using startup_ok [OF toy_db_ok toy_startup] by (simp_all add: toy_start_def toy_tasks_def)
  ultimately show ?thesis
    using device_status_refined [OF _ _ toy_schedule, of "''d1''"] by (simp add: toy_start_def known_status_def)
qed

text \<open>
  C17. A push that reports success has put into the channel of the device one message that the device
  decrypts, with the key made of its identifier and token, to the JSON text of its effective
  configuration.
\<close>

theorem push_readable_by_device:
  assumes "cipher_laws h" and "\<And>j. utf8_string (h_json_text h j)" and "length (fr_random f 0) = 12"
    and "push_config_to_device h f i ov s = (Inr True, s')"
  shows "\<exists>r c gid v cfg name ct n. row_by dv_id i (db_devices (st_db s)) = Some r \<and>
    st_clients s i = Some c \<and> st_sent s' = st_sent s @ [(c, ConfigPush (i64_as_u32 v) ct n)] \<and>
    fst (device_config h i ov (st_db s)) = Inr (Some (gid, v, cfg)) \<and>
    decrypt_parts h (device_push_key_material i (dv_device_token r))
      (device_push_context i (i64_as_u32 v)) ct n = Inr (h_json_text h (push_payload h i gid name v cfg))"
proof -
  obtain r gid v cfg ct n where r: "row_by dv_id i (db_devices (st_db s)) = Some r"
      and cfg: "device_config h i ov (st_db s) = (Inr (Some (gid, v, cfg)), st_db s)"
      and enc: "encrypt_parts h (fr_random f 0) (device_push_key_material i (dv_device_token r))
        (device_push_context i (i64_as_u32 v)) (h_json_text h (push_payload h i gid
          (Option.bind gid (\<lambda>k. map_option gr_name (row_by gr_id k (db_groups (st_db s))))) v cfg)) =
        Inr (ct, n)"
      and s': "s' = deliver i (ConfigPush (i64_as_u32 v) ct n) (s\<lparr>st_db := (st_db s)\<lparr>db_pushes :=
           db_pushes (st_db s) @ [push_row_of f i gid ct]\<rparr>\<rparr>)"
      and conn: "st_clients s i \<noteq> None"
    using push_result [OF assms(4)] by blast
  obtain c where c: "st_clients s i = Some c"
    using conn by blast
  have "st_sent s' = st_sent s @ [(c, ConfigPush (i64_as_u32 v) ct n)]"
    by (simp add: s' deliver_def c)
  moreover note parts.dec_enc [OF assms(1,3,2) enc]
  ultimately show ?thesis
    using r cfg c by fastforce
qed

lemma push_readable_by_device_witness:
  "\<exists>s' c v ct n. push_config_to_device toy_host toy_fresh ''d1'' None toy_connected = (Inr True, s') \<and>
    (c, ConfigPush v ct n) \<in> set (st_sent s') \<and>
    decrypt_parts toy_host (device_push_key_material ''d1'' ''t1'') (device_push_context ''d1'' v) ct n =
      Inr ''{}''"
proof -
  obtain s' where push: "push_config_to_device toy_host toy_fresh ''d1'' None toy_connected = (Inr True, s')"
    using toy_push by blast
  have utf8: "utf8_string (h_json_text toy_host j)" for j
    by (simp add: valid_utf8.simps(2) byte_of_char_def)
  have "row_by dv_id ''d1'' (db_devices (st_db toy_connected)) =
      Some (hello_update ''pc'' None (Some ''ip'') 100 toy_device)"
    by (simp add: toy_connected_def toy_started_def row_by_def update_where_def toy_defs hello_update_def)
  moreover have "dv_device_token (hello_update ''pc'' None (Some ''ip'') 100 toy_device) = ''t1''"
    by (simp add: toy_device_def new_device_def)
  ultimately show ?thesis
    using push_readable_by_device [OF toy_cipher_laws utf8 _ push] push by fastforce
qed

text \<open>
  C18. Once a device has acknowledged the version of its group (a version below 2^32), neither a new
  connection nor a report of that version makes the hub push the configuration again.
\<close>

theorem acked_not_pushed_again:
  assumes "grouped h (st_db s) i k v" and "0 \<le> v" "v < 2 ^ 32"
    and "handle_client_message h f i (ConfigAck (i64_as_u32 v)) s = (Inr (), s')"
  shows "push_current_config_if_needed h f' i s' = (Inr (), s') \<and>
    push_if_console_config_differs h f' i (i64_as_u32 v) s' = (Inr (), s')"
proof
  note g = acked_grouped [OF assms(1,4)]
  have v: "u32_as_i64 (i64_as_u32 v) = v"
    using assms(2,3) by (simp add: u32_as_i64_i64_as_u32 mod_pos_pos_trivial)
  show "push_current_config_if_needed h f' i s' = (Inr (), s')"
  proof -
    obtain r' where r': "row_by dv_id i (db_devices (st_db s')) = Some r'" "dv_config_version r' = v"
      using g(2) unfolding v by blast
    show ?thesis
      by (rule push_current_skips [OF g(1) r'(1)]) (simp add: r'(2))
  qed
  show "push_if_console_config_differs h f' i (i64_as_u32 v) s' = (Inr (), s')"
  proof -
    obtain c where "device_config h i None (st_db s') = (Inr (Some (Some k, v, c)), st_db s')"
      using grouped_config [OF g(1)] by blast
    then show ?thesis
      by (simp add: push_if_console_config_differs_def on_db_def andthen_def)
  qed
qed

lemma acked_not_pushed_again_witness:
  "\<exists>s'. handle_client_message toy_host toy_fresh ''d1'' (ConfigAck 3) toy_grouped = (Inr (), s') \<and>
    push_current_config_if_needed toy_host toy_fresh ''d1'' s' = (Inr (), s')"
proof -
  obtain s' where s': "handle_client_message toy_host toy_fresh ''d1'' (ConfigAck 3) toy_grouped = (Inr (), s')"
    using ack_result by blast
  then have "handle_client_message toy_host toy_fresh ''d1'' (ConfigAck (i64_as_u32 3)) toy_grouped =
      (Inr (), s')"
    by (simp add: i64_as_u32_def del: handle_client_message.simps)
  then have "push_current_config_if_needed toy_host toy_fresh ''d1'' s' = (Inr (), s')"
    by (rule acked_not_pushed_again [OF toy_is_grouped, rotated 2, THEN conjunct1]) simp_all
  with s' show ?thesis
    by blast
qed

text \<open>
  C19. When a device whose group has a newer version than it last reported opens a session, the
  configuration is pushed to it over the connection it opened.
\<close>

theorem reconnect_gets_newer_config:
  assumes "hub_ok s" and "session_open h f ip m c s = (Inr (Some i), s')"
    and "grouped h (st_db s) i k v" and "row_by dv_id i (db_devices (st_db s)) = Some r"
    and "dv_config_version r < v" and "fr_uuid f 1 \<notin> pu_id ` set (db_pushes (st_db s))"
    and "\<And>key nonce p. h_seal h key nonce p \<noteq> None"
  shows "\<exists>ct n. (c, ConfigPush (i64_as_u32 v) ct n) \<in> set (st_sent s')"
proof -
  have ok: "db_ok (st_db s)"
    using assms(1) by (simp add: hub_ok_def)
  obtain status s1 res where hello: "handle_client_hello h f ip m c s = (Inr (Some (i, status)), s1)"
      and push: "push_current_config_if_needed h (fresh_from f 1) i
        (s1\<lparr>st_clients := (st_clients s1)(i := Some c)\<rparr>) = (res, s')"
    using session_open_Some [OF assms(2)] by blast
  have "i \<in> device_ids (st_db s)"
    using row_by_Some [OF assms(4)] by (metis image_eqI)
  then obtain name cv where s1: "st_db s1 = (st_db s)\<lparr>db_devices := update_where (\<lambda>r. dv_id r = i)
      (hello_update name cv (Some ip) (fr_clock f 0)) (db_devices (st_db s))\<rparr>"
    using hello_known [OF ok hello] by blast
  let ?s = "s1\<lparr>st_clients := (st_clients s1)(i := Some c)\<rparr>"
  let ?r = "hello_update name cv (Some ip) (fr_clock f 0) r"
  have 1: "grouped h (st_db ?s) i k v"
    by (rule grouped_update [OF assms(3), where g = "hello_update name cv (Some ip) (fr_clock f 0)"
        and P = "\<lambda>r. dv_id r = i"]) (simp_all add: s1)
  have 2: "row_by dv_id i (db_devices (st_db ?s)) = Some ?r"
    using assms(4) by (simp add: s1 row_by_update_where row_by_Some)
  have 3: "dv_config_version ?r < v"
    using assms(5) by (simp add: hello_update_def)
  have 4: "fr_uuid (fresh_from f 1) 0 \<notin> pu_id ` set (db_pushes (st_db ?s))"
    using assms(6) by (simp add: s1 fresh_from_def)
  have 5: "\<exists>y. encrypt_parts h nonce key ctx x = Inr y" for nonce key ctx x
    using assms(7) by (auto simp: encrypt_parts_def Let_def result_then_def ok_or_def split: option.splits)
  have 6: "st_clients ?s i = Some c"
    by simp
  obtain ct n where "st_sent s' = st_sent s1 @ [(c, ConfigPush (i64_as_u32 v) ct n)]"
    using push_current_pushes [OF 1 2 3 4 5 6] push by auto
  then have "(c, ConfigPush (i64_as_u32 v) ct n) \<in> set (st_sent s')"
    by simp
  then show ?thesis by blast
qed

lemma reconnect_gets_newer_config_witness:
  "\<exists>s' ct n. session_open toy_host toy_fresh ''ip'' toy_hello 7 toy_grouped = (Inr (Some ''d1''), s') \<and>
    (7, ConfigPush 3 ct n) \<in> set (st_sent s')"
proof -
  obtain s' where s': "session_open toy_host toy_fresh ''ip'' toy_hello 7 toy_grouped = (Inr (Some ''d1''), s')"
    using toy_reconnect by blast
  have "row_by dv_id ''d1'' (db_devices (st_db toy_grouped)) = Some (toy_device\<lparr>dv_group_id := Some ''g1''\<rparr>)"
    by (simp add: toy_grouped_def row_by_def toy_device_def new_device_def)
  from reconnect_gets_newer_config [OF toy_grouped_ok s' toy_is_grouped this] s' show ?thesis
    by (simp add: toy_grouped_def toy_started_def toy_defs i64_as_u32_def)
qed

text \<open>
  C20. When a device opens a second session and then the first one ends, the device is no longer
  registered although the second session goes on: nothing more is pushed to it until it connects again.
\<close>

theorem stale_close_disconnects:
  assumes "session_open h (fs1 0) ip1 m1 c1 s = (Inr (Some i), s1)"
    and "session_open h (fs2 0) ip2 m2 c2 s1 = (Inr (Some i), s2)"
  shows "\<exists>s'. pool_step\<^sup>*\<^sup>*
      ([handle_client_session_t h fs1 ip1 m1 c1 [], handle_client_session_t h fs2 ip2 m2 c2 ms], s)
      ([give (), session_rest h fs2 i ms], s') \<and>
    st_clients s' i = None \<and> fst (push_config_to_device h f i ov s') \<noteq> Inr True"
proof -
  obtain s' where s': "pool_step\<^sup>*\<^sup>*
      ([handle_client_session_t h fs1 ip1 m1 c1 [], handle_client_session_t h fs2 ip2 m2 c2 ms], s)
      ([give (), session_rest h fs2 i ms], s')" "st_clients s' i = None"
    using sessions_overlap [of h fs1 ip1 m1 c1 s i s1 fs2 ip2 m2 c2 s2 ms] assms by blast
  have "fst (push_config_to_device h f i ov s') \<noteq> Inr True"
  proof
    assume "fst (push_config_to_device h f i ov s') = Inr True"
    then obtain s'' where "push_config_to_device h f i ov s' = (Inr True, s'')"
      by (metis prod.collapse)
    from push_result [OF this] s'(2) show False
      by auto
  qed
  with s' show ?thesis
    by blast
qed

lemma stale_close_disconnects_witness:
  "\<exists>s'. pool_step\<^sup>*\<^sup>*
     ([handle_client_session_t toy_host (\<lambda>_. toy_fresh) ''ip'' toy_hello 0 [],
       handle_client_session_t toy_host (\<lambda>_. toy_fresh) ''ip'' toy_hello 1 [Heartbeat 0]], toy_started)
     ([give (), session_rest toy_host (\<lambda>_. toy_fresh) ''d1'' [Heartbeat 0]], s') \<and>
   st_clients s' ''d1'' = None"
proof -
  obtain s2 where "session_open toy_host toy_fresh ''ip'' toy_hello 1 toy_connected = (Inr (Some ''d1''), s2)"
    using toy_connect_again by blast
  from stale_close_disconnects [where ?fs1.0 = "\<lambda>_. toy_fresh" and ?fs2.0 = "\<lambda>_. toy_fresh",
      OF toy_connect this, of "[Heartbeat 0]"]
  show ?thesis
    by blast
qed

section \<open>Groups and rooms\<close>

text \<open>
  C21. The encrypted table of groups implements a map from identifiers to plain groups: the accepted
  operations of a sequence (creation, adoption, update, deletion of groups and of rooms) change the
  decrypted table the way the specification changes the map, and refused ones do not show. Listing a
  room gives the part of the map in it.
\<close>

theorem group_store_refinement:
  assumes "db_ok d" and "list_all (\<lambda>(x, a). op_usable h x a) as"
  shows "spec_run (accepted (group_exec h) as d) (group_view h d) =
      Some (group_view h (run_ops (group_exec h) as d)) \<and>
    (list_groups h rid d = (Inr gs, d') \<longrightarrow>
      (\<lambda>g. (grp_id g, plain_listed rid g)) ` set gs = {(k, p). group_view h d k = Some p \<and> pl_room p = rid})"
proof (intro conjI impI)
  show "spec_run (accepted (group_exec h) as d) (group_view h d) =
      Some (group_view h (run_ops (group_exec h) as d))"
    using encrypted.run_refines [OF assms(1)] assms(2) by (simp add: list_all_iff)
  show "list_groups h rid d = (Inr gs, d') \<Longrightarrow> (\<lambda>g. (grp_id g, plain_listed rid g)) ` set gs =
      {(k, p). group_view h d k = Some p \<and> pl_room p = rid}"
    by (rule list_groups_view [OF assms(1)])
qed

lemma group_store_refinement_witness:
  "\<exists>ops. spec_run ops (group_view toy_host toy_db) = Some (group_view toy_host (run_ops (group_exec toy_host)
     [((fresh_nonces toy_fresh, 9), EditGroup ''r1'' ''g1'' \<lparr> ug_name = None, ug_config = Some toy_config \<rparr>),
      ((fresh_nonces toy_fresh, 9), DropRoom ''r2'')] toy_db))"
  using group_store_refinement [OF toy_db_ok, of toy_host
      "[((fresh_nonces toy_fresh, 9), EditGroup ''r1'' ''g1'' \<lparr> ug_name = None, ug_config = Some toy_config \<rparr>),
        ((fresh_nonces toy_fresh, 9), DropRoom ''r2'')]"] toy_ops_usable
  by auto

text \<open>
  C22. A successful update of a group raises its version by one and leaves the other groups alone; the
  stored configuration decrypts to the new one when the request gives one, and to the old one when it
  does not.
\<close>

theorem group_update_effect:
  assumes "db_ok d" and "update_group h ns t rid gid req d = (Inr g, d')"
    and "cipher_laws h" and "nonces_ok ns" and "\<And>c. ug_config req = Some c \<Longrightarrow> config_storable h c"
  shows "(\<exists>r r'. row_by gr_id gid (db_groups d) = Some r \<and> gr_room_id r = rid \<and>
      row_by gr_id gid (db_groups d') = Some r' \<and> gr_room_id r' = rid \<and>
      gr_config_version r' = i64_add (gr_config_version r) 1 \<and>
      grp_config_version g = gr_config_version r' \<and>
      decrypt_row h r' = (case ug_config req of None \<Rightarrow> decrypt_row h r | Some c \<Rightarrow> Inr (Some c))) \<and>
    (k \<noteq> gid \<longrightarrow> row_by gr_id k (db_groups d') = row_by gr_id k (db_groups d)) \<and>
    d' = d\<lparr>db_groups := db_groups d'\<rparr>"
proof (intro conjI impI)
  obtain r r' where *: "row_by gr_id gid (db_groups d) = Some r" "gr_room_id r = rid"
    "row_by gr_id gid (db_groups d') = Some r'"
    "gr_config_version r' = i64_add (gr_config_version r) 1" "gr_room_id r' = rid"
    and config: "case ug_config req of
       None \<Rightarrow> decrypt_row h r' = decrypt_row h r
     | Some c \<Rightarrow> \<exists>et es ep ec. row_holds h ns gid c et es ep ec \<and>
         gr_encrypted_token r' = Some et \<and> gr_encrypted_server r' = Some es \<and>
         gr_encrypted_password r' = ep \<and> gr_extra_config r' = Some ec"
    and "grp_config_version g = i64_add (gr_config_version r) 1"
    and frame: "d' = d\<lparr>db_groups := db_groups d'\<rparr>"
      "\<And>k. k \<noteq> gid \<Longrightarrow> row_by gr_id k (db_groups d') = row_by gr_id k (db_groups d)"
    by (rule update_group_Inr [OF assms(1,2)]) blast
  moreover have "decrypt_row h r' = (case ug_config req of None \<Rightarrow> decrypt_row h r | Some c \<Rightarrow> Inr (Some c))"
  proof (cases "ug_config req")
    case (Some c)
    then obtain et es ep ec where "row_holds h ns gid c et es ep ec" "gr_encrypted_token r' = Some et"
        "gr_encrypted_server r' = Some es" "gr_encrypted_password r' = ep" "gr_extra_config r' = Some ec"
      using config by auto
    with decrypt_row_holds [OF assms(3,4) assms(5) [OF Some]] row_by_Some [OF *(3)] Some
    show ?thesis by (simp add: decrypt_row_def)
  qed (use config in simp)
  ultimately show "\<exists>r r'. row_by gr_id gid (db_groups d) = Some r \<and> gr_room_id r = rid \<and>
      row_by gr_id gid (db_groups d') = Some r' \<and> gr_room_id r' = rid \<and>
      gr_config_version r' = i64_add (gr_config_version r) 1 \<and>
      grp_config_version g = gr_config_version r' \<and>
      decrypt_row h r' = (case ug_config req of None \<Rightarrow> decrypt_row h r | Some c \<Rightarrow> Inr (Some c))"
    by auto
  show "k \<noteq> gid \<Longrightarrow> row_by gr_id k (db_groups d') = row_by gr_id k (db_groups d)"
    by (rule frame(2))
  show "d' = d\<lparr>db_groups := db_groups d'\<rparr>"
    by (rule frame(1))
qed

lemma group_update_effect_witness:
  "\<exists>g d' r'. update_group toy_host (fresh_nonces toy_fresh) 9 ''r1'' ''g1''
      \<lparr> ug_name = None, ug_config = Some toy_config \<rparr> toy_db = (Inr g, d') \<and>
    row_by gr_id ''g1'' (db_groups d') = Some r' \<and> decrypt_row toy_host r' = Inr (Some toy_config)"
proof -
  obtain g d' where upd: "update_group toy_host (fresh_nonces toy_fresh) 9 ''r1'' ''g1''
      \<lparr> ug_name = None, ug_config = Some toy_config \<rparr> toy_db = (Inr g, d')"
    using toy_group_update by blast
  from group_update_effect [OF toy_db_ok upd toy_cipher_laws] toy_config_storable toy_nonces upd
  show ?thesis
    by auto
qed

text \<open>
  C23. An update of a group reads its row in one statement and writes it in another. Whatever runs
  between the two, and leaves the group in place, the update stores its configuration under the version
  that it read plus one. So two updates can be accepted under one version, and the version of a group
  can go back; by this version the hub decides what to push. No schedule breaks the constraints of the
  database.
\<close>

theorem updates_race:
  fixes w :: "(database, error + group) thread"
  assumes "db_ok d" and "update_group h ns t rid gid q d = (Inr g, d1)" and "alone w d = (r, d2)"
    and "row_by gr_id gid (db_groups d2) = Some x" "gr_room_id x = rid"
    and "cipher_laws h" "nonces_ok ns" "config_storable h c" "ug_config q = Some c"
  shows "(\<exists>d' y v. pool_step\<^sup>*\<^sup>* ([update_group_thread h ns t rid gid q, w], d) ([Done (Inr g), Done r], d') \<and>
      row_by gr_id gid (db_groups d') = Some y \<and> decrypt_row h y = Inr (Some c) \<and>
      row_by gr_id gid (db_groups d) = Some v \<and> gr_config_version y = i64_add (gr_config_version v) 1) \<and>
    (thread_keeps db_ok w \<and> pool_step\<^sup>*\<^sup>* ([update_group_thread h ns t rid gid q, w], d) (ts, d3) \<longrightarrow> db_ok d3)"
proof (intro conjI impI)
  show "\<exists>d' y v. pool_step\<^sup>*\<^sup>* ([update_group_thread h ns t rid gid q, w], d) ([Done (Inr g), Done r], d') \<and>
      row_by gr_id gid (db_groups d') = Some y \<and> decrypt_row h y = Inr (Some c) \<and>
      row_by gr_id gid (db_groups d) = Some v \<and> gr_config_version y = i64_add (gr_config_version v) 1"
    using update_overwrites [OF assms] by auto
  assume run: "thread_keeps db_ok w \<and>
      pool_step\<^sup>*\<^sup>* ([update_group_thread h ns t rid gid q, w], d) (ts, d3)"
  then have keep: "\<forall>t \<in> set [update_group_thread h ns t rid gid q, w]. thread_keeps db_ok t"
    by (auto simp: update_group_thread_ok)
  show "db_ok d3"
    by (rule pool_keeps [OF _ keep]) (use run assms(1) in auto)
qed

lemma updates_race_witness:
  "\<exists>g w r d' y. alone w toy_db = (r, toy_db\<lparr>db_groups := [toy_renamed 5]\<rparr>) \<and>
    pool_step\<^sup>*\<^sup>* ([update_group_thread toy_host (fresh_nonces toy_fresh) 9 ''r1'' ''g1''
      \<lparr> ug_name = None, ug_config = Some toy_config \<rparr>, w], toy_db) ([Done (Inr g), Done r], d') \<and>
    row_by gr_id ''g1'' (db_groups d') = Some y \<and> gr_config_version y = 4"
proof -
  obtain g d1 where upd: "update_group toy_host (fresh_nonces toy_fresh) 9 ''r1'' ''g1''
      \<lparr> ug_name = None, ug_config = Some toy_config \<rparr> toy_db = (Inr g, d1)"
    using toy_group_update by blast
  obtain r where twice: "alone toy_rename_twice toy_db = (r, toy_db\<lparr>db_groups := [toy_renamed 5]\<rparr>)"
    using toy_renames by blast
  have row: "row_by gr_id ''g1'' (db_groups (toy_db\<lparr>db_groups := [toy_renamed 5]\<rparr>)) = Some (toy_renamed 5)"
    "gr_room_id (toy_renamed 5) = ''r1''"
    "row_by gr_id ''g1'' (db_groups toy_db) = Some toy_group"
    by (simp_all add: toy_renamed_def row_by_def toy_defs)
  from updates_race [OF toy_db_ok upd twice row(1,2) toy_cipher_laws toy_nonces toy_config_storable,
      THEN conjunct1] row(3) twice
  show ?thesis
    by (fastforce simp: i64_add_in_range is_i64_def toy_group_def)
qed

text \<open>
  C24. The effective configuration of a device. Its base and its version are those of its group, and for a
  device without a group the default and the version after the one the device has; a group whose
  configuration is missing counts as the default. To the base come the name of the device, its node
  identifier (its own identifier when it has none) and, when it is set, its address.
\<close>

theorem device_config_effective:
  assumes "row_by dv_id i (db_devices d) = Some r"
    and "case dv_group_id r of
        None \<Rightarrow> base = default_config \<and> version = i64_add (dv_config_version r) 1
      | Some k \<Rightarrow> \<exists>g c. row_by gr_id k (db_groups d) = Some g \<and> version = gr_config_version g \<and>
          decrypt_row h g = Inr c \<and> base = (case c of None \<Rightarrow> default_config | Some c \<Rightarrow> c)"
  shows "\<exists>cfg. device_config h i None d = (Inr (Some (dv_group_id r, version, cfg)), d) \<and>
    vc_name cfg = dv_display_name r \<and>
    vc_device_id cfg = (case dv_network_node_id r of None \<Rightarrow> i | Some n \<Rightarrow> n) \<and>
    vc_ip cfg = coalesce (dv_network_ip r) (vc_ip base) \<and>
    cfg\<lparr>vc_name := vc_name base, vc_device_id := vc_device_id base, vc_ip := vc_ip base\<rparr> = base"
proof -
  have "device_config h i None d = (Inr (Some (dv_group_id r, version, device_fields r i base)), d)"
  proof (cases "dv_group_id r")
    case None
    then show ?thesis
      using device_config_ungrouped [OF assms(1) None] assms(2) by simp
  next
    case (Some k)
    with assms(2) obtain g c where "row_by gr_id k (db_groups d) = Some g" "version = gr_config_version g"
        "decrypt_row h g = Inr c" "base = (case c of None \<Rightarrow> default_config | Some c \<Rightarrow> c)"
      by auto
    then show ?thesis
      using device_config_grouped [OF assms(1), of k None g h] Some by simp
  qed
  then show ?thesis
    by (simp add: device_fields_def Let_def split: option.splits)
qed

lemma device_config_effective_witness:
  "(\<exists>cfg. device_config toy_host ''d1'' None toy_net = (Inr (Some (Some ''g1'', 3, cfg)), toy_net) \<and>
    vc_name cfg = ''pc'' \<and> vc_ip cfg = Some ''10.0.0.2'') \<and>
   (\<exists>cfg. device_config toy_host ''d2'' None toy_net = (Inr (Some (None, 1, cfg)), toy_net) \<and>
    vc_name cfg = ''pc2'' \<and> vc_device_id cfg = ''d2'')"
proof
  have row: "row_by dv_id ''d1'' (db_devices toy_net) = Some (hd (db_devices toy_net))"
    by (simp add: toy_net_def toy_defs row_by_def)
  have "case dv_group_id (hd (db_devices toy_net)) of
        None \<Rightarrow> toy_config = default_config \<and> 3 = i64_add (dv_config_version (hd (db_devices toy_net))) 1
      | Some k \<Rightarrow> \<exists>g c. row_by gr_id k (db_groups toy_net) = Some g \<and> 3 = gr_config_version g \<and>
          decrypt_row toy_host g = Inr c \<and> toy_config = (case c of None \<Rightarrow> default_config | Some c \<Rightarrow> c)"
    using toy_net_decrypts by (simp add: toy_net_def toy_defs row_by_def)
  from device_config_effective [OF row this] show
    "\<exists>cfg. device_config toy_host ''d1'' None toy_net = (Inr (Some (Some ''g1'', 3, cfg)), toy_net) \<and>
      vc_name cfg = ''pc'' \<and> vc_ip cfg = Some ''10.0.0.2''"
    by (auto simp: toy_net_def toy_defs)
next
  have "row_by dv_id ''d2'' (db_devices toy_net) = Some toy_device2"
    by (simp add: toy_net_def toy_defs row_by_def)
  from device_config_effective [OF this, of default_config 1 toy_host] show
    "\<exists>cfg. device_config toy_host ''d2'' None toy_net = (Inr (Some (None, 1, cfg)), toy_net) \<and>
      vc_name cfg = ''pc2'' \<and> vc_device_id cfg = ''d2''"
    by (auto simp: toy_defs i64_add_in_range is_i64_def)
qed

text \<open>
  C25. Deleting a room removes it with all its groups, its devices and their events and pushes, and
  nothing else; it succeeds whenever every device is in the room of its group, and otherwise either
  does all of it or nothing.
\<close>

theorem room_deletion:
  shows "(delete_room rid d = (Inr (), d') \<longrightarrow>
      rid \<notin> room_ids d' \<and> (\<forall>g \<in> set (db_groups d'). gr_room_id g \<noteq> rid) \<and>
      (\<forall>v \<in> set (db_devices d'). dv_room_id v \<noteq> rid) \<and>
      db_rooms d' = filter (\<lambda>r. rm_id r \<noteq> rid) (db_rooms d) \<and>
      db_groups d' = filter (\<lambda>g. gr_room_id g \<noteq> rid) (db_groups d) \<and>
      db_devices d' = filter (\<lambda>v. dv_room_id v \<noteq> rid) (db_devices d) \<and>
      db_events d' = filter (\<lambda>e. ei_device_id e \<notin> devices_of_room rid d) (db_events d) \<and>
      db_pushes d' = filter (\<lambda>p. pu_device_id p \<notin> devices_of_room rid d) (db_pushes d) \<and>
      db_users d' = db_users d \<and> db_sessions d' = db_sessions d \<and> db_system d' = db_system d) \<and>
    (groups_local d \<longrightarrow> fst (delete_room rid d) = Inr ()) \<and>
    (delete_room rid d = (Inl e, d') \<longrightarrow> d' = d)"
proof (rule conjI; (rule conjI)?)
  show "groups_local d \<longrightarrow> fst (delete_room rid d) = Inr ()"
    unfolding delete_room_eq groups_local_def by fastforce
qed (auto simp: delete_room_eq without_room_def delete_where_def split: if_splits)

lemma room_deletion_witness: "fst (delete_room ''r1'' toy_net) = Inr ()"
  by (rule room_deletion [THEN conjunct2, THEN conjunct1, THEN mp])
    (simp add: groups_local_def toy_net_def toy_defs)

text \<open>
  C26. Creating a room tries at most five drawn identifiers and then gives up: the answer is the first
  one that is free, with the given name and owner, or the error for a conflict, or the one for an owner
  that does not exist, and only a success changes the database.
\<close>

theorem room_creation:
  "create_room h draw now owner name d =
     (case find (\<lambda>i. room_id h (draw i) \<notin> room_ids d) [0, 1, 2, 3, 4] of
        None \<Rightarrow> (Inl (Bail ''room id conflict''), d)
      | Some i \<Rightarrow>
          if db_foreign_keys d \<and> owner \<notin> user_ids d then (Inl (SqlError ForeignKeyViolation), d)
          else
            let r = \<lparr> rm_id = room_id h (draw i), rm_name = name, rm_owner_id = owner, rm_created_at = now \<rparr>
            in (Inr r, d\<lparr>db_rooms := db_rooms d @ [r]\<rparr>))"
proof -
  have "[0..<5] = [0, 1, 2, 3, 4 :: nat]"
    by (simp add: upt_rec)
  then show ?thesis
    by (simp only: create_room_def create_room_loop_eq dangling_def)
qed

lemma room_creation_witness:
  "fst (create_room toy_host (\<lambda>i. []) 9 ''u9'' ''den'' toy_db) = Inl (SqlError ForeignKeyViolation)"
  by (subst room_creation) (simp add: toy_db_def room_id_def random_hex_def)

text \<open>
  C27. Assigning a device to a group keeps every device in the room of its group: it succeeds only for
  a device and a group of the named room, and changes no other device.
\<close>

theorem group_assignment_local:
  assumes "db_ok d" and "groups_local d" and "set_device_group rid g i d = (res, d')"
  shows "groups_local d' \<and>
    (res = Inr () \<longrightarrow> (\<exists>r \<in> set (db_devices d). dv_id r = i \<and> dv_room_id r = rid) \<and>
      (\<forall>k. g = Some k \<longrightarrow> (\<exists>x \<in> set (db_groups d). gr_id x = k \<and> gr_room_id x = rid))) \<and>
    filter (\<lambda>r. dv_id r \<noteq> i) (db_devices d') = filter (\<lambda>r. dv_id r \<noteq> i) (db_devices d)"
proof (rule conjI; (rule conjI)?)
  show "groups_local d'"
  proof (cases "\<exists>k. g = Some k \<and> (\<forall>x \<in> set (db_groups d). \<not> (gr_id x = k \<and> gr_room_id x = rid))")
    case True
    then show ?thesis
      using assms(2,3) by (auto simp: set_device_group_eq)
  next
    case False
    have "gr_room_id x = rid" if "g = Some (gr_id x)" "x \<in> set (db_groups d)" for x
      using False that groups_t.row_unique [OF assms(1) that(2)] by metis
    with False assms(2,3) show ?thesis
      by (auto simp: set_device_group_eq groups_local_def update_where_def split: if_splits)
  qed
  show "res = Inr () \<longrightarrow> (\<exists>r \<in> set (db_devices d). dv_id r = i \<and> dv_room_id r = rid) \<and>
      (\<forall>k. g = Some k \<longrightarrow> (\<exists>x \<in> set (db_groups d). gr_id x = k \<and> gr_room_id x = rid))"
    using assms(3) by (auto simp: set_device_group_eq split: if_splits)
  show "filter (\<lambda>r. dv_id r \<noteq> i) (db_devices d') = filter (\<lambda>r. dv_id r \<noteq> i) (db_devices d)"
    using assms(3)
    by (auto simp: set_device_group_eq split: if_splits intro!: filter_update_where)
qed

lemma group_assignment_local_witness:
  "groups_local (snd (set_device_group ''r1'' (Some ''g1'') ''d1'' toy_db))"
  by (rule group_assignment_local [OF toy_db_ok _ prod.collapse [symmetric], THEN conjunct1])
    (simp add: groups_local_def toy_defs)

text \<open>
  C28. When a device without a group reports the configuration it runs, and names no group of its
  room, the configuration becomes a new group of its room, with the reported version (at least 1), the
  device joins it, and what is stored decrypts to what was reported.
\<close>

theorem reported_config_adopted:
  assumes "handle_client_message h f i (ConfigState w gid name c running) s = (Inr (), s')"
    and "row_by dv_id i (db_devices (st_db s)) = Some r" "dv_group_id r = None"
    and "reported_group (st_db s) (dv_room_id r) gid = None"
    and "cipher_laws h" "nonces_ok (fresh_nonces f)" "config_storable h c"
  shows "\<exists>r' g. row_by dv_id i (db_devices (st_db s')) = Some r' \<and> dv_group_id r' = Some (fr_uuid f 0) \<and>
    dv_config_version r' = u32_as_i64 w \<and>
    row_by gr_id (fr_uuid f 0) (db_groups (st_db s')) = Some g \<and> gr_room_id g = dv_room_id r \<and>
    gr_config_version g = max (u32_as_i64 w) 1 \<and> decrypt_row h g = Inr (Some c)"
  using sync_adopts [OF _ assms(2-7)] assms(1) by simp

lemma reported_config_adopted_witness:
  "\<exists>s' g. handle_client_message toy_host toy_fresh ''d1'' (ConfigState 5 None None toy_config True) toy_state
      = (Inr (), s') \<and> row_by gr_id ''n'' (db_groups (st_db s')) = Some g \<and>
    gr_config_version g = 5 \<and> decrypt_row toy_host g = Inr (Some toy_config)"
proof -
  obtain s' where run: "handle_client_message toy_host toy_fresh ''d1''
      (ConfigState 5 None None toy_config True) toy_state = (Inr (), s')"
    using toy_report by blast
  have row: "row_by dv_id ''d1'' (db_devices (st_db toy_state)) = Some toy_device"
      "dv_group_id toy_device = None"
    by (simp_all add: toy_defs row_by_def)
  have "reported_group (st_db toy_state) (dv_room_id toy_device) None = None"
    by (simp add: reported_group_def)
  from reported_config_adopted [OF run row this toy_cipher_laws toy_nonces toy_config_storable] run
  show ?thesis
    by (auto simp: u32_as_i64_def)
qed

section \<open>Backups\<close>

text \<open>
  C29. From a database whose integers are 64-bit, with a clock and JSON numbers that are, every schedule
  of the hub only ever stores 64-bit integers: the model's integers are those of the code. What the
  backup of a state that the hub reaches restores, imported in overwrite mode into whatever database: when
  every device is in a group, every row of every table but the sessions, with an empty text where a column
  was NULL, and the report counts every row as imported. When a device is in no group, its exported group
  is the empty text, which is no group: with foreign keys enforced, as they are by default, the import
  fails and changes nothing.
\<close>

theorem backup_restores:
  assumes "startup h f cert dr d = Inr s" and "db_ok d" "ints_ok d" and "clock_ok f"
    and "list_all task_typed tasks"
    and "pool_step\<^sup>*\<^sup>* (map (task_thread h) tasks, \<lparr> ud_peers = (\<lambda>_. None), ud_app = s \<rparr>) (ts, u')"
    and "d' = st_db (ud_app u')" and "db_foreign_keys d0 = db_foreign_keys d'"
  shows "ints_ok d' \<and>
    (\<exists>data. export_backup d' = (Inr data, d') \<and>
      import_backup h data True src scope d0 =
        (if db_foreign_keys d' \<and> (\<exists>r \<in> set (db_devices d'). dv_group_id r = None \<and> [] \<notin> group_ids d')
         then (Inl (SqlError ForeignKeyViolation), d0)
         else (Inr \<lparr> ir_ok = True, ir_mode = ''overwrite'', ir_source_mode = src, ir_scope = scope,
               ir_tables = table_reports True d' \<rparr>, restored d')))"
proof
  have does: "hub_does h any_token True True (\<lambda>_ _. True) s (ud_app u')"
    using schedule_does [OF _ assms(6), of True] assms(5) by (simp add: list_all_iff)
  have "ints_ok (st_db (ud_app u'))"
    by (rule hub_does_keeps [OF does]) (rule startup_ints [OF assms(1,3,4)], rule move_ints)
  then show ints: "ints_ok d'"
    by (simp add: assms(7))
  have "hub_ok (ud_app u')"
    by (rule hub_does_keeps [OF does]) (rule startup_ok [OF assms(2,1)], rule move_hub_ok)
  then have ok: "db_ok d'"
    by (simp add: hub_ok_def assms(7))
  obtain data where data: "export_backup d' = (Inr data, d')"
    by (simp add: export_backup_def)
  have "import_backup h data True src scope d0 =
      (if db_foreign_keys d' \<and> (\<exists>r \<in> set (db_devices d'). dv_group_id r = None \<and> [] \<notin> group_ids d')
       then (Inl (SqlError ForeignKeyViolation), d0)
       else (Inr \<lparr> ir_ok = True, ir_mode = ''overwrite'', ir_source_mode = src, ir_scope = scope,
             ir_tables = table_reports True d' \<rparr>, restored d'))"
  proof (cases "db_foreign_keys d' \<and> (\<exists>r \<in> set (db_devices d'). dv_group_id r = None \<and> [] \<notin> group_ids d')")
    case True
    then obtain r where "r \<in> set (db_devices d')" "\<not> has_group d' r"
      by (auto simp: has_group_def)
    from import_overwrite_ungrouped [OF ok ints data assms(8) this] True show ?thesis
      by simp
  next
    case False
    then have "\<forall>r \<in> set (db_devices d'). has_group d' r"
      by (auto simp: has_group_def)
    with False show ?thesis
      using import_overwrite_export [OF ok ints data] assms(8) by simp
  qed
  with data show "\<exists>data. export_backup d' = (Inr data, d') \<and>
      import_backup h data True src scope d0 =
        (if db_foreign_keys d' \<and> (\<exists>r \<in> set (db_devices d'). dv_group_id r = None \<and> [] \<notin> group_ids d')
         then (Inl (SqlError ForeignKeyViolation), d0)
         else (Inr \<lparr> ir_ok = True, ir_mode = ''overwrite'', ir_source_mode = src, ir_scope = scope,
               ir_tables = table_reports True d' \<rparr>, restored d'))"
    by blast
qed

lemma backup_restores_witness:
  "(\<exists>data. export_backup (st_db toy_connected) = (Inr data, st_db toy_connected) \<and>
     import_backup toy_host data True ''sqlite'' ''full'' empty_database =
       (Inl (SqlError ForeignKeyViolation), empty_database)) \<and>
   (\<exists>data. export_backup toy_single = (Inr data, toy_single) \<and>
     snd (import_backup toy_host data True ''sqlite'' ''full'' empty_database) = restored toy_single)"
proof
  have clock: "clock_ok toy_fresh"
    by (simp add: clock_ok_def is_i64_def)
  then have tasks: "list_all task_typed toy_tasks" "list_all task_typed []"
    by (simp_all add: toy_tasks_def)
  have fk: "db_foreign_keys empty_database" "db_foreign_keys (st_db toy_connected)" "db_foreign_keys toy_single"
    by (simp_all add: empty_database_def toy_connected_def toy_started_def toy_single_def toy_single_state_def
      toy_defs)
  have "\<exists>r \<in> set (db_devices (st_db toy_connected)). dv_group_id r = None \<and> [] \<notin> group_ids (st_db toy_connected)"
    by (simp add: toy_connected_def toy_started_def toy_defs update_where_def hello_update_def)
  with backup_restores [OF toy_startup toy_db_ok toy_ints clock tasks(1) toy_schedule [unfolded toy_start_def],
      of "st_db toy_connected" empty_database "''sqlite''" "''full''"] fk
  show "\<exists>data. export_backup (st_db toy_connected) = (Inr data, st_db toy_connected) \<and>
     import_backup toy_host data True ''sqlite'' ''full'' empty_database =
       (Inl (SqlError ForeignKeyViolation), empty_database)"
    by auto
  have grouped: "\<not> (db_foreign_keys toy_single \<and>
      (\<exists>r \<in> set (db_devices toy_single). dv_group_id r = None \<and> [] \<notin> group_ids toy_single))"
    by (simp add: toy_single_def toy_single_state_def)
  have "toy_single = st_db (ud_app \<lparr> ud_peers = (\<lambda>_. None), ud_app = toy_single_state \<rparr>)"
    by (simp add: toy_single_def)
  from backup_restores [OF toy_single_starts toy_single_ok clock tasks(2) _ this, of "[]" empty_database
      "''sqlite''" "''full''", unfolded if_not_P [OF grouped]] fk
  show "\<exists>data. export_backup toy_single = (Inr data, toy_single) \<and>
     snd (import_backup toy_host data True ''sqlite'' ''full'' empty_database) = restored toy_single"
    by auto
qed



text \<open>
  C31. A full export reads the tables in separate statements. When a room is created after it has read
  the rooms, and a group in this room before it reads the groups, the backup refers to a room it does
  not hold: importing it in overwrite mode fails, into whatever database, and changes nothing.
\<close>

theorem export_race:
  assumes "hub_ok s" "ints_ok (st_db s)" "db_foreign_keys (st_db s)" "clock_ok f3"
    and "au_role admin = ''admin''"
    and "user_route h f2 user (PostRooms name) s = (Inr (RRoom r), s1)"
    and "user_route h f3 user (PostGroups (rm_id r) gname config) s1 = (Inr (RGroup g), s2)"
  shows "\<exists>env. pool_step\<^sup>*\<^sup>*
      ([user_route_t h f1 admin (GetBackup None), user_route_t h f2 user (PostRooms name),
        user_route_t h f3 user (PostGroups (rm_id r) gname config)], s)
      ([give (RBackup env), give (RRoom r), give (RGroup g)], s2) \<and>
    (\<forall>d0 src scope. db_foreign_keys d0 \<longrightarrow>
      import_backup h (be_data env) True src scope d0 = (Inl (SqlError ForeignKeyViolation), d0))"
proof -
  obtain env where env: "pool_step\<^sup>*\<^sup>*
      ([user_route_t h f1 admin (GetBackup None), user_route_t h f2 user (PostRooms name),
        user_route_t h f3 user (PostGroups (rm_id r) gname config)], s)
      ([give (RBackup env), give (RRoom r), give (RGroup g)], s2)"
    and data: "bd_users (be_data env) = export_query user_columns (db_users (st_db s))"
      "bd_rooms (be_data env) = export_query room_columns (db_rooms (st_db s))"
      "bd_groups (be_data env) = export_query group_columns (db_groups (st_db s2))"
    using export_torn [OF assms(5-7), of f1] by blast
  obtain gr where gr: "db_groups (st_db s2) = db_groups (st_db s) @ [gr]" "gr_room_id gr = rm_id r"
      "rm_id r \<notin> room_ids (st_db s)" "gr_id gr \<notin> group_ids (st_db s)" "columns_ok (group_columns gr)"
    using created_rows [OF assms(6,7)] clock_i64 [OF assms(4)] by (auto simp: row_columns is_i64_def)
  have "import_backup h (be_data env) True src scope d0 = (Inl (SqlError ForeignKeyViolation), d0)"
    if "db_foreign_keys d0" for d0 src scope
  proof (rule torn_import)
    show "db_ok (st_db s)"
      using assms(1) by (simp add: hub_ok_def)
  qed (use assms(2,3) that data gr in simp_all)
  with env show ?thesis
    by blast
qed

lemma export_race_witness:
  "\<exists>r g env s2. pool_step\<^sup>*\<^sup>*
      ([user_route_t toy_host toy_fresh toy_root (GetBackup None),
        user_route_t toy_host toy_fresh toy_bob (PostRooms ''three''),
        user_route_t toy_host toy_fresh toy_bob (PostGroups (rm_id r) ''net'' toy_config)], toy_state)
      ([give (RBackup env), give (RRoom r), give (RGroup g)], s2) \<and>
    fst (import_backup toy_host (be_data env) True ''sqlite'' ''full'' empty_database) =
      Inl (SqlError ForeignKeyViolation)"
proof -
  obtain r s1 g s2 where made:
    "user_route toy_host toy_fresh toy_bob (PostRooms ''three'') toy_state = (Inr (RRoom r), s1)"
    "user_route toy_host toy_fresh toy_bob (PostGroups (rm_id r) ''net'' toy_config) s1 = (Inr (RGroup g), s2)"
    using toy_creates by blast
  have "ints_ok (st_db toy_state)" "db_foreign_keys (st_db toy_state)" "clock_ok toy_fresh"
      "au_role toy_root = ''admin''" "db_foreign_keys empty_database"
    using toy_ints by (simp_all add: toy_state_def new_state_def toy_db_def clock_ok_def is_i64_def
      toy_root_def empty_database_def)
  from export_race [OF toy_hub_ok this(1-4) made, of toy_fresh] this(5) show ?thesis
    by fastforce
qed

text \<open>
  C32. An import that fails leaves the database as it was; one that succeeds keeps the constraints, and its
  report has for every table the number of the rows that the backup holds, all of them imported or
  skipped. A merge only appends rows: every table still begins with the rows it had; and merging an export
  into a database that has a row for every exported key (such as the exported one) changes nothing and
  reports every row as skipped.
\<close>

theorem backup_import_all_or_nothing:
  assumes "import_backup h data ow src scope d = (res, d')"
  shows "(res = Inl e \<longrightarrow> d' = d) \<and> (db_ok d \<longrightarrow> db_ok d') \<and>
    (res = Inr report \<longrightarrow> map (\<lambda>t. (tr_table t, tr_attempted t)) (ir_tables report) =
        [(''users'', length (bd_users data)), (''rooms'', length (bd_rooms data)),
         (''groups'', length (bd_groups data)), (''devices'', length (bd_devices data)),
         (''events'', length (bd_events data)), (''config_pushes'', length (bd_config_pushes data)),
         (''system_config'', length (bd_system_config data))] \<and>
      (\<forall>t \<in> set (ir_tables report). tr_imported t + tr_skipped t = tr_attempted t)) \<and>
    (\<not> ow \<longrightarrow> prefix (db_users d) (db_users d') \<and> prefix (db_rooms d) (db_rooms d') \<and>
      prefix (db_groups d) (db_groups d') \<and> prefix (db_devices d) (db_devices d') \<and>
      prefix (db_events d) (db_events d') \<and> prefix (db_pushes d) (db_pushes d') \<and>
      prefix (db_system d) (db_system d') \<and> db_sessions d' = db_sessions d) \<and>
    (\<not> ow \<and> ints_ok d0 \<and> export_backup d0 = (Inr data, d0) \<and> covered_by d0 d \<longrightarrow>
      d' = d \<and> res = Inr \<lparr> ir_ok = True, ir_mode = ''merge'', ir_source_mode = src, ir_scope = scope,
        ir_tables = table_reports False d0 \<rparr>)"
proof (rule conjI [OF _ conjI [OF _ conjI [OF _ conjI]]]; rule impI)
  show "res = Inl e \<Longrightarrow> d' = d"
    using assms transaction_error unfolding import_backup_def by metis
  show "db_ok d \<Longrightarrow> db_ok d'"
    by (rule keepsD [OF import_backup_ok assms])
  assume "res = Inr report"
  then obtain d1 d2 where "import_tables h data ow d1 = (Inr (ir_tables report), d2)"
    using assms by (auto simp: import_backup_def transaction_ok andthen_def split: prod.splits sum.splits)
  then show "map (\<lambda>t. (tr_table t, tr_attempted t)) (ir_tables report) =
        [(''users'', length (bd_users data)), (''rooms'', length (bd_rooms data)),
         (''groups'', length (bd_groups data)), (''devices'', length (bd_devices data)),
         (''events'', length (bd_events data)), (''config_pushes'', length (bd_config_pushes data)),
         (''system_config'', length (bd_system_config data))] \<and>
      (\<forall>t \<in> set (ir_tables report). tr_imported t + tr_skipped t = tr_attempted t)"
    by (rule import_tables_counts)
next
  assume "\<not> ow"
  then have "import_backup h data False src scope d = (res, d')"
    using assms by simp
  from import_merge_extends [OF this]
  show "prefix (db_users d) (db_users d') \<and> prefix (db_rooms d) (db_rooms d') \<and>
      prefix (db_groups d) (db_groups d') \<and> prefix (db_devices d) (db_devices d') \<and>
      prefix (db_events d) (db_events d') \<and> prefix (db_pushes d) (db_pushes d') \<and>
      prefix (db_system d) (db_system d') \<and> db_sessions d' = db_sessions d"
    by (simp add: extends_def)
next
  assume merge: "\<not> ow \<and> ints_ok d0 \<and> export_backup d0 = (Inr data, d0) \<and> covered_by d0 d"
  then show "d' = d \<and> res = Inr \<lparr> ir_ok = True, ir_mode = ''merge'', ir_source_mode = src, ir_scope = scope,
      ir_tables = table_reports False d0 \<rparr>"
    using import_merge_covered [of d0 data d h src scope] assms by simp
qed

lemma backup_import_all_or_nothing_witness:
  "db_ok (snd (import_backup toy_host toy_backup True ''a'' ''b'' toy_db)) \<and>
   prefix (db_users toy_db) (db_users (snd (import_backup toy_host toy_backup False ''a'' ''b'' toy_db)))"
  using backup_import_all_or_nothing [OF prod.collapse [symmetric], of toy_host toy_backup True "''a''" "''b''" toy_db]
    backup_import_all_or_nothing [OF prod.collapse [symmetric], of toy_host toy_backup False "''a''" "''b''" toy_db]
    toy_db_ok
  by simp

text \<open>
  C33. The export of one user contains, table by table and in order, exactly the rows that belong to
  the rooms of this user, the row of the user, and no system configuration.
\<close>

theorem user_export_scope:
  assumes "db_ok d"
  shows "export_user_backup u d = (Inr \<lparr>
     bd_users = export_query user_columns (filter (\<lambda>x. us_id x = u) (db_users d)),
     bd_rooms = export_query room_columns (filter (\<lambda>r. room_owner d (rm_id r) = Some u) (db_rooms d)),
     bd_groups = export_query group_columns
       (filter (\<lambda>g. room_owner d (gr_room_id g) = Some u) (db_groups d)),
     bd_devices = export_query device_columns
       (filter (\<lambda>v. room_owner d (dv_room_id v) = Some u) (db_devices d)),
     bd_events = export_query event_columns
       (filter (\<lambda>e. device_owner d (ei_device_id e) = Some u) (db_events d)),
     bd_config_pushes = export_query push_columns
       (filter (\<lambda>p. device_owner d (pu_device_id p) = Some u) (db_pushes d)),
     bd_system_config = [] \<rparr>, d)"
proof -
  have "room_owner d (rm_id r) = Some (rm_owner_id r)" if "r \<in> set (db_rooms d)" for r
    using rooms_t.lookup_iff [OF assms, of "rm_id r" r] that by (simp add: room_owner_def)
  then have "filter (\<lambda>r. rm_owner_id r = u) (db_rooms d) =
      filter (\<lambda>r. room_owner d (rm_id r) = Some u) (db_rooms d)"
    by (intro filter_cong) auto
  then show ?thesis
    by (simp add: export_user_backup_eq [OF assms])
qed

lemma user_export_scope_witness:
  "\<exists>data. export_user_backup ''u1'' toy_db = (Inr data, toy_db) \<and> length (bd_devices data) = 1 \<and>
    bd_events data = []"
  unfolding user_export_scope [OF toy_db_ok]
  by (simp add: export_query_def room_owner_def device_owner_def row_by_def toy_defs)

section \<open>Events and accounts\<close>

text \<open>
  C34. The events a caller gets are at most 1000, newest first, and events of the hub that match the
  query; a caller who is not an administrator gets only events of devices in rooms of his own.
\<close>

theorem events_listing:
  assumes "hub_ok s" and "api_list_events user q s = (Inr es, s')"
  shows "length es \<le> 1000 \<and> sorted (map (\<lambda>e. - ei_created_at e) es) \<and> s' = s \<and>
    (e \<in> set es \<longrightarrow> e \<in> set (db_events (st_db s)) \<and>
      event_matches (eq_device_id q) (eq_event_type q) e \<and>
      (au_role user = ''admin'' \<or> device_owner (st_db s) (ei_device_id e) = Some (au_id user)))"
proof (rule conjI; (rule conjI)?; (rule conjI)?)
  have n: "1 \<le> event_limit (eq_limit q)" "event_limit (eq_limit q) \<le> 1000"
    by (simp_all add: event_limit_def)
  have es: "es = sql_limit (event_limit (eq_limit q))
      (order_desc ei_created_at (filter (visible_event user q (st_db s)) (db_events (st_db s))))"
    and "s' = s"
    using assms api_list_events_eq [of s user q] by (auto simp: hub_ok_def)
  show "length es \<le> 1000"
    using n by (simp add: es sql_limit_def min_le_iff_disj nat_le_iff)
  show "sorted (map (\<lambda>e. - ei_created_at e) es)"
    unfolding es by (rule sorted_sql_limit) (rule sorted_order_desc)
  show "s' = s"
    by fact
  show "e \<in> set es \<longrightarrow> e \<in> set (db_events (st_db s)) \<and>
      event_matches (eq_device_id q) (eq_event_type q) e \<and>
      (au_role user = ''admin'' \<or> device_owner (st_db s) (ei_device_id e) = Some (au_id user))"
    using set_sql_limit [of "event_limit (eq_limit q)"]
    by (fastforce simp: es order_desc_def visible_event_def)
qed

lemma events_listing_witness:
  "fst (api_list_events toy_bob \<lparr> eq_device_id = None, eq_event_type = None, eq_limit = None \<rparr> toy_state) =
    Inr []"
proof -
  obtain es s' where run: "api_list_events toy_bob \<lparr> eq_device_id = None, eq_event_type = None,
      eq_limit = None \<rparr> toy_state = (Inr es, s')"
    using toy_db_ok
    by (simp add: api_list_events_eq toy_state_def new_state_def)
  have "e \<notin> set es" for e
    using events_listing [OF toy_hub_ok run, of e]
    by (auto simp: toy_defs device_owner_def room_owner_def row_by_def)
  then show ?thesis
    using run by (cases es) auto
qed

text \<open>
  C35. A registration succeeds only when it is enabled, with a name of 3 to 32 permitted characters
  that no account has, and a password of 6 to 128 bytes; it adds one account with the role user, whose
  name and password log in afterwards.
\<close>

theorem registration_checked:
  assumes "register h f req s = (Inr uid, s')" and "argon2_laws h"
  shows "\<not> st_disable_register s \<and>
    3 \<le> length (lr_username req) \<and> length (lr_username req) \<le> 32 \<and>
    list_all username_char (lr_username req) \<and>
    6 \<le> length (lr_password req) \<and> length (lr_password req) \<le> 128 \<and>
    lr_username req \<notin> us_username ` set (db_users (st_db s)) \<and>
    (\<exists>u. db_users (st_db s') = db_users (st_db s) @ [u] \<and> us_id u = uid \<and> us_role u = ''user'') \<and>
    credentials h req (st_db s') = Some (uid, ''user'')"
proof (intro conjI)
  obtain hash where ok: "\<not> st_disable_register s"
      "validate_username_password (lr_username req) (lr_password req) = Inr ()"
      "lr_username req \<notin> us_username ` set (db_users (st_db s))"
    and hash: "hash_password h (fr_salt f) (lr_password req) = Inr hash"
    and s': "s' = s\<lparr>st_db := (st_db s)\<lparr>db_users := db_users (st_db s) @
        [\<lparr> us_id = uid, us_username = lr_username req, us_password = hash, us_role = ''user'',
           us_created_at = fr_clock f 0 \<rparr>]\<rparr>\<rparr>"
    using register_result [OF assms(1)] by blast
  show "\<not> st_disable_register s" "lr_username req \<notin> us_username ` set (db_users (st_db s))"
    by (fact ok)+
  show "3 \<le> length (lr_username req)" "length (lr_username req) \<le> 32"
    "list_all username_char (lr_username req)"
    "6 \<le> length (lr_password req)" "length (lr_password req) \<le> 128"
    using ok(2) by (auto simp: validate_username_password_def validate_password_def Let_def split: if_splits)
  show "\<exists>u. db_users (st_db s') = db_users (st_db s) @ [u] \<and> us_id u = uid \<and> us_role u = ''user''"
    by (simp add: s')
  have "fetch_optional (\<lambda>u. us_username u = lr_username req) (db_users (st_db s)) = None"
    using ok(3) unfolding fetch_optional_None by (metis image_eqI)
  then show "credentials h req (st_db s') = Some (uid, ''user'')"
    using verify_hash_password [OF assms(2) hash]
    by (simp add: s' credentials_def fetch_optional_append) (simp add: fetch_optional_def)
qed

lemma registration_checked_witness:
  "\<exists>s'. register toy_host toy_fresh \<lparr> lr_username = ''carol'', lr_password = ''secret'' \<rparr> toy_state =
      (Inr ''n'', s') \<and>
    credentials toy_host \<lparr> lr_username = ''carol'', lr_password = ''secret'' \<rparr> (st_db s') =
      Some (''n'', ''user'')"
proof -
  obtain s' where run: "register toy_host toy_fresh \<lparr> lr_username = ''carol'', lr_password = ''secret'' \<rparr>
      toy_state = (Inr ''n'', s')"
    using toy_register by blast
  from registration_checked [OF run toy_argon2_laws] run show ?thesis
    by blast
qed

text \<open>
  C36. Changing the password requires the old one and a new one of 6 to 128 bytes; it touches only the
  row of the caller, and afterwards the new password is the one that logs in. Deleting an account is
  refused for administrators; it fails with 500 and changes nothing when the user still owns rooms (or
  has a session row) and foreign keys are enforced; otherwise it removes the row of the caller and
  nothing else.
\<close>

theorem account_changes:
  assumes "argon2_laws h" and "fetch_optional (\<lambda>u. us_username u = au_username user) (db_users (st_db s)) = Some u"
    and "us_id u = au_id user"
  shows "(change_password h f user req s = (Inr (), s') \<longrightarrow>
      verify_password h (us_password u) (cp_old_password req) \<and>
      6 \<le> length (cp_new_password req) \<and> length (cp_new_password req) \<le> 128 \<and>
      filter (\<lambda>x. us_id x \<noteq> au_id user) (db_users (st_db s')) =
        filter (\<lambda>x. us_id x \<noteq> au_id user) (db_users (st_db s)) \<and>
      credentials h \<lparr> lr_username = au_username user, lr_password = cp_new_password req \<rparr> (st_db s') =
        Some (us_id u, us_role u)) \<and>
    delete_account user s =
     (if au_username user = ''admin'' \<or> au_role user = ''admin'' then (Inl FORBIDDEN, s)
      else if db_foreign_keys (st_db s) \<and>
        ((\<exists>r \<in> set (db_rooms (st_db s)). rm_owner_id r = au_id user) \<or>
         (\<exists>x \<in> set (db_sessions (st_db s)). ss_user_id x = au_id user))
      then (Inl INTERNAL_SERVER_ERROR, s)
      else (Inr (), s\<lparr>st_db := (st_db s)\<lparr>db_users :=
        filter (\<lambda>u. us_id u \<noteq> au_id user) (db_users (st_db s))\<rparr>\<rparr>))"
proof (intro conjI impI)
  assume run: "change_password h f user req s = (Inr (), s')"
  obtain x hash where x: "fetch_optional (\<lambda>u. us_username u = au_username user) (db_users (st_db s)) = Some x"
      "verify_password h (us_password x) (cp_old_password req)"
      "validate_password (cp_new_password req) = Inr ()"
    and s': "s' = s\<lparr>st_db := (st_db s)\<lparr>db_users := update_where (\<lambda>u. us_id u = au_id user)
        (\<lambda>u. u\<lparr>us_password := hash\<rparr>) (db_users (st_db s))\<rparr>\<rparr>"
    using change_password_result [OF run] by blast
  show "verify_password h (us_password u) (cp_old_password req)"
    using x(1,2) assms(2) by simp
  show "6 \<le> length (cp_new_password req)" "length (cp_new_password req) \<le> 128"
    using x(3) by (auto simp: validate_password_def split: if_splits)
  show "filter (\<lambda>x. us_id x \<noteq> au_id user) (db_users (st_db s')) =
      filter (\<lambda>x. us_id x \<noteq> au_id user) (db_users (st_db s))"
    by (auto simp: s' intro!: filter_update_where)
  show "credentials h \<lparr> lr_username = au_username user, lr_password = cp_new_password req \<rparr> (st_db s') =
      Some (us_id u, us_role u)"
    by (rule change_password_new_login [OF run assms])
next
  have "\<exists>u \<in> set (db_users (st_db s)). us_id u = au_id user"
    using assms(2,3) by (auto dest: fetch_optional_Some)
  then show "delete_account user s =
     (if au_username user = ''admin'' \<or> au_role user = ''admin'' then (Inl FORBIDDEN, s)
      else if db_foreign_keys (st_db s) \<and>
        ((\<exists>r \<in> set (db_rooms (st_db s)). rm_owner_id r = au_id user) \<or>
         (\<exists>x \<in> set (db_sessions (st_db s)). ss_user_id x = au_id user))
      then (Inl INTERNAL_SERVER_ERROR, s)
      else (Inr (), s\<lparr>st_db := (st_db s)\<lparr>db_users :=
        filter (\<lambda>u. us_id u \<noteq> au_id user) (db_users (st_db s))\<rparr>\<rparr>))"
    unfolding delete_account_eq delete_where_def by simp
qed

lemma account_changes_witness:
  "(\<exists>s'. change_password toy_host toy_fresh toy_bob
      \<lparr> cp_old_password = ''secret'', cp_new_password = ''better'' \<rparr> toy_state = (Inr (), s') \<and>
    credentials toy_host \<lparr> lr_username = ''bob'', lr_password = ''better'' \<rparr> (st_db s') =
      Some (''u1'', ''user'')) \<and>
   delete_account toy_bob toy_state = (Inl INTERNAL_SERVER_ERROR, toy_state)"
proof -
  obtain s' where run: "change_password toy_host toy_fresh toy_bob
      \<lparr> cp_old_password = ''secret'', cp_new_password = ''better'' \<rparr> toy_state = (Inr (), s')"
    using toy_change_password by blast
  have "fetch_optional (\<lambda>u. us_username u = au_username toy_bob) (db_users (st_db toy_state)) =
      Some (db_users toy_db ! 1)" "us_id (db_users toy_db ! 1) = au_id toy_bob"
    by (simp_all add: toy_defs fetch_optional_def)
  note changes = account_changes [OF toy_argon2_laws this]
  have "delete_account toy_bob toy_state = (Inl INTERNAL_SERVER_ERROR, toy_state)"
    unfolding changes [THEN conjunct2] by (simp add: toy_defs)
  moreover have "credentials toy_host \<lparr> lr_username = ''bob'', lr_password = ''better'' \<rparr> (st_db s') =
      Some (''u1'', ''user'')"
    using changes [THEN conjunct1, of toy_fresh "\<lparr> cp_old_password = ''secret'', cp_new_password = ''better'' \<rparr>" s'] run
    by (simp add: toy_bob_def toy_db_def)
  ultimately show ?thesis
    using run by blast
qed

section \<open>Reports and transports\<close>

text \<open>
  C37. A reported event is stored once, for the reporting device, with its type and payload, and
  published once to the event stream; when it cannot be stored nothing is published.
\<close>

theorem event_report_recorded:
  assumes "handle_client_message h f i (EventReport ty p t) s = (res, s')"
  shows "(res = Inr () \<longrightarrow>
      db_events (st_db s') = db_events (st_db s) @ [\<lparr> ei_id = fr_uuid f 0, ei_device_id = i,
        ei_event_type = ty, ei_payload = Some (h_json_text h p), ei_created_at = fr_clock f 2 \<rparr>] \<and>
      st_events s' = st_events s @ [h_json_text h (event_json (fr_uuid f 0) i ty p (fr_clock f 2))]) \<and>
    (res = Inl e \<longrightarrow> db_events (st_db s') = db_events (st_db s) \<and> st_events s' = st_events s) \<and>
    (i \<in> device_ids (st_db s) \<and> fr_uuid f 0 \<notin> ei_id ` set (db_events (st_db s)) \<longrightarrow> res = Inr ())"
proof -
  define s2 where "s2 = snd (report_update f i ty p s)"
  note s2 = report_update_frame [of f i ty p s, folded s2_def]
  have run: "handle_client_message h f i (EventReport ty p t) s =
      andthen (on_db (insert_event \<lparr> ei_id = fr_uuid f 0, ei_device_id = i, ei_event_type = ty,
        ei_payload = Some (h_json_text h p), ei_created_at = fr_clock f 2 \<rparr>)) (\<lambda>_.
      publish (h_json_text h (event_json (fr_uuid f 0) i ty p (fr_clock f 2)))) s2"
    unfolding s2_def by (rule event_report_eq)
  show ?thesis
    using assms s2 unfolding run
    by (auto simp: andthen_def on_db_def insert_event_def publish_def dangling_def split: if_splits)
qed

lemma event_report_recorded_witness:
  "fst (handle_client_message toy_host toy_fresh ''d1'' (EventReport ''up'' JNull 0) toy_state) = Inr ()"
  by (rule event_report_recorded [OF prod.collapse [symmetric], THEN conjunct2, THEN conjunct2, THEN mp])
    (simp add: toy_defs)

text \<open>
  C38. Reported traffic is stored as a signed 64-bit integer: exactly below 2^63, and 2^64 less from
  there on; the other devices keep their values.
\<close>

theorem reported_traffic_stored:
  assumes "handle_client_message h f i (TrafficStats up down t) s = (Inr (), s')"
    and "row_by dv_id i (db_devices (st_db s)) = Some r"
  shows "(\<exists>r'. row_by dv_id i (db_devices (st_db s')) = Some r' \<and>
      dv_up_stream r' = SInt (if uint up < 2 ^ 63 then uint up else uint up - 2 ^ 64) \<and>
      dv_down_stream r' = SInt (if uint down < 2 ^ 63 then uint down else uint down - 2 ^ 64)) \<and>
    filter (\<lambda>x. dv_id x \<noteq> i) (db_devices (st_db s')) = filter (\<lambda>x. dv_id x \<noteq> i) (db_devices (st_db s))"
proof
  let ?g = "\<lambda>r. r\<lparr>dv_up_stream := SInt (u64_as_i64 up), dv_down_stream := SInt (u64_as_i64 down),
    dv_traffic_updated_at := SInt (fr_clock f 0), dv_last_seen := SInt (fr_clock f 0)\<rparr>"
  have devs: "db_devices (st_db s') = update_where (\<lambda>r. dv_id r = i) ?g (db_devices (st_db s))"
    using assms(1) by (auto simp: update_device_traffic_def on_db_def andthen_def update_devices_def)
  have cast: "u64_as_i64 w = (if uint w < 2 ^ 63 then uint w else uint w - 2 ^ 64)" for w
    using u64_as_i64_small [of w] u64_as_i64_big [of w] by (simp add: not_less)
  have "row_by dv_id i (db_devices (st_db s')) = Some (?g r)"
    using assms(2) by (simp add: devs row_by_update_where row_by_Some)
  then show "\<exists>r'. row_by dv_id i (db_devices (st_db s')) = Some r' \<and>
      dv_up_stream r' = SInt (if uint up < 2 ^ 63 then uint up else uint up - 2 ^ 64) \<and>
      dv_down_stream r' = SInt (if uint down < 2 ^ 63 then uint down else uint down - 2 ^ 64)"
    by (simp add: cast)
  show "filter (\<lambda>x. dv_id x \<noteq> i) (db_devices (st_db s')) = filter (\<lambda>x. dv_id x \<noteq> i) (db_devices (st_db s))"
    unfolding devs by (rule filter_update_where) simp_all
qed

lemma reported_traffic_stored_witness:
  "\<exists>s' r'. handle_client_message toy_host toy_fresh ''d1'' (TrafficStats (2 ^ 63) 7 0) toy_state = (Inr (), s') \<and>
    row_by dv_id ''d1'' (db_devices (st_db s')) = Some r' \<and> dv_up_stream r' = SInt (- (2 ^ 63)) \<and>
    dv_down_stream r' = SInt 7"
proof -
  obtain s' where run: "handle_client_message toy_host toy_fresh ''d1'' (TrafficStats (2 ^ 63) 7 0) toy_state =
      (Inr (), s')"
    by (simp add: update_device_traffic_def on_db_def andthen_def update_devices_def)
  have "row_by dv_id ''d1'' (db_devices (st_db toy_state)) = Some toy_device"
    by (simp add: toy_defs row_by_def)
  from reported_traffic_stored [OF run this] run show ?thesis
    by (auto simp: uint_word_of_int)
qed

text \<open>
  C39. The stream that the handlers of a connection read replays the byte that was read to tell the
  protocols apart: with any sizes of reads it delivers the bytes of the connection in order, none lost
  and none twice. When the connection has been read to its end the handler has all that the peer sent.
\<close>

theorem stream_replayed:
  assumes "stream_laws rd content" and "served_stream (serve_one has_raw first s) = Some st"
    and "read_all (poll_read rd) st ns = (bs, st')"
  shows "first @ content s = bs @ prefixed_content content st' \<and>
    (prefixed_content content st' = [] \<longrightarrow> bs = first @ content s)"
  using prefixed.read_all_splits [OF assms(1,3)] served_stream_new [OF assms(2)] by simp

lemma stream_replayed_witness:
  "prefixed_content (\<lambda>b. b) (snd (read_all (poll_read list_reader) (prefixed_new [0x7b] [1, 2, 3]) [1, 2])) =
     [3]"
proof -
  have read: "read_all (poll_read list_reader) (prefixed_new [0x7b] [1, 2, 3]) [1, 2] =
      ([0x7b, 1, 2], snd (read_all (poll_read list_reader) (prefixed_new [0x7b] [1, 2, 3]) [1, 2]))"
    by (simp add: poll_read_def prefixed_new_def list_reader_def Let_def)
  have "served_stream (serve_one True [0x7b] [1, 2, 3]) = Some (prefixed_new [0x7b] [1, 2, 3 :: 8 word])"
    by (simp add: serve_one_def byte_of_char_def)
  from stream_replayed [OF list_reader_laws this read] show ?thesis
    by simp
qed

text \<open>
  C40. A launch that succeeds leaves the accounts there were and an account named admin, which is an
  administrator with the password admin when it had to be created. Two listeners with the stored
  certificate run at the addresses of the command line, and only the one for clients takes a
  connection that begins with a brace for the raw protocol; datagrams arrive at its address.
\<close>

theorem launch_ready:
  assumes "launch rustls parse bind bind_udp h f cert args d = Inr r" and "argon2_laws h"
  shows "prefix (db_users d) (db_users (st_db (ru_state r))) \<and>
    (\<exists>u \<in> set (db_users (st_db (ru_state r))). us_username u = ''admin'') \<and>
    ((\<forall>u \<in> set (db_users d). us_username u \<noteq> ''admin'') \<longrightarrow>
      (\<exists>u. db_users (st_db (ru_state r)) = db_users d @ [u] \<and> us_username u = ''admin'' \<and>
        us_role u = ''admin'' \<and> verify_password h (us_password u) ''admin'')) \<and>
    (\<exists>c k. fst (tls_pem h (st_db (ru_state r))) = Inr (c, k) \<and>
      tls_config rustls c k = Inr (li_tls (ru_web r)) \<and> li_tls (ru_console r) = li_tls (ru_web r)) \<and>
    parse (ar_listen args) = Some (li_addr (ru_web r)) \<and>
    parse (ar_console_listen args) = Some (li_addr (ru_console r)) \<and> ru_udp r = li_addr (ru_console r) \<and>
    accept_connection (ru_web r) first st \<noteq> RawTcp ps \<and>
    accept_connection (ru_console r) (byte_of_char (CHR ''{'') # bs) st =
      RawTcp (prefixed_new (byte_of_char (CHR ''{'') # bs) st)"
proof (intro conjI impI)
  note launched = launch_Inr [OF assms(1)]
  obtain d1 where d1: "ensure_admin h (fr_uuid f 0) (fr_salt f) (fr_clock f 0) d = (Inr (), d1)"
      and users: "db_users (st_db (ru_state r)) = db_users d1"
    using startup_steps [OF launched(1)] by blast
  note admin = ensure_admin_result [OF d1 assms(2)]
  show "prefix (db_users d) (db_users (st_db (ru_state r)))"
    using admin users by (cases "\<exists>u \<in> set (db_users d). us_username u = ''admin''") auto
  show "\<exists>u \<in> set (db_users (st_db (ru_state r))). us_username u = ''admin''"
    using admin users by (cases "\<exists>u \<in> set (db_users d). us_username u = ''admin''") auto
  show "\<forall>u \<in> set (db_users d). us_username u \<noteq> ''admin'' \<Longrightarrow>
      \<exists>u. db_users (st_db (ru_state r)) = db_users d @ [u] \<and> us_username u = ''admin'' \<and>
        us_role u = ''admin'' \<and> verify_password h (us_password u) ''admin''"
    using admin users by auto
  show "\<exists>c k. fst (tls_pem h (st_db (ru_state r))) = Inr (c, k) \<and>
      tls_config rustls c k = Inr (li_tls (ru_web r)) \<and> li_tls (ru_console r) = li_tls (ru_web r)"
    using launched(2) by auto
  show "parse (ar_listen args) = Some (li_addr (ru_web r))"
    "parse (ar_console_listen args) = Some (li_addr (ru_console r))" "ru_udp r = li_addr (ru_console r)"
    by (fact launched)+
  show "accept_connection (ru_web r) first st \<noteq> RawTcp ps"
    "accept_connection (ru_console r) (byte_of_char (CHR ''{'') # bs) st =
      RawTcp (prefixed_new (byte_of_char (CHR ''{'') # bs) st)"
    by (rule accepted_by_launched [OF assms(1)])+
qed

lemma launch_ready_witness:
  "\<exists>r. launch toy_tls toy_parse (\<lambda>_. Inr ()) (\<lambda>_. Inr ()) toy_host toy_fresh (Some (''c'', ''k''))
     default_args toy_db = Inr r \<and> prefix (db_users toy_db) (db_users (st_db (ru_state r)))"
proof -
  obtain r where launched: "launch toy_tls toy_parse (\<lambda>_. Inr ()) (\<lambda>_. Inr ()) toy_host toy_fresh
      (Some (''c'', ''k'')) default_args toy_db = Inr r"
    using toy_launch by blast
  from launch_ready [OF this toy_argon2_laws, THEN conjunct1] launched show ?thesis
    by blast
qed

end
